(* ===== verification/Prelude.thy ===== *)
theory Prelude
  imports Complex_Main "HOL-Library.Char_ord" "HOL-Library.List_Lexorder"
begin

text \<open>
  What every component of the development shares: the collections its proofs draw on, the
  reading of Go's nil-able slices and maps, decimal printing, and the lemmas on lists of rows
  (filtering, updating in place, sorting by a key) that the SQL layer and the components use.

  Strings are lists of bytes (Go's view of a string), ordered lexicographically by byte, which is
  how the database compares TEXT columns.
\<close>

named_theorems stmt_simps \<open>characteristic equations of the SQL statements and of the tables\<close>
named_theorems tx_simps \<open>how a transaction body runs statement by statement\<close>
named_theorems tx_pres \<open>how a transaction body keeps an invariant\<close>
named_theorems go_defs \<open>the definitions of the Go functions, unfolded on demand\<close>

section \<open>Go slices and maps\<close>

text \<open>A Go slice or map is nil (\<open>None\<close>) or holds its elements; the code tests for nil.\<close>

type_synonym 'a slice = "'a list option"
type_synonym gomap = "(string \<times> string) list option"

definition elems :: "'a slice \<Rightarrow> 'a list" where
  "elems s = (case s of None \<Rightarrow> [] | Some xs \<Rightarrow> xs)"

lemma elems_simps [simp]: "elems None = []" "elems (Some xs) = xs"
  by (simp_all add: elems_def)

section \<open>Decimal text\<close>

definition digit :: "int \<Rightarrow> char" where
  "digit n = char_of (48 + n mod 10)"

text \<open>\<open>pad_dec w n\<close> prints the last \<open>w\<close> decimal digits of \<open>n\<close>, zero-padded.\<close>

fun pad_dec :: "nat \<Rightarrow> int \<Rightarrow> string" where
  "pad_dec 0 n = []"
| "pad_dec (Suc w) n = pad_dec w (n div 10) @ [digit n]"

function show_pos :: "int \<Rightarrow> string" where
  "show_pos n = (if n < 10 then [digit n] else show_pos (n div 10) @ [digit n])"
  by pat_completeness auto
termination
  by (relation "measure nat") auto

declare show_pos.simps [simp del]

definition show_int :: "int \<Rightarrow> string" where
  "show_int i = (if i < 0 then CHR ''-'' # show_pos (- i) else show_pos i)"

definition is_digit :: "char \<Rightarrow> bool" where
  "is_digit c \<longleftrightarrow> 48 \<le> (of_char c :: int) \<and> (of_char c :: int) \<le> 57"

definition digit_val :: "char \<Rightarrow> int" where
  "digit_val c = of_char c - 48"

text \<open>The value of a run of digits, most significant first.\<close>

definition dec_val :: "string \<Rightarrow> int" where
  "dec_val s = foldl (\<lambda>a c. 10 * a + digit_val c) 0 s"

lemma of_char_digit [simp]: "(of_char (digit n) :: int) = 48 + n mod 10"
  by (simp add: digit_def)

lemma is_digit_digit [simp]: "is_digit (digit n)"
proof -
  have "n mod 10 < 10" "0 \<le> n mod 10" by simp_all
  then have "0 \<le> n mod 10" "n mod 10 \<le> 9" by arith+
  then show ?thesis by (simp add: is_digit_def)
qed

lemma digit_val_digit [simp]: "digit_val (digit n) = n mod 10"
  by (simp add: digit_val_def)

lemma digit_less [simp]: "digit m < digit n \<longleftrightarrow> m mod 10 < n mod 10"
proof -
  have "digit m < digit n \<longleftrightarrow> (of_char (digit m) :: int) < of_char (digit n)"
    by (metis less_char_def of_nat_less_iff of_nat_of_char)
  then show ?thesis by simp
qed

lemma digit_eq [simp]: "digit m = digit n \<longleftrightarrow> m mod 10 = n mod 10"
proof
  assume "digit m = digit n"
  then have "(of_char (digit m) :: int) = of_char (digit n)" by simp
  then show "m mod 10 = n mod 10" by simp
qed (simp add: digit_def)

lemma length_pad_dec [simp]: "length (pad_dec w n) = w"
  by (induction w arbitrary: n) auto

lemma pad_dec_digits: "\<forall>c \<in> set (pad_dec w n). is_digit c"
  by (induction w arbitrary: n) auto

lemma dec_val_Nil [simp]: "dec_val [] = 0"
  by (simp add: dec_val_def)

lemma dec_val_snoc [simp]: "dec_val (s @ [c]) = 10 * dec_val s + digit_val c"
  by (simp add: dec_val_def)

lemma dec_val_pad_dec: "0 \<le> n \<Longrightarrow> dec_val (pad_dec w n) = n mod 10 ^ w"
proof (induction w arbitrary: n)
  case 0
  then show ?case by simp
next
  case (Suc w)
  have "n mod (10 * 10 ^ w) = 10 * (n div 10 mod 10 ^ w) + n mod 10"
    by (rule zmod_zmult2_eq) simp
  with Suc show ?case by (simp add: pos_imp_zdiv_nonneg_iff)
qed

lemma dec_val_pad_dec_id: "0 \<le> n \<Longrightarrow> n < 10 ^ w \<Longrightarrow> dec_val (pad_dec w n) = n"
  by (simp add: dec_val_pad_dec)

lemma show_pos_digits: "\<forall>c \<in> set (show_pos n). is_digit c"
proof (induction n rule: show_pos.induct)
  case (1 n)
  then show ?case by (subst show_pos.simps) auto
qed

lemma dec_val_show_pos [simp]: "0 \<le> n \<Longrightarrow> dec_val (show_pos n) = n"
proof (induction n rule: show_pos.induct)
  case (1 n)
  show ?case
  proof (cases "n < 10")
    case True
    with 1 show ?thesis by (subst show_pos.simps) (simp add: dec_val_def)
  next
    case False
    with 1 have "dec_val (show_pos n) = 10 * (n div 10) + n mod 10"
      by (subst show_pos.simps) simp
    then show ?thesis by simp
  qed
qed

lemma show_pos_inject: "0 \<le> m \<Longrightarrow> 0 \<le> n \<Longrightarrow> show_pos m = show_pos n \<longleftrightarrow> m = n"
  by (metis dec_val_show_pos)

lemma show_pos_nonempty [simp]: "show_pos n \<noteq> []"
  by (subst show_pos.simps) simp

section \<open>Bytewise order of texts\<close>

lemma int_step_mono:
  fixes f :: "int \<Rightarrow> int"
  assumes step: "\<And>k. f k \<le> f (k + 1)" and le: "a \<le> b"
  shows "f a \<le> f b"
  using le
proof (induction "nat (b - a)" arbitrary: b)
  case 0
  then show ?case by simp
next
  case (Suc n)
  then have "f a \<le> f (b - 1)" by auto
  also have "\<dots> \<le> f b" using step [of "b - 1"] by simp
  finally show ?case .
qed

lemma append_less_cancel:
  fixes xs ys :: "'a::linorder list"
  assumes "length xs = length ys"
  shows "xs @ us < ys @ vs \<longleftrightarrow> xs < ys \<or> (xs = ys \<and> us < vs)"
  using assms by (induction xs ys rule: list_induct2) auto

lemma div_mod_less_iff:
  fixes m n :: int
  shows "m div 10 < n div 10 \<or> (m div 10 = n div 10 \<and> m mod 10 < n mod 10) \<longleftrightarrow> m < n"
proof -
  have m: "10 * (m div 10) + m mod 10 = m" and n: "10 * (n div 10) + n mod 10 = n"
    by simp_all
  have b: "m mod 10 < 10" "n mod 10 < 10" "0 \<le> m mod 10" "0 \<le> n mod 10" by simp_all
  define a b c d where "a = m div 10" and "b = m mod 10" and "c = n div 10" and "d = n mod 10"
  have "(a < c \<or> (a = c \<and> b < d)) \<longleftrightarrow> 10 * a + b < 10 * c + d"
    using b unfolding b_def [symmetric] d_def [symmetric] by auto
  then show ?thesis unfolding a_def b_def c_def d_def m n .
qed

lemma pad_dec_less:
  "0 \<le> m \<Longrightarrow> 0 \<le> n \<Longrightarrow> m < 10 ^ w \<Longrightarrow> n < 10 ^ w \<Longrightarrow>
   pad_dec w m < pad_dec w n \<longleftrightarrow> m < n"
proof (induction w arbitrary: m n)
  case 0
  then show ?case by simp
next
  case (Suc w)
  have d: "0 \<le> m div 10" "0 \<le> n div 10" "m div 10 < 10 ^ w" "n div 10 < 10 ^ w"
    using Suc.prems by (auto simp: pos_imp_zdiv_nonneg_iff)
  have eq: "pad_dec w (m div 10) = pad_dec w (n div 10) \<longleftrightarrow> m div 10 = n div 10"
    using d dec_val_pad_dec_id by metis
  have "pad_dec (Suc w) m < pad_dec (Suc w) n \<longleftrightarrow>
      m div 10 < n div 10 \<or> (m div 10 = n div 10 \<and> m mod 10 < n mod 10)"
    by (simp add: append_less_cancel Suc.IH [OF d] eq)
  also have "\<dots> \<longleftrightarrow> m < n" by (rule div_mod_less_iff)
  finally show ?case .
qed

lemma pad_dec_inject:
  "0 \<le> m \<Longrightarrow> 0 \<le> n \<Longrightarrow> m < 10 ^ w \<Longrightarrow> n < 10 ^ w \<Longrightarrow>
   pad_dec w m = pad_dec w n \<longleftrightarrow> m = n"
  by (metis dec_val_pad_dec_id)

section \<open>Lists of rows\<close>

lemma distinct_map_filter: "distinct (map f xs) \<Longrightarrow> distinct (map f (filter P xs))"
  by (induction xs) auto

lemma map_upd_key:
  "(\<And>r. key (f r) = key r) \<Longrightarrow> map key (map (\<lambda>r. if P r then f r else r) t) = map key t"
  by (induction t) auto

lemma filter_key_unique:
  "distinct (map key t) \<Longrightarrow> r \<in> set t \<Longrightarrow> filter (\<lambda>x. key x = key r) t = [r]"
proof (induction t)
  case (Cons a t)
  then show ?case
  proof (cases "a = r")
    case True
    with Cons.prems have "\<forall>x \<in> set t. key x \<noteq> key r" by (auto simp: image_iff)
    with True show ?thesis by (simp add: filter_empty_conv)
  next
    case False
    with Cons show ?thesis by (auto simp: image_iff)
  qed
qed simp

lemma filter_key_none: "k \<notin> key ` set t \<Longrightarrow> filter (\<lambda>x. key x = k) t = []"
  by (induction t) auto

lemma filter_key_length:
  "distinct (map key t) \<Longrightarrow> length (filter (\<lambda>x. key x = k) t) \<le> 1"
proof (induction t)
  case (Cons a t)
  then show ?case by (cases "key a = k") (auto simp: filter_empty_conv image_iff)
qed simp

lemma hd_sort_key_in: "xs \<noteq> [] \<Longrightarrow> hd (sort_key k xs) \<in> set xs"
  by (metis hd_in_set set_sort sort_key_simps(1) set_empty)

lemma hd_sort_key_min:
  assumes "x \<in> set xs"
  shows "k (hd (sort_key k xs)) \<le> k x"
proof -
  have ne: "sort_key k xs \<noteq> []"
    using assms by (metis empty_iff empty_set set_sort)
  have "sorted (map k (sort_key k xs))" by simp
  moreover have "x \<in> set (sort_key k xs)" using assms by simp
  ultimately show ?thesis
    using ne by (cases "sort_key k xs") auto
qed

lemma sort_key_snoc:
  fixes k :: "'a \<Rightarrow> 'k::linorder"
  shows "(\<And>y. y \<in> set xs \<Longrightarrow> k y \<le> k x) \<Longrightarrow> sort_key k (xs @ [x]) = sort_key k xs @ [x]"
proof (induction xs)
  case (Cons a xs)
  have "insort_key k a (ys @ [x]) = insort_key k a ys @ [x]" if "k a \<le> k x" for ys
    using that by (induction ys) auto
  with Cons show ?case by simp
qed simp

lemma find_snoc:
  "List.find P (xs @ [x]) =
     (case List.find P xs of Some y \<Rightarrow> Some y | None \<Rightarrow> if P x then Some x else None)"
  by (induction xs) auto

lemma filter_id_conv': "(\<And>x. x \<in> set xs \<Longrightarrow> P x) \<Longrightarrow> filter P xs = xs"
  by (induction xs) auto

text \<open>\<^verbatim>\<open>strings.HasPrefix\<close>.\<close>

definition HasPrefix :: "string \<Rightarrow> string \<Rightarrow> bool" where
  "HasPrefix s p \<longleftrightarrow> take (length p) s = p"

lemma HasPrefix_iff: "HasPrefix s p \<longleftrightarrow> (\<exists>h. s = p @ h)"
  by (metis HasPrefix_def append_eq_conv_conj append_take_drop_id)

end
