(* ===== verification/GoTime.thy ===== *)
theory GoTime
  imports Prelude "HOL-Library.Monad_Syntax"
begin

text \<open>
  Go's \<^verbatim>\<open>time.Time\<close> as far as the store uses it: an instant in nanoseconds since the Unix epoch
  with the zone it is shown in, the layouts RFC3339 and RFC3339Nano (the text every timestamp
  column holds), and \<^verbatim>\<open>time.Parse\<close> for them.  The store compares and sorts those texts inside SQL,
  so the second half relates the bytewise order of the texts to the order of the instants: they
  agree when the whole seconds differ, and need not within one second, because RFC3339Nano drops
  the trailing zeros of the fraction.
\<close>

section \<open>The calendar\<close>

definition is_leap :: "int \<Rightarrow> bool" where
  "is_leap y \<longleftrightarrow> y mod 4 = 0 \<and> (y mod 100 \<noteq> 0 \<or> y mod 400 = 0)"

definition leap_day :: "int \<Rightarrow> int" where
  "leap_day y = (if is_leap y then 1 else 0)"

text \<open>Days from 1 January of year 1 to 1 January of year \<open>y\<close>.\<close>

definition days_before_year :: "int \<Rightarrow> int" where
  "days_before_year y = 365 * (y - 1) + (y - 1) div 4 - (y - 1) div 100 + (y - 1) div 400"

text \<open>\<open>l\<close> is 1 in a leap year: the days before month \<open>m\<close>, and the days in it.\<close>

definition days_before_month :: "int \<Rightarrow> int \<Rightarrow> int" where
  "days_before_month l m =
     (if m \<le> 1 then 0 else if m = 2 then 31 else if m = 3 then 59 + l else if m = 4 then 90 + l
      else if m = 5 then 120 + l else if m = 6 then 151 + l else if m = 7 then 181 + l
      else if m = 8 then 212 + l else if m = 9 then 243 + l else if m = 10 then 273 + l
      else if m = 11 then 304 + l else if m = 12 then 334 + l else 365 + l)"

definition days_in :: "int \<Rightarrow> int \<Rightarrow> int" where
  "days_in m y = days_before_month (leap_day y) (m + 1) - days_before_month (leap_day y) m"

definition valid_date :: "int \<Rightarrow> int \<Rightarrow> int \<Rightarrow> bool" where
  "valid_date y m d \<longleftrightarrow> 1 \<le> m \<and> m \<le> 12 \<and> 1 \<le> d \<and> d \<le> days_in m y"

definition days_from_civil :: "int \<Rightarrow> int \<Rightarrow> int \<Rightarrow> int" where
  "days_from_civil y m d = days_before_year y + days_before_month (leap_day y) m + (d - 1)"

text \<open>The year and the day of the year of a day number: 400, 100, 4 and 1 year cycles.\<close>

definition year_yday :: "int \<Rightarrow> int \<times> int" where
  "year_yday d0 =
     (let n400 = d0 div 146097; d1 = d0 mod 146097;
          c = d1 div 36524; n100 = c - c div 4; d2 = d1 - 36524 * n100;
          n4 = d2 div 1461; d3 = d2 - 1461 * n4;
          q = d3 div 365; n1 = q - q div 4; d4 = d3 - 365 * n1
      in (400 * n400 + 100 * n100 + 4 * n4 + n1 + 1, d4))"

definition month_of :: "int \<Rightarrow> int \<Rightarrow> int" where
  "month_of l yd =
     (if yd < 31 then 1 else if yd < 59 + l then 2 else if yd < 90 + l then 3
      else if yd < 120 + l then 4 else if yd < 151 + l then 5 else if yd < 181 + l then 6
      else if yd < 212 + l then 7 else if yd < 243 + l then 8 else if yd < 273 + l then 9
      else if yd < 304 + l then 10 else if yd < 334 + l then 11 else 12)"

definition civil_from_days :: "int \<Rightarrow> int \<times> int \<times> int" where
  "civil_from_days d0 =
     (let (y, yd) = year_yday d0; l = leap_day y; m = month_of l yd
      in (y, m, yd - days_before_month l m + 1))"

lemma leap_day_01: "leap_day y = 0 \<or> leap_day y = 1"
  by (simp add: leap_day_def)

lemma div_exact: "0 \<le> r \<Longrightarrow> r < k \<Longrightarrow> (k * q + r) div k = (q::int)"
  by simp

lemma mod_last: "0 < r \<Longrightarrow> r \<le> k \<Longrightarrow> (k * q + r) mod k = (0::int) \<longleftrightarrow> r = k"
  by (cases "r = k") (auto simp: mod_pos_pos_trivial)

lemma year_cycle:
  fixes a b c e :: int
  assumes "0 \<le> b" "b \<le> 3" "0 \<le> c" "c \<le> 24" "0 \<le> e" "e \<le> 3"
  defines "y \<equiv> 400 * a + 100 * b + 4 * c + e + 1"
  shows "days_before_year y = 146097 * a + 36524 * b + 1461 * c + 365 * e"
    and "is_leap y \<longleftrightarrow> e = 3 \<and> (c \<noteq> 24 \<or> b = 3)"
proof -
  have y1: "y - 1 = 4 * (100 * a + 25 * b + c) + e" "y - 1 = 100 * (4 * a + b) + (4 * c + e)"
    "y - 1 = 400 * a + (100 * b + 4 * c + e)" by (simp_all add: y_def)
  have 4: "(y - 1) div 4 = 100 * a + 25 * b + c"
    unfolding y1(1) by (rule div_exact) (use assms in simp_all)
  have 100: "(y - 1) div 100 = 4 * a + b"
    unfolding y1(2) by (rule div_exact) (use assms in simp_all)
  have 400: "(y - 1) div 400 = a"
    unfolding y1(3) by (rule div_exact) (use assms in simp_all)
  show "days_before_year y = 146097 * a + 36524 * b + 1461 * c + 365 * e"
    unfolding days_before_year_def 4 100 400 unfolding y_def by simp
  have y0: "y = 4 * (100 * a + 25 * b + c) + (e + 1)" "y = 100 * (4 * a + b) + (4 * c + e + 1)"
    "y = 400 * a + (100 * b + 4 * c + e + 1)" by (simp_all add: y_def)
  have m4: "y mod 4 = 0 \<longleftrightarrow> e + 1 = 4"
    unfolding y0(1) by (rule mod_last) (use assms in simp_all)
  have m100: "y mod 100 = 0 \<longleftrightarrow> 4 * c + e + 1 = 100"
    unfolding y0(2) by (rule mod_last) (use assms in simp_all)
  have m400: "y mod 400 = 0 \<longleftrightarrow> 100 * b + 4 * c + e + 1 = 400"
    unfolding y0(3) by (rule mod_last) (use assms in simp_all)
  show "is_leap y \<longleftrightarrow> e = 3 \<and> (c \<noteq> 24 \<or> b = 3)"
    unfolding is_leap_def m4 m100 m400 using assms(1-6) by auto
qed

lemma cut_off:
  fixes q :: int
  assumes "0 \<le> q" "q \<le> 4"
  shows "q - q div 4 = (if q = 4 then 3 else q)"
proof (cases "q = 4")
  case False
  with assms have "q div 4 = 0" by (intro div_pos_pos_trivial) auto
  with False show ?thesis by simp
qed simp

lemma year_yday_correct:
  assumes "year_yday d0 = (y, yd)"
  shows "days_before_year y + yd = d0" and "0 \<le> yd" and "yd < 365 + leap_day y"
proof -
  define a d1 where "a = d0 div 146097" and "d1 = d0 mod 146097"
  have d0: "d0 = 146097 * a + d1" "0 \<le> d1" "d1 < 146097" by (simp_all add: a_def d1_def)
  define q where "q = d1 div 36524"
  define b d2 where "b = q - q div 4" and "d2 = d1 - 36524 * b"
  have q: "36524 * q \<le> d1" "d1 < 36524 * q + 36524" unfolding q_def by auto
  then have q4: "0 \<le> q" "q \<le> 4" using d0 by auto
  have b: "0 \<le> b" "b \<le> 3" "0 \<le> d2" "b < 3 \<Longrightarrow> d2 < 36524" "d2 \<le> 36524"
    using q q4 d0 unfolding d2_def b_def cut_off [OF q4] by (auto split: if_splits)
  define c d3 where "c = d2 div 1461" and "d3 = d2 - 1461 * c"
  have c: "1461 * c \<le> d2" "d2 < 1461 * c + 1461" unfolding c_def by auto
  have c': "0 \<le> c" "c \<le> 24" "0 \<le> d3" "d3 \<le> 1460" using c b unfolding d3_def by auto
  define r where "r = d3 div 365"
  define e d4 where "e = r - r div 4" and "d4 = d3 - 365 * e"
  have r: "365 * r \<le> d3" "d3 < 365 * r + 365" unfolding r_def by auto
  then have r4: "0 \<le> r" "r \<le> 4" using c' by auto
  have e: "0 \<le> e" "e \<le> 3" "0 \<le> d4" "e < 3 \<Longrightarrow> d4 < 365" "d4 \<le> 365"
    using r r4 c' unfolding d4_def e_def cut_off [OF r4] by (auto split: if_splits)
  have "year_yday d0 = (400 * a + 100 * b + 4 * c + e + 1, d4)"
    unfolding year_yday_def Let_def a_def [symmetric] d1_def [symmetric] q_def [symmetric]
      b_def [symmetric] d2_def [symmetric] c_def [symmetric] d3_def [symmetric]
      r_def [symmetric] e_def [symmetric] d4_def [symmetric] by (rule refl)
  then have y: "y = 400 * a + 100 * b + 4 * c + e + 1" and yd: "yd = d4"
    using assms by simp_all
  note cyc = year_cycle [OF b(1,2) c'(1,2) e(1,2), of a, folded y]
  show "days_before_year y + yd = d0"
    unfolding cyc(1) yd d0(1) d4_def d3_def d2_def by simp
  show "0 \<le> yd" using e yd by simp
  have last: "e = 3 \<and> (c \<noteq> 24 \<or> b = 3)" if full: "d4 = 365"
  proof -
    have e3: "e = 3" using full e(2,4) by (cases "e < 3") auto
    have "b = 3" if "c = 24"
    proof -
      have "d2 = 36524" using full e3 that unfolding d4_def d3_def by simp
      then show ?thesis using b(2,4) by (cases "b < 3") auto
    qed
    with e3 show ?thesis by blast
  qed
  show "yd < 365 + leap_day y"
    using last e(5) cyc(2) unfolding yd leap_day_def by (cases "d4 = 365") auto
qed

lemma month_of_correct:
  assumes "0 \<le> yd" "yd < 365 + l" "l = 0 \<or> l = 1"
  shows "1 \<le> month_of l yd" "month_of l yd \<le> 12"
    "days_before_month l (month_of l yd) \<le> yd"
    "yd < days_before_month l (month_of l yd + 1)"
proof -
  have "1 \<le> month_of l yd \<and> month_of l yd \<le> 12 \<and>
      days_before_month l (month_of l yd) \<le> yd \<and>
      yd < days_before_month l (month_of l yd + 1)"
    using assms(1,2)
    by (cases "yd < 31", simp add: month_of_def days_before_month_def,
        cases "yd < 59 + l", simp add: month_of_def days_before_month_def,
        cases "yd < 90 + l", simp add: month_of_def days_before_month_def,
        cases "yd < 120 + l", simp add: month_of_def days_before_month_def,
        cases "yd < 151 + l", simp add: month_of_def days_before_month_def,
        cases "yd < 181 + l", simp add: month_of_def days_before_month_def,
        cases "yd < 212 + l", simp add: month_of_def days_before_month_def,
        cases "yd < 243 + l", simp add: month_of_def days_before_month_def,
        cases "yd < 273 + l", simp add: month_of_def days_before_month_def,
        cases "yd < 304 + l", simp add: month_of_def days_before_month_def,
        cases "yd < 334 + l", simp add: month_of_def days_before_month_def,
        simp add: month_of_def days_before_month_def)
  then show "1 \<le> month_of l yd" "month_of l yd \<le> 12"
    "days_before_month l (month_of l yd) \<le> yd"
    "yd < days_before_month l (month_of l yd + 1)" by blast+
qed

lemma civil_from_days_correct:
  assumes "civil_from_days d0 = (y, m, d)"
  shows "days_from_civil y m d = d0" and "valid_date y m d"
proof -
  obtain y' yd where yy: "year_yday d0 = (y', yd)" by (cases "year_yday d0") auto
  note y = year_yday_correct [OF yy]
  note m = month_of_correct [OF y(2,3) leap_day_01]
  have eq: "y = y'" "m = month_of (leap_day y') yd"
    "d = yd - days_before_month (leap_day y') (month_of (leap_day y') yd) + 1"
    using assms yy by (auto simp: civil_from_days_def Let_def)
  show "days_from_civil y m d = d0" using y(1) eq by (simp add: days_from_civil_def)
  show "valid_date y m d" using m eq by (simp add: valid_date_def days_in_def)
qed

text \<open>Calendar order is day order.\<close>

lemma div_step: "0 < k \<Longrightarrow> y div k = (y - 1) div k + (if y mod k = 0 then 1 else (0::int))"
proof -
  assume k: "0 < k"
  define q r where "q = y div k" and "r = y mod k"
  have y: "y = k * q + r" "0 \<le> r" "r < k" using k by (simp_all add: q_def r_def)
  show ?thesis
  proof (cases "r = 0")
    case True
    have "(k * (q - 1) + (k - 1)) div k = q - 1" using k by (intro div_exact) auto
    moreover have "y - 1 = k * (q - 1) + (k - 1)" using y(1) True by (simp add: algebra_simps)
    ultimately have "(y - 1) div k = q - 1" by metis
    then show ?thesis using True by (simp add: q_def r_def)
  next
    case False
    have "(k * q + (r - 1)) div k = q" using False y by (intro div_exact) auto
    moreover have "y - 1 = k * q + (r - 1)" using y(1) by simp
    ultimately have "(y - 1) div k = q" by metis
    then show ?thesis using False by (simp add: q_def r_def)
  qed
qed

lemma leap_arith:
  fixes a b c :: int
  assumes "a = a' + (if p then 1 else 0)" "b = b' + (if q then 1 else 0)"
    "c = c' + (if r then 1 else 0)" "r \<Longrightarrow> q" "q \<Longrightarrow> p"
  shows "a - b + c = a' - b' + c' + (if p \<and> (\<not> q \<or> r) then 1 else 0)"
  using assms by (cases p; cases q; cases r) auto

lemma mod_mult_0: "y mod (k * j) = 0 \<Longrightarrow> y mod k = (0::int)"
  by (metis dvd_triv_left mod_0 mod_mod_cancel)

lemma days_before_year_Suc: "days_before_year (y + 1) = days_before_year y + 365 + leap_day y"
proof -
  have imp: "y mod 400 = 0 \<Longrightarrow> y mod 100 = 0" "y mod 100 = 0 \<Longrightarrow> y mod 4 = 0"
    using mod_mult_0 [of y 100 4] mod_mult_0 [of y 4 25] by simp_all
  have pos: "0 < (4::int)" "0 < (100::int)" "0 < (400::int)" by simp_all
  note leap_arith [OF div_step [OF pos(1), of y] div_step [OF pos(2), of y]
      div_step [OF pos(3), of y] imp]
  then have "y div 4 - y div 100 + y div 400 =
      (y - 1) div 4 - (y - 1) div 100 + (y - 1) div 400 + leap_day y"
    unfolding leap_day_def is_leap_def by blast
  moreover have "days_before_year (y + 1) = 365 * y + (y div 4 - y div 100 + y div 400)"
    by (simp add: days_before_year_def)
  moreover have "365 * (y - 1) + a - b + c = 365 * y - 365 + (a - b + c)" for a b c :: int
    by simp
  then have "days_before_year y =
      365 * y - 365 + ((y - 1) div 4 - (y - 1) div 100 + (y - 1) div 400)"
    unfolding days_before_year_def by blast
  ultimately show ?thesis by simp
qed

lemma days_before_year_mono: "y \<le> y' \<Longrightarrow> days_before_year y \<le> days_before_year y'"
proof (rule int_step_mono [of days_before_year])
  show "days_before_year k \<le> days_before_year (k + 1)" for k
    using leap_day_01 [of k] by (auto simp: days_before_year_Suc)
qed

lemma days_before_month_bounds:
  assumes "l = 0 \<or> l = 1"
  shows "0 \<le> days_before_month l m" "days_before_month l m \<le> 365 + l"
  using assms by (auto simp: days_before_month_def)

lemma valid_date_yday:
  assumes "valid_date y m d"
  shows "0 \<le> days_before_month (leap_day y) m + (d - 1)"
    and "days_before_month (leap_day y) m + (d - 1) < 365 + leap_day y"
proof -
  note b = days_before_month_bounds [OF leap_day_01 [of y]]
  show "0 \<le> days_before_month (leap_day y) m + (d - 1)"
    using assms b(1) [of m] by (simp add: valid_date_def)
  show "days_before_month (leap_day y) m + (d - 1) < 365 + leap_day y"
    using assms b(2) [of "m + 1"] by (simp add: valid_date_def days_in_def)
qed

definition date_less :: "int \<times> int \<times> int \<Rightarrow> int \<times> int \<times> int \<Rightarrow> bool" where
  "date_less p q \<longleftrightarrow> fst p < fst q \<or> (fst p = fst q \<and>
     (fst (snd p) < fst (snd q) \<or> (fst (snd p) = fst (snd q) \<and> snd (snd p) < snd (snd q))))"

lemma month_lt:
  assumes "1 \<le> m" "m < m'" "m' \<le> 12" "l = 0 \<or> l = 1"
  shows "days_before_month l (m + 1) \<le> days_before_month l m'"
proof (rule int_step_mono [of "days_before_month l"])
  show "days_before_month l k \<le> days_before_month l (k + 1)" for k
    using assms(4) unfolding days_before_month_def by auto
qed (use assms in simp)

lemma days_from_civil_less:
  assumes "valid_date y m d" "valid_date y' m' d'" "date_less (y, m, d) (y', m', d')"
  shows "days_from_civil y m d < days_from_civil y' m' d'"
proof -
  consider "y < y'" | "y = y'" "m < m'" | "y = y'" "m = m'" "d < d'"
    using assms(3) by (auto simp: date_less_def)
  then show ?thesis
  proof cases
    case 1
    then have "days_before_year y + 365 + leap_day y \<le> days_before_year y'"
      using days_before_year_mono [of "y + 1" y'] by (simp add: days_before_year_Suc)
    with valid_date_yday [OF assms(1)] valid_date_yday [OF assms(2)] show ?thesis
      by (simp add: days_from_civil_def)
  next
    case 2
    then show ?thesis
      using assms(1,2) month_lt [of m m' "leap_day y", OF _ _ _ leap_day_01]
      by (auto simp: days_from_civil_def valid_date_def days_in_def)
  next
    case 3
    then show ?thesis by (simp add: days_from_civil_def)
  qed
qed

lemma date_less_linear: "date_less p q \<or> p = q \<or> date_less q p"
  by (auto simp: date_less_def prod_eq_iff)

lemma civil_from_days_less:
  "date_less (civil_from_days a) (civil_from_days b) \<longleftrightarrow> a < b"
proof -
  obtain y m d where p: "civil_from_days a = (y, m, d)" by (metis prod_cases3)
  obtain y' m' d' where q: "civil_from_days b = (y', m', d')" by (metis prod_cases3)
  note P = civil_from_days_correct [OF p] and Q = civil_from_days_correct [OF q]
  have lt: "date_less (y, m, d) (y', m', d') \<Longrightarrow> a < b"
    using days_from_civil_less [OF P(2) Q(2)] P(1) Q(1) by simp
  have gt: "date_less (y', m', d') (y, m, d) \<Longrightarrow> b < a"
    using days_from_civil_less [OF Q(2) P(2)] P(1) Q(1) by simp
  have eq: "(y, m, d) = (y', m', d') \<Longrightarrow> a = b" using P(1) Q(1) by simp
  show ?thesis
    using date_less_linear [of "(y, m, d)" "(y', m', d')"] lt gt eq unfolding p q by auto
qed

section \<open>Instants\<close>

text \<open>
  \<open>instant\<close> is in nanoseconds since the Unix epoch, \<open>zone\<close> is the offset east of UTC in seconds.
  Durations are \<^verbatim>\<open>int64\<close> nanoseconds.
\<close>

datatype gotime = GoTime (instant: int) (zone: int)

type_synonym duration = int

definition Second :: duration where "Second = 1000000000"
definition Minute :: duration where "Minute = 60 * Second"
definition Hour :: duration where "Hour = 60 * Minute"

definition wrap64 :: "int \<Rightarrow> int" where
  "wrap64 i = (i + 2 ^ 63) mod 2 ^ 64 - 2 ^ 63"

definition time_add :: "gotime \<Rightarrow> duration \<Rightarrow> gotime" where
  "time_add t d = GoTime (instant t + d) (zone t)"

text \<open>\<^verbatim>\<open>t.Sub(u)\<close> saturates at the extreme durations.\<close>

definition time_sub :: "gotime \<Rightarrow> gotime \<Rightarrow> duration" where
  "time_sub t u = max (- (2 ^ 63)) (min (2 ^ 63 - 1) (instant t - instant u))"

definition time_after :: "gotime \<Rightarrow> gotime \<Rightarrow> bool" where
  "time_after t u \<longleftrightarrow> instant t > instant u"

definition in_UTC :: "gotime \<Rightarrow> gotime" where
  "in_UTC t = GoTime (instant t) 0"

definition zero_time :: gotime where
  "zero_time = GoTime (- 62135596800 * 1000000000) 0"

definition IsZero :: "gotime \<Rightarrow> bool" where
  "IsZero t \<longleftrightarrow> instant t = instant zero_time"

lemma wrap64_id: "- (2 ^ 63) \<le> i \<Longrightarrow> i < 2 ^ 63 \<Longrightarrow> wrap64 i = i"
  by (simp add: wrap64_def)

section \<open>The layouts RFC3339 and RFC3339Nano\<close>

definition local_secs :: "gotime \<Rightarrow> int" where
  "local_secs t = instant t div Second + zone t"

definition nanos :: "gotime \<Rightarrow> int" where
  "nanos t = instant t mod Second"

definition epoch_days :: int where "epoch_days = 719162"

definition civil_of :: "int \<Rightarrow> int \<times> int \<times> int" where
  "civil_of ls = civil_from_days (ls div 86400 + epoch_days)"

definition fmt_year :: "int \<Rightarrow> string" where
  "fmt_year y = (if y < 0 then ''-'' else []) @
     (if \<bar>y\<bar> < 10000 then pad_dec 4 \<bar>y\<bar> else show_pos \<bar>y\<bar>)"

definition fmt_clock :: "int \<Rightarrow> string" where
  "fmt_clock s = pad_dec 2 (s div 3600) @ '':'' @ pad_dec 2 (s mod 3600 div 60) @ '':''
     @ pad_dec 2 (s mod 60)"

text \<open>Date and time of day, up to the seconds.\<close>

definition stamp :: "int \<Rightarrow> string" where
  "stamp ls = (case civil_of ls of (y, m, d) \<Rightarrow>
     fmt_year y @ ''-'' @ pad_dec 2 m @ ''-'' @ pad_dec 2 d @ ''T''
     @ fmt_clock (ls mod 86400))"

definition strip_zeros :: "string \<Rightarrow> string" where
  "strip_zeros s = rev (dropWhile (\<lambda>c. c = digit 0) (rev s))"

definition fmt_frac :: "int \<Rightarrow> string" where
  "fmt_frac n = (if n = 0 then [] else ''.'' @ strip_zeros (pad_dec 9 n))"

definition fmt_zone :: "int \<Rightarrow> string" where
  "fmt_zone z = (if z = 0 then ''Z''
     else (let m = \<bar>z\<bar> div 60 in
       (if z < 0 \<and> m \<noteq> 0 then ''-'' else ''+'') @ pad_dec 2 (m div 60) @ '':''
       @ pad_dec 2 (m mod 60)))"

definition format_RFC3339Nano :: "gotime \<Rightarrow> string" where
  "format_RFC3339Nano t = stamp (local_secs t) @ fmt_frac (nanos t) @ fmt_zone (zone t)"

definition format_RFC3339 :: "gotime \<Rightarrow> string" where
  "format_RFC3339 t = stamp (local_secs t) @ fmt_zone (zone t)"

section \<open>Parsing\<close>

definition lit :: "char \<Rightarrow> string \<Rightarrow> string option" where
  "lit c s = (case s of [] \<Rightarrow> None | x # r \<Rightarrow> if x = c then Some r else None)"

text \<open>\<^verbatim>\<open>getnum\<close>: two digits, or one when \<open>fixed\<close> does not hold.\<close>

definition getnum :: "bool \<Rightarrow> string \<Rightarrow> (int \<times> string) option" where
  "getnum fixed s = (case s of
     [] \<Rightarrow> None
   | a # r \<Rightarrow>
       if \<not> is_digit a then None
       else (case r of
          b # r' \<Rightarrow>
            if is_digit b then Some (10 * digit_val a + digit_val b, r')
            else if fixed then None else Some (digit_val a, r)
        | [] \<Rightarrow> if fixed then None else Some (digit_val a, [])))"

definition get_year :: "string \<Rightarrow> (int \<times> string) option" where
  "get_year s =
     (if 4 \<le> length s \<and> list_all is_digit (take 4 s)
      then Some (dec_val (take 4 s), drop 4 s) else None)"

definition comma_or_period :: "char \<Rightarrow> bool" where
  "comma_or_period c \<longleftrightarrow> c = CHR ''.'' \<or> c = CHR '',''"

text \<open>A fraction of any length, of which nine digits count.\<close>

definition get_frac :: "string \<Rightarrow> int \<times> string" where
  "get_frac s = (case s of
     c # d # r \<Rightarrow>
       if comma_or_period c \<and> is_digit d
       then (let ds = takeWhile is_digit (d # r); us = take 9 ds
             in (dec_val us * 10 ^ (9 - length us), drop (length ds) (d # r)))
       else (0, s)
   | _ \<Rightarrow> (0, s))"

definition get_zone :: "string \<Rightarrow> (int \<times> string) option" where
  "get_zone s = (case s of
     [] \<Rightarrow> None
   | c # r \<Rightarrow>
       if c = CHR ''Z'' then Some (0, r)
       else do {
         (hh, r) \<leftarrow> getnum True r;
         r \<leftarrow> lit CHR '':'' r;
         (mm, r) \<leftarrow> getnum True r;
         if hh \<le> 24 \<and> mm \<le> 60 then
           (if c = CHR ''+'' then Some ((hh * 60 + mm) * 60, r)
            else if c = CHR ''-'' then Some (- ((hh * 60 + mm) * 60), r)
            else None)
         else None
       })"

definition parse_RFC3339 :: "string \<Rightarrow> gotime option" where
  "parse_RFC3339 s = do {
     (y, s) \<leftarrow> get_year s;
     s \<leftarrow> lit CHR ''-'' s;
     (m, s) \<leftarrow> getnum True s;
     s \<leftarrow> lit CHR ''-'' s;
     (d, s) \<leftarrow> getnum True s;
     s \<leftarrow> lit CHR ''T'' s;
     (h, s) \<leftarrow> getnum False s;
     s \<leftarrow> lit CHR '':'' s;
     (mi, s) \<leftarrow> getnum True s;
     s \<leftarrow> lit CHR '':'' s;
     (sec, s) \<leftarrow> getnum True s;
     let (ns, s) = get_frac s;
     (off, s) \<leftarrow> get_zone s;
     if s = [] \<and> valid_date y m d \<and> h < 24 \<and> mi < 60 \<and> sec < 60
     then Some (GoTime
       (((days_from_civil y m d - epoch_days) * 86400 + h * 3600 + mi * 60 + sec - off) * Second
         + ns) off)
     else None
   }"

text \<open>
  The scan helpers try RFC3339Nano and then RFC3339.  \<^verbatim>\<open>time.Parse\<close> accepts a fraction after the
  seconds whether or not the layout has one, so both layouts accept the same texts and the second
  attempt is never decisive.
\<close>

definition parse_ts :: "string \<Rightarrow> gotime" where
  "parse_ts s = (case parse_RFC3339 s of Some t \<Rightarrow> t | None \<Rightarrow>
     (case parse_RFC3339 s of Some t \<Rightarrow> t | None \<Rightarrow> zero_time))"

section \<open>Parsing what was formatted\<close>

definition in_years :: "gotime \<Rightarrow> bool" where
  "in_years t \<longleftrightarrow> 0 \<le> fst (civil_of (local_secs t)) \<and> fst (civil_of (local_secs t)) \<le> 9999"

lemma pad_dec_2: "pad_dec 2 n = [digit (n div 10), digit n]"
  by (simp add: numeral_2_eq_2)

lemma getnum_pad: "0 \<le> n \<Longrightarrow> n < 100 \<Longrightarrow> getnum fx (pad_dec 2 n @ r) = Some (n, r)"
proof -
  assume n: "0 \<le> n" "n < 100"
  then have "n div 10 mod 10 = n div 10" by (intro mod_pos_pos_trivial) auto
  then have "10 * (n div 10 mod 10) + n mod 10 = n" by simp
  then show ?thesis by (simp add: getnum_def pad_dec_2)
qed

lemma get_year_pad: "0 \<le> y \<Longrightarrow> y \<le> 9999 \<Longrightarrow> get_year (pad_dec 4 y @ r) = Some (y, r)"
  using pad_dec_digits [of 4 y] by (simp add: get_year_def list_all_iff dec_val_pad_dec_id)

lemma lit_Cons: "lit c (x # r) = (if x = c then Some r else None)"
  by (simp add: lit_def)

lemma strip_zeros_decomp: "\<exists>k. s = strip_zeros s @ replicate k (digit 0)"
proof -
  have "rev s = takeWhile (\<lambda>c. c = digit 0) (rev s) @ dropWhile (\<lambda>c. c = digit 0) (rev s)"
    by simp
  then have "s = strip_zeros s @ rev (takeWhile (\<lambda>c. c = digit 0) (rev s))"
    unfolding strip_zeros_def by (metis rev_append rev_rev_ident)
  moreover have "takeWhile (\<lambda>c. c = digit 0) (rev s) =
      replicate (length (takeWhile (\<lambda>c. c = digit 0) (rev s))) (digit 0)"
    by (rule replicate_eqI [symmetric, THEN sym]) (auto dest: set_takeWhileD)
  ultimately show ?thesis by (metis rev_replicate)
qed

lemma dec_val_zeros: "dec_val (s @ replicate k (digit 0)) = dec_val s * 10 ^ k"
proof (induction k)
  case (Suc k)
  have "s @ replicate (Suc k) (digit 0) = (s @ replicate k (digit 0)) @ [digit 0]"
    by (simp add: replicate_append_same)
  then show ?case using Suc by (simp del: append_assoc)
qed simp

lemma strip_zeros_pad:
  assumes "0 < n" "n < 10 ^ 9"
  defines "u \<equiv> strip_zeros (pad_dec 9 n)"
  shows "u \<noteq> []" "length u \<le> 9" "\<forall>c \<in> set u. is_digit c"
    "dec_val u * 10 ^ (9 - length u) = n"
proof -
  obtain k where k: "pad_dec 9 n = u @ replicate k (digit 0)"
    using strip_zeros_decomp u_def by blast
  then have len: "length u + k = 9" by (metis length_append length_pad_dec length_replicate)
  then show "length u \<le> 9" by simp
  show "\<forall>c \<in> set u. is_digit c" using pad_dec_digits [of 9 n] unfolding k by simp
  have "dec_val (pad_dec 9 n) = n" using assms(1,2) by (intro dec_val_pad_dec_id) auto
  moreover have "9 - length u = k" using len by simp
  ultimately show v: "dec_val u * 10 ^ (9 - length u) = n" unfolding k dec_val_zeros by simp
  show "u \<noteq> []" using v assms(1) by auto
qed

lemma takeWhile_stop: "\<forall>c \<in> set u. P c \<Longrightarrow> \<not> P x \<Longrightarrow> takeWhile P (u @ x # r) = u"
  by (induction u) auto

lemma get_frac_fmt:
  assumes "0 \<le> n" "n < 10 ^ 9" "x = CHR ''Z'' \<or> x = CHR ''+'' \<or> x = CHR ''-''"
  shows "get_frac (fmt_frac n @ x # r) = (n, x # r)"
proof (cases "n = 0")
  case True
  then show ?thesis using assms(3)
    by (auto simp: fmt_frac_def get_frac_def comma_or_period_def split: list.splits)
next
  case False
  define u where "u = strip_zeros (pad_dec 9 n)"
  have u: "u \<noteq> []" "length u \<le> 9" "\<forall>c \<in> set u. is_digit c" "dec_val u * 10 ^ (9 - length u) = n"
    using strip_zeros_pad [of n] assms False unfolding u_def by auto
  have x: "\<not> is_digit x" using assms(3) by (auto simp: is_digit_def)
  obtain d v where dv: "u = d # v" using u(1) by (cases u) auto
  have tw: "takeWhile is_digit (u @ x # r) = u" using u(3) x by (rule takeWhile_stop)
  have fmt: "fmt_frac n @ x # r = CHR ''.'' # u @ x # r"
    using False by (simp add: fmt_frac_def u_def)
  show ?thesis
    unfolding fmt get_frac_def using u tw dv
    by (simp add: comma_or_period_def Let_def)
qed

lemma get_zone_fmt:
  assumes "\<bar>z\<bar> < 86400" "60 dvd z"
  shows "get_zone (fmt_zone z) = Some (z, [])"
proof (cases "z = 0")
  case True
  then show ?thesis by (simp add: fmt_zone_def get_zone_def)
next
  case False
  define m where "m = \<bar>z\<bar> div 60"
  have z: "\<bar>z\<bar> = 60 * m" using assms(2) by (simp add: m_def)
  have m: "0 < m" "m < 1440" using z False assms(1) by auto
  have h: "0 \<le> m div 60" "m div 60 < 24" "0 \<le> m mod 60" "m mod 60 < 60"
    using m by (auto simp: pos_imp_zdiv_nonneg_iff)
  have g: "getnum True (pad_dec 2 (m div 60) @ r) = Some (m div 60, r)"
    "getnum True (pad_dec 2 (m mod 60)) = Some (m mod 60, [])" for r
    using h getnum_pad [of "m mod 60" True "[]"] by (auto intro!: getnum_pad)
  have s: "(m div 60 * 60 + m mod 60) * 60 = \<bar>z\<bar>" using z by simp
  show ?thesis
  proof (cases "z < 0")
    case True
    then have f: "fmt_zone z = CHR ''-'' # pad_dec 2 (m div 60) @ CHR '':'' # pad_dec 2 (m mod 60)"
      unfolding fmt_zone_def Let_def m_def [symmetric] using False m by simp
    show ?thesis unfolding f get_zone_def using g h s True by (simp add: lit_Cons)
  next
    case neg: False
    then have f: "fmt_zone z = CHR ''+'' # pad_dec 2 (m div 60) @ CHR '':'' # pad_dec 2 (m mod 60)"
      unfolding fmt_zone_def Let_def m_def [symmetric] using False m by simp
    show ?thesis unfolding f get_zone_def using g h s neg by (simp add: lit_Cons)
  qed
qed

lemma fmt_zone_Cons: "\<exists>x r. fmt_zone z = x # r \<and> (x = CHR ''Z'' \<or> x = CHR ''+'' \<or> x = CHR ''-'')"
  by (auto simp: fmt_zone_def Let_def)

lemma clock_parts:
  fixes s :: int
  assumes "0 \<le> s" "s < 86400"
  shows "0 \<le> s div 3600" "s div 3600 < 24" "0 \<le> s mod 3600 div 60" "s mod 3600 div 60 < 60"
    "0 \<le> s mod 60" "s mod 60 < 60" "s div 3600 * 3600 + s mod 3600 div 60 * 60 + s mod 60 = s"
proof -
  have b: "0 \<le> s mod 3600" "s mod 3600 < 3600" by simp_all
  show "0 \<le> s div 3600" "s div 3600 < 24" using assms by (auto simp: pos_imp_zdiv_nonneg_iff)
  show "0 \<le> s mod 3600 div 60" "s mod 3600 div 60 < 60"
    using b by (auto simp: pos_imp_zdiv_nonneg_iff)
  show "0 \<le> s mod 60" "s mod 60 < 60" by simp_all
  have "s mod 3600 mod 60 = s mod 60" by (rule mod_mod_cancel) simp
  then have "s mod 3600 div 60 * 60 + s mod 60 = s mod 3600" by (metis div_mult_mod_eq)
  then show "s div 3600 * 3600 + s mod 3600 div 60 * 60 + s mod 60 = s"
    by (metis add.assoc div_mult_mod_eq)
qed

lemma valid_date_small: "valid_date y m d \<Longrightarrow> 1 \<le> m \<and> m \<le> 12 \<and> 1 \<le> d \<and> d \<le> 99"
  using leap_day_01 [of y] unfolding valid_date_def days_in_def
  by (auto simp: days_before_month_def split: if_splits)

lemma parse_format:
  assumes "in_years t" "\<bar>zone t\<bar> < 86400" "60 dvd zone t"
  shows "parse_RFC3339 (format_RFC3339Nano t) = Some t"
proof -
  define ls s where "ls = local_secs t" and "s = ls mod 86400"
  obtain y m d where c: "civil_of ls = (y, m, d)" by (metis prod_cases3)
  have y: "0 \<le> y" "y \<le> 9999" using assms(1) c by (simp_all add: in_years_def ls_def)
  note cv = civil_from_days_correct [OF c [unfolded civil_of_def]]
  have md: "0 \<le> m" "m < 100" "0 \<le> d" "d < 100" using valid_date_small [OF cv(2)] by auto
  have s: "0 \<le> s" "s < 86400" by (simp_all add: s_def)
  define h mi se where "h = s div 3600" and "mi = s mod 3600 div 60" and "se = s mod 60"
  note k = clock_parts [OF s, folded h_def mi_def se_def]
  have n: "0 \<le> nanos t" "nanos t < 10 ^ 9" by (simp_all add: nanos_def Second_def)
  obtain x r where z: "fmt_zone (zone t) = x # r" "x = CHR ''Z'' \<or> x = CHR ''+'' \<or> x = CHR ''-''"
    using fmt_zone_Cons by blast
  have gz: "get_zone (x # r) = Some (zone t, [])" using get_zone_fmt [OF assms(2,3)] z(1) by simp
  have f: "format_RFC3339Nano t = pad_dec 4 y @ CHR ''-'' # pad_dec 2 m @ CHR ''-'' # pad_dec 2 d
      @ CHR ''T'' # pad_dec 2 h @ CHR '':'' # pad_dec 2 mi @ CHR '':'' # pad_dec 2 se @ fmt_frac (nanos t) @ x # r"
    using y by (simp add: format_RFC3339Nano_def stamp_def ls_def [symmetric] c fmt_year_def
        fmt_clock_def s_def [symmetric] h_def mi_def se_def z(1))
  have "days_from_civil y m d - epoch_days = ls div 86400" using cv(1) by simp
  moreover have "ls div 86400 * 86400 + s = ls" unfolding s_def by simp
  ultimately have parts: "(days_from_civil y m d - epoch_days) * 86400 + h * 3600 + mi * 60 + se
      - zone t = instant t div Second"
    using k(7) by (simp add: ls_def local_secs_def)
  have t: "GoTime ((instant t div Second) * Second + nanos t) (zone t) = t"
    by (cases t) (simp add: nanos_def)
  have "parse_RFC3339 (format_RFC3339Nano t) =
      Some (GoTime (((days_from_civil y m d - epoch_days) * 86400 + h * 3600 + mi * 60 + se
        - zone t) * Second + nanos t) (zone t))"
    unfolding f parse_RFC3339_def
    using y md k(1-6) cv(2)
    by (simp add: get_year_pad lit_Cons getnum_pad get_frac_fmt [OF n z(2)] gz)
  then show ?thesis unfolding parts t .
qed

section \<open>Text order against time order\<close>

lemma fmt_clock_less:
  assumes "0 \<le> s" "s < 86400" "0 \<le> s'" "s' < 86400"
  shows "fmt_clock s < fmt_clock s' \<longleftrightarrow> s < s'" and "length (fmt_clock s) = 8"
proof -
  define h mi se h' mi' se' where "h = s div 3600" and "mi = s mod 3600 div 60" and "se = s mod 60"
    and "h' = s' div 3600" and "mi' = s' mod 3600 div 60" and "se' = s' mod 60"
  note k = clock_parts [OF assms(1,2), folded h_def mi_def se_def]
  note k' = clock_parts [OF assms(3,4), folded h'_def mi'_def se'_def]
  have "fmt_clock s < fmt_clock s' \<longleftrightarrow> h < h' \<or> (h = h' \<and> (mi < mi' \<or> (mi = mi' \<and> se < se')))"
    unfolding fmt_clock_def h_def [symmetric] mi_def [symmetric] se_def [symmetric]
      h'_def [symmetric] mi'_def [symmetric] se'_def [symmetric]
    using k(1-6) k'(1-6) by (simp add: append_less_cancel pad_dec_less pad_dec_inject)
  also have "\<dots> \<longleftrightarrow> s < s'" using k k' by auto
  finally show "fmt_clock s < fmt_clock s' \<longleftrightarrow> s < s'" .
  show "length (fmt_clock s) = 8" by (simp add: fmt_clock_def)
qed

definition year_of :: "int \<Rightarrow> int" where
  "year_of ls = fst (civil_of ls)"

lemma stamp_less:
  assumes "0 \<le> year_of a" "year_of a \<le> 9999" "0 \<le> year_of b" "year_of b \<le> 9999"
  shows "stamp a < stamp b \<longleftrightarrow> a < b" and "length (stamp a) = 19"
proof -
  obtain y m d where c: "civil_of a = (y, m, d)" by (metis prod_cases3)
  obtain y' m' d' where c': "civil_of b = (y', m', d')" by (metis prod_cases3)
  note v = valid_date_small [OF civil_from_days_correct(2) [OF c [unfolded civil_of_def]]]
  note v' = valid_date_small [OF civil_from_days_correct(2) [OF c' [unfolded civil_of_def]]]
  have y: "0 \<le> y" "y \<le> 9999" "0 \<le> y'" "y' \<le> 9999" using assms c c' by (simp_all add: year_of_def)
  define s s' where "s = a mod 86400" and "s' = b mod 86400"
  have s: "0 \<le> s" "s < 86400" "0 \<le> s'" "s' < 86400" by (simp_all add: s_def s'_def)
  have "stamp a < stamp b \<longleftrightarrow>
      date_less (y, m, d) (y', m', d') \<or> ((y, m, d) = (y', m', d') \<and> s < s')"
    using y v v' unfolding stamp_def c c' s_def [symmetric] s'_def [symmetric]
    by (auto simp add: fmt_year_def append_less_cancel pad_dec_less pad_dec_inject date_less_def
        fmt_clock_less(1) [OF s])
  also have "date_less (y, m, d) (y', m', d') \<longleftrightarrow> a div 86400 < b div 86400"
    using civil_from_days_less [of "a div 86400 + epoch_days" "b div 86400 + epoch_days"] c c'
    by (simp add: civil_of_def)
  also have "(y, m, d) = (y', m', d') \<longleftrightarrow> a div 86400 = b div 86400"
  proof
    assume "(y, m, d) = (y', m', d')"
    then show "a div 86400 = b div 86400"
      using civil_from_days_correct(1) [OF c [unfolded civil_of_def]]
        civil_from_days_correct(1) [OF c' [unfolded civil_of_def]] by simp
  next
    assume "a div 86400 = b div 86400"
    then show "(y, m, d) = (y', m', d')" using c c' by (simp add: civil_of_def)
  qed
  also have "(a div 86400 < b div 86400 \<or> (a div 86400 = b div 86400 \<and> s < s')) \<longleftrightarrow> a < b"
  proof -
    have "a = 86400 * (a div 86400) + s" "b = 86400 * (b div 86400) + s'"
      unfolding s_def s'_def by simp_all
    then obtain q q' where q: "a = 86400 * q + s" "b = 86400 * q' + s'"
      "q = a div 86400" "q' = b div 86400" by blast
    have "(q < q' \<or> (q = q' \<and> s < s')) \<longleftrightarrow> 86400 * q + s < 86400 * q' + s'" using s by auto
    then show ?thesis unfolding q(3,4) [symmetric] q(1,2) [symmetric] .
  qed
  finally show "stamp a < stamp b \<longleftrightarrow> a < b" .
  show "length (stamp a) = 19" using y by (simp add: stamp_def c fmt_year_def fmt_clock_def)
qed

text \<open>The clock of a UTC timestamp, in whole seconds, and the texts of two such timestamps.\<close>

definition utc_ok :: "gotime \<Rightarrow> bool" where
  "utc_ok t \<longleftrightarrow> zone t = 0 \<and> in_years t"

definition secs :: "gotime \<Rightarrow> int" where
  "secs t = instant t div Second"

lemma utc_ok_year: "utc_ok t \<Longrightarrow> 0 \<le> year_of (secs t) \<and> year_of (secs t) \<le> 9999"
  by (auto simp: utc_ok_def in_years_def year_of_def secs_def local_secs_def)

lemma format_utc: "utc_ok t \<Longrightarrow> format_RFC3339Nano t = stamp (secs t) @ fmt_frac (nanos t) @ ''Z''"
  by (simp add: utc_ok_def format_RFC3339Nano_def secs_def local_secs_def fmt_zone_def)

lemma format_less_iff:
  assumes "utc_ok a" "utc_ok b"
  shows "format_RFC3339Nano a < format_RFC3339Nano b \<longleftrightarrow>
    secs a < secs b \<or> (secs a = secs b \<and> fmt_frac (nanos a) @ ''Z'' < fmt_frac (nanos b) @ ''Z'')"
proof -
  note ya = utc_ok_year [OF assms(1)] and yb = utc_ok_year [OF assms(2)]
  have len: "length (stamp (secs a)) = length (stamp (secs b))"
    using stamp_less(2) [of "secs a" "secs b"] stamp_less(2) [of "secs b" "secs a"] ya yb by simp
  have lt: "stamp (secs a) < stamp (secs b) \<longleftrightarrow> secs a < secs b"
    "stamp (secs b) < stamp (secs a) \<longleftrightarrow> secs b < secs a"
    using stamp_less(1) [of "secs a" "secs b"] stamp_less(1) [of "secs b" "secs a"] ya yb by auto
  then have "stamp (secs a) = stamp (secs b) \<longleftrightarrow> secs a = secs b" by (metis linorder_neq_iff)
  then show ?thesis
    unfolding format_utc [OF assms(1)] format_utc [OF assms(2)]
    by (simp only: append_less_cancel [OF len] lt)
qed

lemma format_less_secs:
  "utc_ok a \<Longrightarrow> utc_ok b \<Longrightarrow> secs a < secs b \<Longrightarrow> format_RFC3339Nano a < format_RFC3339Nano b"
  by (simp add: format_less_iff)

lemma format_less_imp:
  "utc_ok a \<Longrightarrow> utc_ok b \<Longrightarrow> format_RFC3339Nano a < format_RFC3339Nano b \<Longrightarrow> secs a \<le> secs b"
  by (auto simp: format_less_iff)

lemma secs_mono: "instant a \<le> instant b \<Longrightarrow> secs a \<le> secs b"
  unfolding secs_def Second_def by (rule zdiv_mono1) auto

text \<open>The order of the texts is never off by a full second.\<close>

lemma format_less_second:
  assumes "utc_ok a" "utc_ok b"
  shows "format_RFC3339Nano a < format_RFC3339Nano b \<Longrightarrow> instant a < instant b + Second"
    and "instant a + Second \<le> instant b \<Longrightarrow> format_RFC3339Nano a < format_RFC3339Nano b"
proof -
  have d: "Second * secs t \<le> instant t" "instant t < Second * secs t + Second" for t
    using mult_div_mod_eq [of Second "instant t"] pos_mod_bound [of Second "instant t"]
      pos_mod_sign [of Second "instant t"] by (simp_all add: secs_def Second_def)
  show "instant a < instant b + Second" if "format_RFC3339Nano a < format_RFC3339Nano b"
    using format_less_imp [OF assms that] d(2) [of a] d(1) [of b] by (simp add: Second_def)
  show "format_RFC3339Nano a < format_RFC3339Nano b" if "instant a + Second \<le> instant b"
    using that d(1) [of a] d(2) [of b] by (intro format_less_secs [OF assms]) (simp add: Second_def)
qed

text \<open>Within one second the order holds when both fractions print all nine digits.\<close>

lemma fmt_frac_full:
  assumes "n mod 10 \<noteq> 0"
  shows "fmt_frac n = CHR ''.'' # pad_dec 9 n"
proof -
  have "pad_dec 9 n = pad_dec 8 (n div 10) @ [digit n]"
    by (simp add: eval_nat_numeral)
  moreover have "n \<noteq> 0" using assms by auto
  ultimately show ?thesis using assms by (simp add: fmt_frac_def strip_zeros_def)
qed

lemma format_less_full:
  assumes "utc_ok a" "utc_ok b" "nanos a mod 10 \<noteq> 0" "nanos b mod 10 \<noteq> 0"
  shows "format_RFC3339Nano a < format_RFC3339Nano b \<longleftrightarrow> instant a < instant b"
proof -
  have n: "0 \<le> nanos a" "nanos a < 10 ^ 9" "0 \<le> nanos b" "nanos b < 10 ^ 9"
    by (simp_all add: nanos_def Second_def)
  have "instant a = 1000000000 * secs a + nanos a" "instant b = 1000000000 * secs b + nanos b"
    by (simp_all add: secs_def nanos_def Second_def)
  then have "instant a < instant b \<longleftrightarrow> secs a < secs b \<or> (secs a = secs b \<and> nanos a < nanos b)"
    using n by auto
  then show ?thesis
    using assms n by (simp add: format_less_iff fmt_frac_full append_less_cancel pad_dec_less)
qed

end
