(* ===== verification/Sql.thy ===== *)
theory Sql
  imports GoTime
begin

text \<open>
  The language the store speaks to the database: Go errors as values, tables, the five kinds of SQL
  statement the store sends, and a transaction as the sequence of statements executed in it.

  The tables and statements follow SQL; the server itself is not in the repository, so what it may
  do is left open by parameters: the error a statement, \<^verbatim>\<open>BEGIN\<close> or \<^verbatim>\<open>COMMIT\<close> returns, and what
  other sessions commit before an access.  Every theorem quantifies over them.
\<close>

section \<open>Errors\<close>

text \<open>
  The sentinels of \<^verbatim>\<open>internal/model/errors.go\<close> and \<^verbatim>\<open>database/sql\<close>, a server error with its SQLSTATE,
  any other error of the driver, \<^verbatim>\<open>ctx.Err()\<close>, a fresh error text, and errors that wrap one
  (\<^verbatim>\<open>fmt.Errorf\<close> with \<^verbatim>\<open>%w\<close>) or several (\<^verbatim>\<open>errors.Join\<close>).
\<close>

datatype goerr =
    ErrNotFound
  | ErrConflict
  | ErrInvalidTransition
  | ErrNoRows
  | PgError string
  | DriverError string
  | CtxError string
  | ErrText string
  | Wrapped string goerr
  | Joined "goerr list"

fun errors_Is :: "goerr \<Rightarrow> goerr \<Rightarrow> bool" where
  "errors_Is (Wrapped s e) target = (Wrapped s e = target \<or> errors_Is e target)"
| "errors_Is (Joined es) target = (Joined es = target \<or> list_ex (\<lambda>e. errors_Is e target) es)"
| "errors_Is e target = (e = target)"

fun first_Some :: "'a option list \<Rightarrow> 'a option" where
  "first_Some [] = None"
| "first_Some (None # xs) = first_Some xs"
| "first_Some (Some x # xs) = Some x"

text \<open>\<^verbatim>\<open>errors.As\<close> for \<^verbatim>\<open>*pgconn.PgError\<close>: the SQLSTATE of the first server error in the chain.\<close>

fun as_PgError :: "goerr \<Rightarrow> string option" where
  "as_PgError (PgError c) = Some c"
| "as_PgError (Wrapped s e) = as_PgError e"
| "as_PgError (Joined es) = first_Some (map as_PgError es)"
| "as_PgError e = None"

definition unique_violation :: string where "unique_violation = ''23505''"
definition foreign_key_violation :: string where "foreign_key_violation = ''23503''"

lemma code_neq [simp]:
  "unique_violation \<noteq> ''40001''" "foreign_key_violation \<noteq> ''40001''"
  "foreign_key_violation \<noteq> unique_violation"
  by (simp_all add: unique_violation_def foreign_key_violation_def)

section \<open>Tables and statements\<close>

text \<open>
  A table of the database: how to read and replace its rows, its primary key, and its unique index
  (the key of a row in it, \<open>None\<close> for a row the index does not hold).
\<close>

record ('db, 'r) table_ref =
  t_rows :: "'db \<Rightarrow> 'r list"
  t_put :: "'r list \<Rightarrow> 'db \<Rightarrow> 'db"
  t_key :: "'r \<Rightarrow> string"
  t_uniq :: "'r \<Rightarrow> string option"

type_synonym ('db, 'a) stmt = "'db \<Rightarrow> (goerr + 'a) \<times> 'db"

definition uniq_keys :: "('r \<Rightarrow> string option) \<Rightarrow> 'r list \<Rightarrow> string list" where
  "uniq_keys u t = List.map_filter u t"

definition may_insert :: "('db, 'r) table_ref \<Rightarrow> 'r \<Rightarrow> 'db \<Rightarrow> bool" where
  "may_insert T r db \<longleftrightarrow> t_key T r \<notin> set (map (t_key T) (t_rows T db)) \<and>
     (case t_uniq T r of None \<Rightarrow> True | Some k \<Rightarrow> k \<notin> set (uniq_keys (t_uniq T) (t_rows T db)))"

definition sql_select :: "('db, 'r) table_ref \<Rightarrow> ('r \<Rightarrow> bool) \<Rightarrow> ('db, 'r list) stmt" where
  "sql_select T P db = (Inr (filter P (t_rows T db)), db)"

definition sql_insert :: "('db, 'r) table_ref \<Rightarrow> 'r \<Rightarrow> ('db, unit) stmt" where
  "sql_insert T r db =
     (if may_insert T r db then (Inr (), t_put T (t_rows T db @ [r]) db)
      else (Inl (PgError unique_violation), db))"

text \<open>\<^verbatim>\<open>INSERT ... ON CONFLICT (id) DO UPDATE SET ...\<close>: \<open>f\<close> is the SET clause applied to the old row.\<close>

definition sql_upsert :: "('db, 'r) table_ref \<Rightarrow> 'r \<Rightarrow> ('r \<Rightarrow> 'r) \<Rightarrow> ('db, unit) stmt" where
  "sql_upsert T r f db =
     (if t_key T r \<in> set (map (t_key T) (t_rows T db))
      then (Inr (), t_put T (map (\<lambda>x. if t_key T x = t_key T r then f x else x) (t_rows T db)) db)
      else sql_insert T r db)"

text \<open>UPDATE and DELETE return the number of rows they affected.\<close>

definition sql_update :: "('db, 'r) table_ref \<Rightarrow> ('r \<Rightarrow> bool) \<Rightarrow> ('r \<Rightarrow> 'r) \<Rightarrow> ('db, nat) stmt" where
  "sql_update T P f db =
     (Inr (length (filter P (t_rows T db))),
      t_put T (map (\<lambda>r. if P r then f r else r) (t_rows T db)) db)"

definition sql_delete :: "('db, 'r) table_ref \<Rightarrow> ('r \<Rightarrow> bool) \<Rightarrow> ('db, nat) stmt" where
  "sql_delete T P db =
     (Inr (length (filter P (t_rows T db))), t_put T (filter (\<lambda>r. \<not> P r) (t_rows T db)) db)"

text \<open>An upsert is an update of the row that is there, or else an insert.\<close>

lemma snd_upsert:
  "snd (sql_upsert T r f db) = (if t_key T r \<in> t_key T ` set (t_rows T db)
     then snd (sql_update T (\<lambda>x. t_key T x = t_key T r) f db) else snd (sql_insert T r db))"
  by (simp add: sql_upsert_def sql_update_def)

lemma fst_upsert: "t_uniq T r = None \<Longrightarrow> fst (sql_upsert T r f db) = Inr ()"
  by (simp add: sql_upsert_def sql_insert_def may_insert_def)

text \<open>ORDER BY on a text or integer key; rows with equal keys stay in table order.\<close>

definition order_asc :: "('r \<Rightarrow> 'k::linorder) \<Rightarrow> 'r list \<Rightarrow> 'r list" where
  "order_asc k xs = sort_key k xs"

definition order_desc :: "('r \<Rightarrow> 'k::linorder) \<Rightarrow> 'r list \<Rightarrow> 'r list" where
  "order_desc k xs = rev (sort_key k (rev xs))"

text \<open>The LIMIT and OFFSET the list queries append: a default limit, and no OFFSET unless positive.\<close>

definition paginate :: "nat \<Rightarrow> int \<Rightarrow> int \<Rightarrow> 'r list \<Rightarrow> 'r list" where
  "paginate dflt lmt off xs =
     take (if lmt > 0 then nat lmt else dflt) (drop (if off > 0 then nat off else 0) xs)"

lemma set_order [simp]: "set (order_asc k xs) = set xs" "set (order_desc k xs) = set xs"
  "length (order_asc k xs) = length xs" "length (order_desc k xs) = length xs"
  by (simp_all add: order_asc_def order_desc_def)

lemma paginate_set: "set (paginate n l off xs) \<subseteq> set xs"
  by (auto simp: paginate_def dest: in_set_takeD in_set_dropD)

lemma length_paginate: "length (paginate n l off xs) \<le> (if l > 0 then nat l else n)"
  by (simp add: paginate_def)

lemma paginate_all:
  "off \<le> 0 \<Longrightarrow> length xs \<le> (if l > 0 then nat l else n) \<Longrightarrow> paginate n l off xs = xs"
  by (simp add: paginate_def)

lemma sorted_paginate_asc: "sorted (map k (paginate n l off (order_asc k xs)))"
  by (simp add: paginate_def order_asc_def take_map [symmetric] drop_map [symmetric] sorted_wrt_take sorted_wrt_drop)

lemma sorted_paginate_desc: "sorted (rev (map k (paginate n l off (order_desc k xs))))"
proof -
  have "sorted_wrt (\<lambda>a b. b \<le> a) (map k (order_desc k xs))"
    by (simp add: order_desc_def sorted_wrt_rev rev_map [symmetric])
  then show ?thesis
    by (simp add: paginate_def sorted_wrt_rev take_map [symmetric] drop_map [symmetric] sorted_wrt_take sorted_wrt_drop)
qed

text \<open>What a list query returns: rows that pass its filter, in its order, no more than its limit.\<close>

definition listing :: "('r \<Rightarrow> bool) \<Rightarrow> nat \<Rightarrow> int \<Rightarrow> 'r list \<Rightarrow> 'r list \<Rightarrow> bool" where
  "listing P n off xs rows \<longleftrightarrow> set rows \<subseteq> {x \<in> set xs. P x} \<and> length rows \<le> n \<and>
     (off \<le> 0 \<and> length xs \<le> n \<longrightarrow> set rows = {x \<in> set xs. P x})"

lemma listing_paginate:
  assumes "set ys = {x \<in> set xs. P x}" "length ys \<le> length xs"
  shows "listing P (if l > 0 then nat l else n) off xs (paginate n l off ys)"
proof -
  have "paginate n l off ys = ys" if "off \<le> 0" "length xs \<le> (if l > 0 then nat l else n)"
    using that assms(2) by (intro paginate_all) simp_all
  then show ?thesis
    using assms(1) paginate_set [of n l off ys] length_paginate [of n l off ys]
    unfolding listing_def by (auto simp only:)
qed

lemma listing_order:
  "listing P (if l > 0 then nat l else n) off xs (paginate n l off (order_desc k (filter P xs)))"
  "listing P (if l > 0 then nat l else n) off xs (paginate n l off (order_asc j (filter P xs)))"
  by (rule listing_paginate; simp)+

text \<open>\<^verbatim>\<open>QueryRow\<close>: the first row, or \<^verbatim>\<open>sql.ErrNoRows\<close> from \<^verbatim>\<open>Scan\<close>.\<close>

definition first_row :: "'r list \<Rightarrow> goerr + 'r" where
  "first_row xs = (case xs of [] \<Rightarrow> Inl ErrNoRows | x # _ \<Rightarrow> Inr x)"

section \<open>What a table promises\<close>

text \<open>A table is well-formed when its primary key and its unique index hold no duplicates.\<close>

definition table_ok :: "('db, 'r) table_ref \<Rightarrow> 'db \<Rightarrow> bool" where
  "table_ok T db \<longleftrightarrow> distinct (map (t_key T) (t_rows T db)) \<and>
     distinct (uniq_keys (t_uniq T) (t_rows T db))"

text \<open>The row with a primary key, if there is one.\<close>

definition row_at :: "('db, 'r) table_ref \<Rightarrow> string \<Rightarrow> 'db \<Rightarrow> 'r option" where
  "row_at T k db = List.find (\<lambda>r. t_key T r = k) (t_rows T db)"

locale sql_table =
  fixes T :: "('db, 'r) table_ref"
  assumes rows_put: "t_rows T (t_put T t db) = t"
    and put_put: "t_put T t (t_put T u db) = t_put T t db"
    and put_rows: "t_put T (t_rows T db) db = db"
begin

lemma map_filter_upd:
  assumes "\<And>r. P r \<Longrightarrow> u (f r) = u r \<or> u (f r) = None"
  shows "set (uniq_keys u (map (\<lambda>r. if P r then f r else r) t)) \<subseteq> set (uniq_keys u t)"
    and "distinct (uniq_keys u t) \<Longrightarrow>
      distinct (uniq_keys u (map (\<lambda>r. if P r then f r else r) t))"
proof -
  show sub: "set (uniq_keys u (map (\<lambda>r. if P r then f r else r) s)) \<subseteq> set (uniq_keys u s)" for s
  proof (induction s)
    case (Cons r s)
    then show ?case using assms [of r]
      by (auto simp: uniq_keys_def List.map_filter_simps split: option.splits)
  qed (simp add: uniq_keys_def List.map_filter_simps)
  show "distinct (uniq_keys u t) \<Longrightarrow>
      distinct (uniq_keys u (map (\<lambda>r. if P r then f r else r) t))"
  proof (induction t)
    case (Cons r t)
    then show ?case using assms [of r] sub [of t]
      by (auto simp: uniq_keys_def List.map_filter_simps split: option.splits)
  qed (simp add: uniq_keys_def List.map_filter_simps)
qed

lemma uniq_keys_filter:
  "set (uniq_keys u (filter P t)) \<subseteq> set (uniq_keys u t) \<and>
   (distinct (uniq_keys u t) \<longrightarrow> distinct (uniq_keys u (filter P t)))"
proof (induction t)
  case (Cons r t)
  then show ?case
    by (auto simp: uniq_keys_def List.map_filter_simps split: option.splits)
qed (simp add: uniq_keys_def List.map_filter_simps)

lemma insert_ok: "table_ok T db \<Longrightarrow> table_ok T (snd (sql_insert T r db))"
  by (auto simp: table_ok_def sql_insert_def may_insert_def rows_put uniq_keys_def
      List.map_filter_def split: option.splits)

lemma update_ok:
  assumes "table_ok T db" "\<And>r. P r \<Longrightarrow> t_key T (f r) = t_key T r"
    and "\<And>r. P r \<Longrightarrow> t_uniq T (f r) = t_uniq T r \<or> t_uniq T (f r) = None"
  shows "table_ok T (snd (sql_update T P f db))"
proof -
  have "map (t_key T) (map (\<lambda>r. if P r then f r else r) (t_rows T db)) = map (t_key T) (t_rows T db)"
    using assms(2) by auto
  then show ?thesis
    using assms(1) map_filter_upd(2) [of P "t_uniq T" f "t_rows T db"] assms(3)
    by (simp add: table_ok_def sql_update_def rows_put del: map_map)
qed

lemma delete_ok: "table_ok T db \<Longrightarrow> table_ok T (snd (sql_delete T P db))"
  using uniq_keys_filter [of "t_uniq T" "\<lambda>r. \<not> P r" "t_rows T db"]
  by (simp add: table_ok_def sql_delete_def rows_put distinct_map_filter)

lemma row_at_insert:
  assumes "may_insert T r db"
  shows "row_at T k (snd (sql_insert T r db)) = (if k = t_key T r then Some r else row_at T k db)"
proof -
  have "t_key T r \<notin> t_key T ` set (t_rows T db)"
    using assms by (simp add: may_insert_def)
  then have "\<forall>x \<in> set (t_rows T db). t_key T x \<noteq> t_key T r" by (metis imageI)
  then have "List.find (\<lambda>x. t_key T x = t_key T r) (t_rows T db) = None"
    by (auto simp: find_None_iff)
  moreover have "row_at T k (snd (sql_insert T r db)) =
      (case List.find (\<lambda>x. t_key T x = k) (t_rows T db) of Some y \<Rightarrow> Some y
       | None \<Rightarrow> if t_key T r = k then Some r else None)"
    using assms by (simp add: sql_insert_def row_at_def rows_put find_snoc)
  ultimately show ?thesis by (auto simp: row_at_def split: option.splits)
qed

lemma row_at_update:
  assumes "\<And>r. P r \<Longrightarrow> t_key T (f r) = t_key T r"
  shows "row_at T k (snd (sql_update T P f db)) =
    map_option (\<lambda>r. if P r then f r else r) (row_at T k db)"
proof -
  have "List.find (\<lambda>r. t_key T r = k) (map (\<lambda>r. if P r then f r else r) t) =
      map_option (\<lambda>r. if P r then f r else r) (List.find (\<lambda>r. t_key T r = k) t)" for t
    using assms by (induction t) auto
  then show ?thesis by (simp add: row_at_def sql_update_def rows_put)
qed

lemma row_at_delete_key:
  "row_at T k (snd (sql_delete T (\<lambda>r. t_key T r = j) db)) =
     (if k = j then None else row_at T k db)"
proof -
  have "List.find (\<lambda>r. t_key T r = k) (filter (\<lambda>r. t_key T r \<noteq> j) t) =
      (if k = j then None else List.find (\<lambda>r. t_key T r = k) t)" for t
    by (induction t) auto
  then show ?thesis by (simp add: row_at_def sql_delete_def rows_put)
qed

lemma row_atD: "row_at T k db = Some r \<Longrightarrow> r \<in> set (t_rows T db) \<and> t_key T r = k"
  by (auto simp: row_at_def find_Some_iff)

lemma row_at_None: "row_at T k db = None \<longleftrightarrow> k \<notin> t_key T ` set (t_rows T db)"
  by (auto simp: row_at_def find_None_iff)

lemma row_at_update_key:
  assumes "\<And>r. t_key T (f r) = t_key T r"
  shows "row_at T k (snd (sql_update T (\<lambda>r. t_key T r = j) f db)) =
    (if k = j then map_option f (row_at T k db) else row_at T k db)"
proof -
  have "row_at T k (snd (sql_update T (\<lambda>r. t_key T r = j) f db)) =
      map_option (\<lambda>r. if t_key T r = j then f r else r) (row_at T k db)"
    by (rule row_at_update) (rule assms)
  moreover have "t_key T x = k" if "row_at T k db = Some x" for x using row_atD [OF that] ..
  ultimately show ?thesis by (cases "row_at T k db") auto
qed

lemma row_at_upsert:
  assumes "t_uniq T r = None" "\<And>x. t_key T (f x) = t_key T x"
  shows "row_at T k (snd (sql_upsert T r f db)) = (if k = t_key T r
    then Some (case row_at T k db of None \<Rightarrow> r | Some x \<Rightarrow> f x) else row_at T k db)"
proof (cases "t_key T r \<in> t_key T ` set (t_rows T db)")
  case True
  then have up: "row_at T k (snd (sql_upsert T r f db)) =
      map_option (\<lambda>x. if t_key T x = t_key T r then f x else x) (row_at T k db)"
    using row_at_update [of "\<lambda>x. t_key T x = t_key T r" f k db] assms(2) by (simp add: snd_upsert)
  have here: "row_at T (t_key T r) db \<noteq> None" using True row_at_None by simp
  have key: "t_key T x = k" if "row_at T k db = Some x" for x
    using row_atD [OF that] by simp
  show ?thesis unfolding up using here key by (cases "row_at T k db") auto
next
  case False
  then have "may_insert T r db" using assms(1) by (simp add: may_insert_def)
  then show ?thesis
    using False row_at_insert [of r db k] row_at_None [of "t_key T r" db] by (simp add: snd_upsert)
qed

lemma rows_insert: "may_insert T r db \<Longrightarrow> t_rows T (snd (sql_insert T r db)) = t_rows T db @ [r]"
  by (simp add: sql_insert_def rows_put)

lemma rows_update:
  "t_rows T (snd (sql_update T P f db)) = map (\<lambda>r. if P r then f r else r) (t_rows T db)"
  by (simp add: sql_update_def rows_put)

lemma rows_delete: "t_rows T (snd (sql_delete T P db)) = filter (\<lambda>r. \<not> P r) (t_rows T db)"
  by (simp add: sql_delete_def rows_put)

lemma select_row_at:
  assumes "table_ok T db"
  shows "filter (\<lambda>r. t_key T r = k) (t_rows T db) =
    (case row_at T k db of None \<Rightarrow> [] | Some r \<Rightarrow> [r])"
proof (cases "row_at T k db")
  case None
  then have "filter (\<lambda>r. t_key T r = k) (t_rows T db) = []"
    by (auto simp: row_at_def find_None_iff filter_empty_conv)
  with None show ?thesis by simp
next
  case (Some r)
  then have "t_key T r = k" "r \<in> set (t_rows T db)"
    by (auto simp: row_at_def find_Some_iff)
  then show ?thesis
    using assms Some filter_key_unique [of "t_key T" "t_rows T db" r] by (simp add: table_ok_def)
qed

lemma row_at_mem:
  assumes "table_ok T db" "r \<in> set (t_rows T db)"
  shows "row_at T (t_key T r) db = Some r"
  using select_row_at [OF assms(1), of "t_key T r"] assms filter_key_unique [of "t_key T" "t_rows T db" r]
  by (simp add: table_ok_def split: option.splits)

end

section \<open>Transactions\<close>

text \<open>
  A transaction works on its own copy of the database.  A statement that fails ends it: no further
  statement runs in it, and COMMIT rolls back.  The error that ended it is part of the state, because
  what a later statement answers depends on it.  After an error of the server (an SQLSTATE) the
  session is in the aborted state and answers 25P02; after an error on this side of the connection (a
  cancelled context, which makes \<^verbatim>\<open>database/sql\<close> roll back, or a broken connection) the later
  statement does not reach the server and reports that error again.  Either way the access can fail
  with an error of its own instead (\<open>fault\<close>).
\<close>

record 'db tx =
  tx_db :: 'db
  tx_error :: "goerr option"
  tx_count :: nat

abbreviation tx_aborted :: "'db tx \<Rightarrow> bool" where
  "tx_aborted t \<equiv> tx_error t \<noteq> None"

definition begin_tx :: "'db \<Rightarrow> 'db tx" where
  "begin_tx db = \<lparr>tx_db = db, tx_error = None, tx_count = 0\<rparr>"

definition answer_after :: "goerr \<Rightarrow> goerr" where
  "answer_after e = (if as_PgError e = None then e else PgError ''25P02'')"

type_synonym ('db, 'a) txm = "'db tx \<Rightarrow> (goerr + 'a) \<times> 'db tx"

definition tx_exec :: "(nat \<Rightarrow> goerr option) \<Rightarrow> ('db, 'a) stmt \<Rightarrow> ('db, 'a) txm" where
  "tx_exec fault st t =
     (case tx_error t of
        Some e \<Rightarrow> (Inl (case fault (tx_count t) of Some e' \<Rightarrow> e' | None \<Rightarrow> answer_after e),
                   t\<lparr>tx_count := Suc (tx_count t)\<rparr>)
      | None \<Rightarrow> (case fault (tx_count t) of
            Some e \<Rightarrow> (Inl e, t\<lparr>tx_error := Some e, tx_count := Suc (tx_count t)\<rparr>)
          | None \<Rightarrow> (case st (tx_db t) of
                (Inl e, _) \<Rightarrow> (Inl e, t\<lparr>tx_error := Some e, tx_count := Suc (tx_count t)\<rparr>)
              | (Inr x, db) \<Rightarrow> (Inr x, t\<lparr>tx_db := db, tx_count := Suc (tx_count t)\<rparr>))))"

text \<open>A statement after the failed one fails too, and changes nothing but the number of statements.\<close>

lemma tx_exec_after_error:
  "tx_error t = Some e \<Longrightarrow> fault (tx_count t) = None \<Longrightarrow>
     tx_exec fault st t = (Inl (answer_after e), t\<lparr>tx_count := Suc (tx_count t)\<rparr>)"
  by (simp add: tx_exec_def)

text \<open>Sequencing with Go's \<^verbatim>\<open>if err != nil { return err }\<close>, and the error texts put around an error.\<close>

definition tx_return :: "'a \<Rightarrow> ('db, 'a) txm" where
  "tx_return x t = (Inr x, t)"

definition tx_fail :: "goerr \<Rightarrow> ('db, 'a) txm" where
  "tx_fail e t = (Inl e, t)"

definition tx_then :: "('db, 'a) txm \<Rightarrow> ('a \<Rightarrow> ('db, 'b) txm) \<Rightarrow> ('db, 'b) txm" where
  "tx_then m k t = (case m t of (Inl e, t') \<Rightarrow> (Inl e, t') | (Inr x, t') \<Rightarrow> k x t')"

definition tx_wrap :: "string \<Rightarrow> ('db, 'a) txm \<Rightarrow> ('db, 'a) txm" where
  "tx_wrap s m t = (case m t of (Inl e, t') \<Rightarrow> (Inl (Wrapped s e), t') | (Inr x, t') \<Rightarrow> (Inr x, t'))"

text \<open>A call whose error the code drops: what the caller sees is the result or the default.\<close>

definition tx_try :: "('db, 'a) txm \<Rightarrow> ('db, goerr + 'a) txm" where
  "tx_try m t = (case m t of (r, t') \<Rightarrow> (Inr r, t'))"

text \<open>\<^verbatim>\<open>QueryRowContext(...).Scan(...)\<close> inside a transaction: no row is an error of Scan, not of the server.\<close>

definition tx_row :: "(nat \<Rightarrow> goerr option) \<Rightarrow> ('db, 'r list) stmt \<Rightarrow> ('db, 'r) txm" where
  "tx_row fault st t = (case tx_exec fault st t of
       (Inl e, t') \<Rightarrow> (Inl e, t')
     | (Inr xs, t') \<Rightarrow> (first_row xs, t'))"

end
