(* ===== verification/Retry.thy ===== *)
theory Retry
  imports Sql
begin

text \<open>
  \<^verbatim>\<open>internal/store/retry.go\<close>: running a closure in a transaction and retrying it on serialization
  failures.  The closure's captured variables live outside the transaction: what it assigned before
  a COMMIT that failed is still there when it runs again, although the database was rolled back.
  They are the value \<open>c\<close> threaded through the attempts.
\<close>

section \<open>The environment of an attempt\<close>

text \<open>
  What the code cannot choose about an attempt: what other sessions committed before it began, the
  fate of BEGIN, of each statement and of COMMIT, the readings of the clock and the identifiers
  drawn inside the closure, and whether the context is cancelled while it waits to retry.  COMMIT
  may report an error and have taken effect (a lost connection).
\<close>

datatype commit_fate = Committed | NotCommitted goerr | MaybeCommitted goerr

record 'db attempt =
  at_others :: "'db \<Rightarrow> 'db"
  at_begin :: "goerr option"
  at_stmt :: "nat \<Rightarrow> goerr option"
  at_commit :: commit_fate
  at_rolled_back :: goerr
  at_ctx :: "goerr option"
  at_now :: gotime
  at_uuid :: "nat \<Rightarrow> string"

section \<open>The code\<close>

definition maxRetries :: nat where "maxRetries = 5"
definition baseRetryDelay :: duration where "baseRetryDelay = 10000000"
definition maxRetryDelay :: duration where "maxRetryDelay = Second"
definition crdbRetryCode :: string where "crdbRetryCode = ''40001''"

fun isRetryable :: "goerr \<Rightarrow> bool" where
  "isRetryable (PgError c) = (c = crdbRetryCode)"
| "isRetryable (Wrapped s e) = isRetryable e"
| "isRetryable (Joined es) = list_ex isRetryable es"
| "isRetryable e = False"

text \<open>COMMIT of a transaction on \<open>db\<close>: the error it reports, and the database it leaves.\<close>

definition commit_tx :: "'db attempt \<Rightarrow> 'db \<Rightarrow> 'db tx \<Rightarrow> goerr option \<times> 'db" where
  "commit_tx A db t =
     (if tx_aborted t then (Some (at_rolled_back A), db)
      else case at_commit A of
        Committed \<Rightarrow> (None, tx_db t)
      | NotCommitted e \<Rightarrow> (Some e, db)
      | MaybeCommitted e \<Rightarrow> (Some e, tx_db t))"

type_synonym ('db, 'c) tx_fn = "'db attempt \<Rightarrow> 'c \<Rightarrow> ('db, 'c) txm"

function retry_from ::
  "(nat \<Rightarrow> 'db attempt) \<Rightarrow> ('db, 'c) tx_fn \<Rightarrow> nat \<Rightarrow> 'c \<Rightarrow> 'db \<Rightarrow> (goerr + 'c) \<times> 'db" where
  "retry_from env fn k c db =
     (if k \<le> maxRetries then
        (let A = env k; db1 = at_others A db in
         case at_begin A of
           Some e \<Rightarrow> (Inl (Wrapped ''begin tx'' e), db1)
         | None \<Rightarrow>
            (case fn A c (begin_tx db1) of
               (Inl e, t) \<Rightarrow>
                 if isRetryable e \<and> k < maxRetries then
                   (case at_ctx A of
                      Some ce \<Rightarrow> (Inl ce, db1)
                    | None \<Rightarrow> retry_from env fn (Suc k) c db1)
                 else (Inl e, db1)
             | (Inr c', t) \<Rightarrow>
                (case commit_tx A db1 t of
                   (Some e, db2) \<Rightarrow>
                     if isRetryable e \<and> k < maxRetries then
                       (case at_ctx A of
                          Some ce \<Rightarrow> (Inl ce, db2)
                        | None \<Rightarrow> retry_from env fn (Suc k) c' db2)
                     else (Inl (Wrapped ''commit'' e), db2)
                 | (None, db2) \<Rightarrow> (Inr c', db2))))
      else (Inl (ErrText ''transaction failed after 5 retries''), db))"
  by pat_completeness auto
termination
  by (relation "measure (\<lambda>(env, fn, k, c, db). Suc maxRetries - k)") auto

declare retry_from.simps [simp del]

definition RetryTx :: "(nat \<Rightarrow> 'db attempt) \<Rightarrow> ('db, 'c) tx_fn \<Rightarrow> 'c \<Rightarrow> 'db \<Rightarrow> (goerr + 'c) \<times> 'db" where
  "RetryTx env fn c db = retry_from env fn 0 c db"

section \<open>Waiting between attempts\<close>

text \<open>
  \<^verbatim>\<open>backoff\<close>: \<open>rnd\<close> is the rounding of \<^verbatim>\<open>float64\<close> arithmetic and \<open>r\<close> the value of \<^verbatim>\<open>rand.Float64()\<close>; the
  conversion to a duration truncates towards zero, which for a positive number is the floor.
\<close>

definition backoff_delay :: "nat \<Rightarrow> duration" where
  "backoff_delay att =
     (let delay = wrap64 (push_bit att baseRetryDelay) in if delay > maxRetryDelay then maxRetryDelay else delay)"

definition backoff :: "(rat \<Rightarrow> rat) \<Rightarrow> rat \<Rightarrow> nat \<Rightarrow> duration" where
  "backoff rnd r att = \<lfloor>rnd (rnd (of_int (backoff_delay att)) * rnd (1 / 2 + r))\<rfloor>"

lemma backoff_delay_attempt: "att < maxRetries \<Longrightarrow> backoff_delay att = 10000000 * 2 ^ att"
proof -
  assume "att < maxRetries"
  then consider "att = 0" | "att = 1" | "att = 2" | "att = 3" | "att = 4"
    by (auto simp: maxRetries_def eval_nat_numeral less_Suc_eq)
  then show ?thesis
    by cases (simp_all add: backoff_delay_def baseRetryDelay_def maxRetryDelay_def Second_def wrap64_def
        push_bit_eq_mult Let_def)
qed

section \<open>An undisturbed attempt\<close>

definition calm :: "'db attempt \<Rightarrow> bool" where
  "calm A \<longleftrightarrow> at_others A = id \<and> at_begin A = None \<and> at_stmt A = (\<lambda>_. None) \<and> at_commit A = Committed"

lemma calm_simps [simp]:
  "calm A \<Longrightarrow> at_others A db = db" "calm A \<Longrightarrow> at_begin A = None"
  "calm A \<Longrightarrow> at_stmt A n = None" "calm A \<Longrightarrow> at_commit A = Committed"
  by (simp_all add: calm_def)

text \<open>How a body runs: the statements of an undisturbed attempt, and a body that stops.\<close>

lemma tx_exec_calm [tx_simps]:
  "calm A \<Longrightarrow> \<not> tx_aborted t \<Longrightarrow> tx_exec (at_stmt A) st t =
     (case st (tx_db t) of
        (Inl e, _) \<Rightarrow> (Inl e, t\<lparr>tx_error := Some e, tx_count := Suc (tx_count t)\<rparr>)
      | (Inr x, db) \<Rightarrow> (Inr x, t\<lparr>tx_db := db, tx_count := Suc (tx_count t)\<rparr>))"
  by (simp add: tx_exec_def)

lemma begin_tx_simps [simp]:
  "tx_db (begin_tx db) = db" "tx_error (begin_tx db) = None" "tx_count (begin_tx db) = 0"
  by (simp_all add: begin_tx_def)

lemma tx_run [tx_simps]:
  "tx_then m k t = (case m t of (Inl e, t') \<Rightarrow> (Inl e, t') | (Inr x, t') \<Rightarrow> k x t')"
  "tx_return x t = (Inr x, t)"
  "tx_fail e t = (Inl e, t)"
  "tx_wrap s m t = (case m t of (Inl e, t') \<Rightarrow> (Inl (Wrapped s e), t') | (Inr x, t') \<Rightarrow> (Inr x, t'))"
  "tx_try m t = (case m t of (r, t') \<Rightarrow> (Inr r, t'))"
  by (simp_all add: tx_then_def tx_return_def tx_fail_def tx_wrap_def tx_try_def)

text \<open>Reading a successful run backwards, whatever the environment did.\<close>

lemma tx_exec_Inr:
  "tx_exec f st t = (Inr x, t') \<Longrightarrow>
     \<not> tx_aborted t \<and> \<not> tx_aborted t' \<and> st (tx_db t) = (Inr x, tx_db t')"
  by (auto simp: tx_exec_def split: if_splits option.splits prod.splits sum.splits)

lemma tx_Inr:
  "tx_then m k t = (Inr x, t') \<longleftrightarrow> (\<exists>y u. m t = (Inr y, u) \<and> k y u = (Inr x, t'))"
  "tx_wrap s m1 t = (Inr x, t') \<longleftrightarrow> m1 t = (Inr x, t')"
  "tx_return y t = (Inr x, t') \<longleftrightarrow> y = x \<and> t = t'"
  "tx_fail e t \<noteq> (Inr x, t')"
  "tx_try m0 t = (Inr res, t') \<longleftrightarrow> m0 t = (res, t')"
  by (auto simp: tx_then_def tx_wrap_def tx_return_def tx_fail_def tx_try_def
      split: prod.splits sum.splits)

lemma RetryTx_commit:
  assumes "calm (env 0)" "fn (env 0) c (begin_tx db) = (Inr c', t)" "\<not> tx_aborted t"
  shows "RetryTx env fn c db = (Inr c', tx_db t)"
  using assms by (simp add: RetryTx_def retry_from.simps [of env fn 0] commit_tx_def Let_def)

lemma RetryTx_error:
  assumes "calm (env 0)" "fn (env 0) c (begin_tx db) = (Inl e, t)" "\<not> isRetryable e"
  shows "RetryTx env fn c db = (Inl e, db)"
  using assms by (simp add: RetryTx_def retry_from.simps [of env fn 0] Let_def)

text \<open>An attempt whose COMMIT is refused with a serialization failure is followed by the next one.\<close>

lemma retry_from_again:
  assumes "k < maxRetries" "at_begin (env k) = None" "at_ctx (env k) = None"
    and "at_commit (env k) = NotCommitted e" "isRetryable e"
    and "fn (env k) c (begin_tx (at_others (env k) db)) = (Inr c', t)" "\<not> tx_aborted t"
  shows "retry_from env fn k c db = retry_from env fn (Suc k) c' (at_others (env k) db)"
  using assms by (simp add: retry_from.simps [of env fn k] commit_tx_def Let_def)

lemma retry_from_fails:
  assumes "k < maxRetries" "at_begin (env k) = None" "at_ctx (env k) = None"
    and "fn (env k) c (begin_tx (at_others (env k) db)) = (Inl e, t)" "isRetryable e"
  shows "retry_from env fn k c db = retry_from env fn (Suc k) c (at_others (env k) db)"
  using assms by (simp add: retry_from.simps [of env fn k] Let_def)

lemma retry_from_last:
  assumes "k \<le> maxRetries" "at_begin (env k) = None"
  shows "fn (env k) c (begin_tx (at_others (env k) db)) = (Inr c', t) \<Longrightarrow> \<not> tx_aborted t \<Longrightarrow>
      at_commit (env k) = Committed \<Longrightarrow> retry_from env fn k c db = (Inr c', tx_db t)"
    and "fn (env k) c (begin_tx (at_others (env k) db)) = (Inl e, t) \<Longrightarrow> \<not> isRetryable e \<or> k = maxRetries \<Longrightarrow>
      retry_from env fn k c db = (Inl e, at_others (env k) db)"
  using assms by (auto simp: retry_from.simps [of env fn k] commit_tx_def Let_def)

text \<open>The body of the deletes: a statement, and not-found when it affected no row.\<close>

lemma RetryTx_affect:
  fixes n :: nat
  assumes "calm (env 0)" "st db = (Inr n, db2)"
    and fn: "fn (env 0) () = tx_then (tx_wrap s (tx_exec (at_stmt (env 0)) st))
      (\<lambda>n. if n = 0 then tx_fail ErrNotFound else tx_return ())"
  shows "RetryTx env fn () db = (if n = 0 then (Inl ErrNotFound, db) else (Inr (), db2))"
proof (cases "n = 0")
  case True
  then have "\<exists>t. fn (env 0) () (begin_tx db) = (Inl ErrNotFound, t)"
    using assms(1,2) by (simp add: fn tx_simps)
  then show ?thesis using True RetryTx_error [of env fn, OF assms(1)] by fastforce
next
  case False
  then have "fn (env 0) () (begin_tx db) = (Inr (), (begin_tx db)\<lparr>tx_db := db2, tx_count := 1\<rparr>)"
    using assms(1,2) by (simp add: fn tx_simps)
  then show ?thesis using False RetryTx_commit [of env fn, OF assms(1)] by simp
qed

text \<open>The body of the upserts: one statement, which cannot fail for want of a unique index.\<close>

lemma RetryTx_upsert:
  fixes new :: 'r
  assumes A: "calm (env 0)" and fn: "fn (env 0) () = tx_exec (at_stmt (env 0)) (sql_upsert T new f)"
    and "t_uniq T new = None"
  shows "RetryTx env fn () db = (Inr (), snd (sql_upsert T new f db))"
proof -
  obtain d where d: "sql_upsert T new f db = (Inr (), d)"
    using fst_upsert [OF assms(3), of f db] by (cases "sql_upsert T new f db") simp
  then have "fn (env 0) () (begin_tx db) = (Inr (), (begin_tx db)\<lparr>tx_db := d, tx_count := 1\<rparr>)"
    using A by (simp add: fn tx_exec_calm)
  then show ?thesis using d RetryTx_commit [of env fn, OF A] by simp
qed

section \<open>Which errors are retried\<close>

text \<open>The leaves of an error chain: what \<^verbatim>\<open>Unwrap\<close> leads to.\<close>

fun err_leaves :: "goerr \<Rightarrow> goerr list" where
  "err_leaves (Wrapped s e) = err_leaves e"
| "err_leaves (Joined es) = concat (map err_leaves es)"
| "err_leaves e = [e]"

lemma isRetryable_leaves: "isRetryable e \<longleftrightarrow> PgError crdbRetryCode \<in> set (err_leaves e)"
  by (induction e rule: isRetryable.induct) (auto simp: list_ex_iff)

text \<open>
  What a statement answers in a transaction that has failed is not retried: 25P02 is not the code of
  a serialization failure, and an error that is no server error has no code.
\<close>

lemma first_Some_None: "first_Some xs = None \<longleftrightarrow> (\<forall>x \<in> set xs. x = None)"
proof (induction xs)
  case (Cons x xs)
  then show ?case by (cases x) auto
qed simp

lemma isRetryable_code: "isRetryable e \<Longrightarrow> as_PgError e \<noteq> None"
proof (induction e rule: isRetryable.induct)
  case (3 es)
  then obtain x where "x \<in> set es" "as_PgError x \<noteq> None" by (auto simp: list_ex_iff simp del: not_None_eq)
  then show ?case by (auto simp: first_Some_None simp del: not_None_eq)
qed simp_all

lemma answer_after_not_retried [simp]: "\<not> isRetryable (answer_after e)"
  using isRetryable_code [of e] by (auto simp: answer_after_def crdbRetryCode_def)

section \<open>Reasoning about the loop\<close>

text \<open>
  The rule for the loop.  \<open>I c db\<close> is kept between attempts: by what others commit, by a body whose
  work is rolled back (its captured variables are not), and by one that took effect although COMMIT
  reported an error.  \<open>Q\<close> is what one committed run of the body establishes.
\<close>

lemma retry_from_rule:
  assumes others: "\<And>k c db. I c db \<Longrightarrow> I c (at_others (env k) db)"
    and lost: "\<And>k c db c' t. I c db \<Longrightarrow> fn (env k) c (begin_tx db) = (Inr c', t) \<Longrightarrow>
      tx_aborted t \<or> (\<exists>e. at_commit (env k) = NotCommitted e) \<Longrightarrow> I c' db"
    and unclear: "\<And>k c db c' t e. I c db \<Longrightarrow> fn (env k) c (begin_tx db) = (Inr c', t) \<Longrightarrow>
      \<not> tx_aborted t \<Longrightarrow> at_commit (env k) = MaybeCommitted e \<Longrightarrow> I c' (tx_db t)"
    and good: "\<And>k c db c' t. k \<le> maxRetries \<Longrightarrow> I c db \<Longrightarrow>
      fn (env k) c (begin_tx db) = (Inr c', t) \<Longrightarrow> \<not> tx_aborted t \<Longrightarrow> Q c' (tx_db t)"
    and start: "I c db" and run: "retry_from env fn k c db = (r, db')"
  shows "case r of Inl e \<Rightarrow> \<exists>c. I c db' | Inr c' \<Rightarrow> Q c' db'"
  using start run
proof (induction "Suc maxRetries - k" arbitrary: k c db)
  case 0
  then show ?case by (auto simp: retry_from.simps [of env fn k])
next
  case (Suc n)
  define A db1 where "A = env k" and "db1 = at_others A db"
  have k: "k \<le> maxRetries" using Suc.hyps(2) by simp
  have I1: "I c db1" using others Suc.prems(1) by (simp add: A_def db1_def)
  have again: "case r of Inl e \<Rightarrow> \<exists>c. I c db' | Inr c' \<Rightarrow> Q c' db'"
    if "I c2 db2" "retry_from env fn (Suc k) c2 db2 = (r, db')" for c2 db2
    using Suc.hyps(1) [of "Suc k"] Suc.hyps(2) that by simp
  note eq = Suc.prems(2) [unfolded retry_from.simps [of env fn k], folded A_def, unfolded Let_def,
      folded db1_def]
  show ?case
  proof (cases "at_begin A")
    case (Some e)
    then show ?thesis using eq k I1 by auto
  next
    case None
    show ?thesis
    proof (cases "fn A c (begin_tx db1)")
      case (Pair res t)
      show ?thesis
      proof (cases res)
        case (Inl e)
        then show ?thesis
          using eq k I1 None Pair again [of c db1] by (auto split: if_splits option.splits)
      next
        case (Inr c')
        have body: "fn A c (begin_tx db1) = (Inr c', t)" using Pair Inr by simp
        obtain er db2 where ct: "commit_tx A db1 t = (er, db2)" by (cases "commit_tx A db1 t")
        show ?thesis
        proof (cases er)
          case None': None
          then have "r = Inr c'" "db' = db2" using eq k None body ct by auto
          moreover have "Q c' db2"
            using ct None' good [OF k I1] body
            by (auto simp: commit_tx_def A_def split: if_splits commit_fate.splits)
          ultimately show ?thesis by simp
        next
          case (Some e)
          have "I c' db2"
            using ct Some lost [OF I1] unclear [OF I1] body
            by (auto simp: commit_tx_def A_def split: if_splits commit_fate.splits)
          then show ?thesis
            using eq k None body ct Some again [of c' db2] by (auto split: if_splits option.splits)
        qed
      qed
    qed
  qed
qed

lemmas RetryTx_rule = retry_from_rule [where k = 0, folded RetryTx_def]

section \<open>Atomicity\<close>

text \<open>Databases other sessions can have led to, starting from the one the call found.\<close>

inductive others_reach :: "(nat \<Rightarrow> 'db attempt) \<Rightarrow> 'db \<Rightarrow> 'db \<Rightarrow> bool" for env db where
  or_refl: "others_reach env db db"
| or_step: "others_reach env db db1 \<Longrightarrow> others_reach env db (at_others (env k) db1)"

text \<open>No COMMIT is ambiguous.\<close>

definition clear_commits :: "(nat \<Rightarrow> 'db attempt) \<Rightarrow> bool" where
  "clear_commits env \<longleftrightarrow> (\<forall>k e. at_commit (env k) \<noteq> MaybeCommitted e)"

lemma RetryTx_atomic:
  assumes "clear_commits env" and run: "RetryTx env fn c db = (r, db')"
  shows "case r of
      Inl e \<Rightarrow> others_reach env db db'
    | Inr c' \<Rightarrow> (\<exists>k c0 db1 t. k \<le> maxRetries \<and> others_reach env db db1 \<and>
        fn (env k) c0 (begin_tx db1) = (Inr c', t) \<and> \<not> tx_aborted t \<and> db' = tx_db t)"
proof -
  have "case r of Inl e \<Rightarrow> \<exists>c::'b. others_reach env db db'
    | Inr c' \<Rightarrow> (\<exists>k c0 db1 t. k \<le> maxRetries \<and> others_reach env db db1 \<and>
        fn (env k) c0 (begin_tx db1) = (Inr c', t) \<and> \<not> tx_aborted t \<and> db' = tx_db t)"
    by (rule RetryTx_rule [where I = "\<lambda>c d. others_reach env db d" and fn = fn and env = env
          and Q = "\<lambda>c' d. \<exists>k c0 db1 t. k \<le> maxRetries \<and> others_reach env db db1 \<and>
            fn (env k) c0 (begin_tx db1) = (Inr c', t) \<and> \<not> tx_aborted t \<and> d = tx_db t", OF _ _ _ _ _ run])
      (use assms(1) in \<open>auto simp: clear_commits_def intro: others_reach.intros\<close>)
  then show ?thesis by (simp split: sum.splits)
qed

text \<open>Six attempts are all there are: later ones are never looked at.\<close>

lemma retry_from_bound:
  "(\<And>j. k \<le> j \<Longrightarrow> j \<le> maxRetries \<Longrightarrow> env j = env' j) \<Longrightarrow>
   retry_from env fn k c db = retry_from env' fn k c db"
proof (induction "Suc maxRetries - k" arbitrary: k c db)
  case 0
  then show ?case by (simp add: retry_from.simps [of _ fn k])
next
  case (Suc n)
  have rest: "retry_from env fn (Suc k) = retry_from env' fn (Suc k)"
    using Suc.hyps(1) [of "Suc k"] Suc.hyps(2) Suc.prems by (intro ext) simp
  have now: "env k = env' k" using Suc.hyps(2) Suc.prems by simp
  show ?case unfolding retry_from.simps [of _ fn k] rest now ..
qed

section \<open>The contract of a transaction body\<close>

text \<open>What is asked of the attempts of one call, whose clocks may matter, and what the call then keeps.\<close>

definition attempts_keep :: "(nat \<Rightarrow> 'db attempt) \<Rightarrow> ('db, 'c) tx_fn \<Rightarrow> ('db \<Rightarrow> bool) \<Rightarrow> bool" where
  "attempts_keep env fn I \<longleftrightarrow> (\<forall>k db c c' t. I db \<longrightarrow> fn (env k) c (begin_tx db) = (Inr c', t) \<longrightarrow>
     \<not> tx_aborted t \<longrightarrow> I (tx_db t))"

lemma RetryTx_keeps:
  fixes fn :: "('db, 'c) tx_fn"
  assumes "attempts_keep env fn I" "\<And>k db. I db \<Longrightarrow> I (at_others (env k) db)" "I db"
  shows "I (snd (RetryTx env fn c db))"
proof -
  obtain r db' where run: "RetryTx env fn c db = (r, db')" by (cases "RetryTx env fn c db")
  have "case r of Inl e \<Rightarrow> \<exists>c::'c. I db' | Inr c' \<Rightarrow> I db'"
    by (rule RetryTx_rule [where I = "\<lambda>c d. I d" and Q = "\<lambda>c d. I d", OF _ _ _ _ _ run])
      (use assms in \<open>unfold attempts_keep_def, blast+\<close>)
  then show ?thesis using run by (auto split: sum.splits)
qed

text \<open>
  What an operation promises about its closure: a run that does not abort keeps the database
  invariant.  Then the whole call does, whatever fails and however often it is retried.
\<close>

locale tx_body =
  fixes fn :: "('db, 'c) tx_fn" and inv :: "'db \<Rightarrow> bool"
  assumes body_inv: "inv db \<Longrightarrow> fn A c (begin_tx db) = (Inr c', t) \<Longrightarrow> \<not> tx_aborted t \<Longrightarrow> inv (tx_db t)"
begin

lemma attempts: "attempts_keep env fn inv"
  by (auto simp: attempts_keep_def intro: body_inv)

lemmas RetryTx_inv = RetryTx_keeps [OF attempts]

end

lemmas tx_body_attempts [simp] = tx_body.attempts

section \<open>Bodies that keep an invariant\<close>

text \<open>
  A transaction in progress satisfies \<open>I\<close> when it is aborted (nothing of it will be committed) or its
  working copy does.  A body preserves \<open>I\<close> when every step does, so the proofs follow its syntax.
\<close>

definition tx_sat :: "('db \<Rightarrow> bool) \<Rightarrow> 'db tx \<Rightarrow> bool" where
  "tx_sat I t \<longleftrightarrow> tx_aborted t \<or> I (tx_db t)"

definition preserves :: "('db \<Rightarrow> bool) \<Rightarrow> ('db, 'a) txm \<Rightarrow> bool" where
  "preserves I m \<longleftrightarrow> (\<forall>t. tx_sat I t \<longrightarrow> tx_sat I (snd (m t)))"

lemma preservesD: "preserves I m \<Longrightarrow> tx_sat I t \<Longrightarrow> m t = (r, t') \<Longrightarrow> tx_sat I t'"
  by (fastforce simp: preserves_def)

lemma preserves_exec [tx_pres]:
  "(\<And>db. I db \<Longrightarrow> I (snd (st db))) \<Longrightarrow> preserves I (tx_exec f st)"
  by (force simp: preserves_def tx_sat_def tx_exec_def split: option.splits prod.splits sum.splits)

lemma preserves_row [tx_pres]:
  "(\<And>db. I db \<Longrightarrow> I (snd (st db))) \<Longrightarrow> preserves I (tx_row f st)"
  using preserves_exec [of I st f]
  by (auto simp: preserves_def tx_row_def split: prod.splits sum.splits)

lemma preserves_then [tx_pres]:
  "preserves I m \<Longrightarrow> (\<And>x. preserves I (k x)) \<Longrightarrow> preserves I (tx_then m k)"
  unfolding preserves_def tx_then_def
  by (auto split: prod.splits sum.splits)

lemma preserves_simple [tx_pres]:
  "preserves I (tx_return x)" "preserves I (tx_fail e)"
  "preserves I m \<Longrightarrow> preserves I (tx_wrap s m)" "preserves I m \<Longrightarrow> preserves I (tx_try m)"
  unfolding preserves_def tx_return_def tx_fail_def tx_wrap_def tx_try_def
  by (auto split: prod.splits sum.splits)

lemma preserves_cases [tx_pres]:
  "(b \<Longrightarrow> preserves I m) \<Longrightarrow> (\<not> b \<Longrightarrow> preserves I n) \<Longrightarrow> preserves I (if b then m else n)"
  "preserves I m \<Longrightarrow> (\<And>x. preserves I (k x)) \<Longrightarrow> preserves I (case y of None \<Rightarrow> m | Some x \<Rightarrow> k x)"
  "(\<And>e. preserves I (h e)) \<Longrightarrow> (\<And>x. preserves I (k x)) \<Longrightarrow>
   preserves I (case z of Inl e \<Rightarrow> h e | Inr x \<Rightarrow> k x)"
  by (auto split: option.splits sum.splits)

lemma preserves_body:
  assumes "preserves I (fn A c)" "I db" "fn A c (begin_tx db) = (Inr c', t)" "\<not> tx_aborted t"
  shows "I (tx_db t)"
  using preservesD [OF assms(1) _ assms(3)] assms(2,4) by (simp add: tx_sat_def)

lemma tx_bodyI: "(\<And>A c. preserves I (fn A c)) \<Longrightarrow> tx_body fn I"
  by unfold_locales (rule preserves_body)

lemma attempts_keepI: "(\<And>k c. preserves I (fn (env k) c)) \<Longrightarrow> attempts_keep env fn I"
  unfolding attempts_keep_def by (intro allI impI) (rule preserves_body)

text \<open>
  Where the invariant is broken between two statements, what holds there is named: from \<open>P\<close> the body leads to
  \<open>Q\<close> of its result, and to \<open>I\<close> when it fails.
\<close>

definition leads :: "('db \<Rightarrow> bool) \<Rightarrow> ('db, 'a) txm \<Rightarrow> ('a \<Rightarrow> 'db \<Rightarrow> bool) \<Rightarrow> ('db \<Rightarrow> bool) \<Rightarrow> bool" where
  "leads P m Q I \<longleftrightarrow> (\<forall>t. tx_sat P t \<longrightarrow> (case m t of (Inl e, t') \<Rightarrow> tx_sat I t' | (Inr x, t') \<Rightarrow> tx_sat (Q x) t'))"

lemma preserves_leads: "preserves I m \<longleftrightarrow> leads I m (\<lambda>_. I) I"
  by (auto simp: leads_def preserves_def split: prod.splits sum.splits) (metis surj_pair snd_conv obj_sumE)

lemma leads_exec:
  assumes "\<And>d x d'. P d \<Longrightarrow> st d = (Inr x, d') \<Longrightarrow> Q x d'"
  shows "leads P (tx_exec f st) Q I"
  using assms by (fastforce simp: leads_def tx_exec_def tx_sat_def split: prod.splits sum.splits option.splits)

lemma leads_row:
  assumes "\<And>d rs d'. P d \<Longrightarrow> st d = (Inr rs, d') \<Longrightarrow> case first_row rs of Inl e \<Rightarrow> I d' | Inr x \<Rightarrow> Q x d'"
  shows "leads P (tx_row f st) Q I"
proof -
  have "leads P (tx_exec f st) (\<lambda>rs d. case first_row rs of Inl e \<Rightarrow> I d | Inr x \<Rightarrow> Q x d) I"
    by (rule leads_exec) (rule assms)
  then show ?thesis
    by (fastforce simp: leads_def tx_row_def tx_sat_def split: prod.splits sum.splits)
qed

lemma leads_then:
  "leads P m Q I \<Longrightarrow> (\<And>x. leads (Q x) (k x) R I) \<Longrightarrow> leads P (tx_then m k) R I"
  unfolding leads_def tx_then_def by (fastforce split: prod.splits sum.splits)

lemma leads_simple:
  "(\<And>d. P d \<Longrightarrow> Q x d) \<Longrightarrow> leads P (tx_return x) Q I" "(\<And>d. P d \<Longrightarrow> I d) \<Longrightarrow> leads P (tx_fail e) Q I"
  "leads P m Q I \<Longrightarrow> leads P (tx_wrap s m) Q I"
  "leads P m (\<lambda>x. R (Inr x)) J \<Longrightarrow> (\<And>e d. J d \<Longrightarrow> R (Inl e) d) \<Longrightarrow> leads P (tx_try m) R I"
proof -
  show "leads P (tx_try m) R I" if m: "leads P m (\<lambda>x. R (Inr x)) J" and e: "\<And>e d. J d \<Longrightarrow> R (Inl e) d"
  proof -
    have "tx_sat (R (fst (m t))) (snd (m t))" if "tx_sat P t" for t
      using m [unfolded leads_def, rule_format, OF that] e by (cases "m t"; cases "fst (m t)") (auto simp: tx_sat_def)
    then show ?thesis by (simp add: leads_def tx_try_def case_prod_unfold)
  qed
  show "leads P m Q I \<Longrightarrow> leads P (tx_wrap s m) Q I"
    by (fastforce simp: leads_def tx_wrap_def split: prod.splits sum.splits)
qed (auto simp: leads_def tx_return_def tx_fail_def tx_sat_def)

lemma leads_pre: "leads P m Q I \<Longrightarrow> (\<And>d. P' d \<Longrightarrow> P d) \<Longrightarrow> leads P' m Q I"
  by (auto simp: leads_def tx_sat_def)

section \<open>What the loop promises\<close>

text \<open>
  An attempt that fails with a serialization failure while the context is alive: \<open>c\<close> and \<open>c'\<close> are the
  captured variables before and after it.  Either the closure fails, or it succeeds and COMMIT is
  refused, the database unchanged.
\<close>

definition attempt_lost :: "'db attempt \<Rightarrow> ('db, 'c) tx_fn \<Rightarrow> 'db \<Rightarrow> 'c \<Rightarrow> goerr \<Rightarrow> 'c \<Rightarrow> bool" where
  "attempt_lost A fn db c e c' \<longleftrightarrow> at_begin A = None \<and> at_ctx A = None \<and> isRetryable e \<and>
     (\<exists>t. fn A c (begin_tx db) = (Inl e, t) \<and> c' = c \<or>
          fn A c (begin_tx db) = (Inr c', t) \<and> commit_tx A db t = (Some e, db))"

text \<open>The database attempt \<open>k\<close> begins on: what other sessions have made of the one the call found.\<close>

fun db_at_attempt :: "(nat \<Rightarrow> 'db attempt) \<Rightarrow> 'db \<Rightarrow> nat \<Rightarrow> 'db" where
  "db_at_attempt env db 0 = at_others (env 0) db"
| "db_at_attempt env db (Suc k) = at_others (env (Suc k)) (db_at_attempt env db k)"

lemma retry_from_lost:
  assumes "k < maxRetries" "attempt_lost (env k) fn (at_others (env k) db) c e c'"
  shows "retry_from env fn k c db = retry_from env fn (Suc k) c' (at_others (env k) db)"
  using assms by (auto simp: attempt_lost_def retry_from.simps [of env fn k] Let_def)

text \<open>The attempts before number \<open>k\<close> being lost, the loop is where attempt \<open>k\<close> begins.\<close>

lemma RetryTx_at_attempt:
  assumes "\<And>j. j < k \<Longrightarrow> attempt_lost (env j) fn (db_at_attempt env db j) (cs j) (err j) (cs (Suc j))" "k \<le> maxRetries"
  shows "\<exists>d. RetryTx env fn (cs 0) db = retry_from env fn k (cs k) d \<and> at_others (env k) d = db_at_attempt env db k"
  using assms
proof (induction k)
  case (Suc k)
  then obtain d where d: "RetryTx env fn (cs 0) db = retry_from env fn k (cs k) d" "at_others (env k) d = db_at_attempt env db k"
    by force
  then show ?case
    using retry_from_lost [of k env fn d "cs k" "err k" "cs (Suc k)"] Suc.prems by auto
qed (auto simp: RetryTx_def)

text \<open>
  C24. Liveness: \<open>RetryTx\<close> makes up to six attempts.  When the attempts before number \<open>k\<close>, counted
  from 0 and at most 5, fail with serialization failures in the closure or at a COMMIT that has no
  effect, while the context is alive, attempt \<open>k\<close> takes place, on what other sessions have made of the
  database since, and decides the outcome if it succeeds, fails otherwise, or is the sixth.  If it
  commits, its result is returned and its work is in the database; if its BEGIN or the closure fails or
  its COMMIT is refused, with another error or in the sixth attempt with any, that error comes back and
  nothing of any attempt is left in the database; if only the answer of its COMMIT is lost, the error
  comes back although its work is in the database.
\<close>

theorem RetryTx_perseveres:
  assumes "k \<le> 5"
    and "\<And>j. j < k \<Longrightarrow> attempt_lost (env j) fn (db_at_attempt env db j) (cs j) (err j) (cs (Suc j))"
  shows "(at_begin (env k) = Some e \<longrightarrow>
        RetryTx env fn (cs 0) db = (Inl (Wrapped ''begin tx'' e), db_at_attempt env db k)) \<and>
      (at_begin (env k) = None \<and> fn (env k) (cs k) (begin_tx (db_at_attempt env db k)) = (Inl e, t) \<and>
          (\<not> isRetryable e \<or> k = 5) \<longrightarrow>
        RetryTx env fn (cs 0) db = (Inl e, db_at_attempt env db k)) \<and>
      (at_begin (env k) = None \<and> fn (env k) (cs k) (begin_tx (db_at_attempt env db k)) = (Inr c', t) \<longrightarrow>
        (\<not> tx_aborted t \<and> at_commit (env k) = Committed \<longrightarrow>
          RetryTx env fn (cs 0) db = (Inr c', tx_db t)) \<and>
        ((if tx_aborted t then at_rolled_back (env k) = e else at_commit (env k) = NotCommitted e) \<and>
            (\<not> isRetryable e \<or> k = 5) \<longrightarrow>
          RetryTx env fn (cs 0) db = (Inl (Wrapped ''commit'' e), db_at_attempt env db k)) \<and>
        (\<not> tx_aborted t \<and> at_commit (env k) = MaybeCommitted e \<and> (\<not> isRetryable e \<or> k = 5) \<longrightarrow>
          RetryTx env fn (cs 0) db = (Inl (Wrapped ''commit'' e), tx_db t)))"
proof -
  obtain d where d: "RetryTx env fn (cs 0) db = retry_from env fn k (cs k) d" "at_others (env k) d = db_at_attempt env db k"
    using RetryTx_at_attempt [of k env fn db cs err] assms by (auto simp: maxRetries_def)
  then show ?thesis
    using assms(1) by (auto simp: retry_from.simps [of env fn k] commit_tx_def Let_def maxRetries_def)
qed

text \<open>
  An environment whose first five attempts fail in the closure and whose sixth is undisturbed, and a
  body that writes 7.
\<close>

definition demo_attempts :: "nat \<Rightarrow> nat attempt" where
  "demo_attempts k = \<lparr>at_others = id, at_begin = None,
     at_stmt = (\<lambda>_. if k < 5 then Some (PgError crdbRetryCode) else None), at_commit = Committed,
     at_rolled_back = ErrText [], at_ctx = None, at_now = GoTime 0 0, at_uuid = (\<lambda>_. [])\<rparr>"

definition demo_body :: "(nat, unit) tx_fn" where
  "demo_body A c = tx_exec (at_stmt A) (\<lambda>_. (Inr (), 7))"

theorem RetryTx_perseveres_witness:
  "RetryTx demo_attempts demo_body () 0 = (Inr (), 7)"
proof -
  have same: "db_at_attempt demo_attempts 0 j = 0" for j
    by (induction j) (simp_all add: demo_attempts_def)
  have "attempt_lost (demo_attempts j) demo_body 0 () (PgError crdbRetryCode) ()" if "j < 5" for j
    using that by (simp add: attempt_lost_def demo_attempts_def demo_body_def tx_exec_def begin_tx_def)
  then show ?thesis
    using RetryTx_perseveres [of 5 demo_attempts demo_body 0 "\<lambda>_. ()" "\<lambda>_. PgError crdbRetryCode" "ErrText []"
        "\<lparr>tx_db = 7, tx_error = None, tx_count = 1\<rparr>" "()"] same
    by (simp add: demo_body_def tx_exec_def demo_attempts_def begin_tx_def)
qed

text \<open>
  Where an error of \<open>RetryTx\<close> comes from: a failed BEGIN, the closure, the cancelled context or a
  failed COMMIT of one of the six attempts.  The text after the loop is never produced.
\<close>

theorem RetryTx_error_origin:
  assumes "RetryTx env fn c db = (Inl e, db')"
  shows "\<exists>k \<le> maxRetries.
      (\<exists>b. at_begin (env k) = Some b \<and> e = Wrapped ''begin tx'' b) \<or>
      (\<exists>c d t. fn (env k) c (begin_tx d) = (Inl e, t)) \<or>
      at_ctx (env k) = Some e \<or>
      (\<exists>b. e = Wrapped ''commit'' b \<and> (\<exists>d d2 t. commit_tx (env k) d t = (Some b, d2)))"
proof -
  let ?origin = "\<lambda>k. (\<exists>b. at_begin (env k) = Some b \<and> e = Wrapped ''begin tx'' b) \<or>
      (\<exists>c d t. fn (env k) c (begin_tx d) = (Inl e, t)) \<or> at_ctx (env k) = Some e \<or>
      (\<exists>b. e = Wrapped ''commit'' b \<and> (\<exists>d d2 t. commit_tx (env k) d t = (Some b, d2)))"
  have "\<exists>k \<le> maxRetries. ?origin k" if "k \<le> maxRetries" "retry_from env fn k c db = (Inl e, db')" for k c db
    using that
  proof (induction "Suc maxRetries - k" arbitrary: k c db)
    case (Suc n)
    have again: ?case if "k < maxRetries" "retry_from env fn (Suc k) c2 db2 = (Inl e, db')" for c2 db2
      using Suc.hyps(1) [of "Suc k" c2 db2] Suc.hyps(2) that by simp
    have here: ?case if "?origin k" using that Suc.prems(1) by blast
    obtain res t where body: "fn (env k) c (begin_tx (at_others (env k) db)) = (res, t)" by fastforce
    obtain ce db2 where ct: "commit_tx (env k) (at_others (env k) db) t = (ce, db2)" by fastforce
    note eq = Suc.prems(2) [unfolded retry_from.simps [of env fn k], unfolded Let_def, unfolded body, simplified, unfolded ct]
    show ?case
    proof (cases "at_begin (env k)")
      case (Some b)
      then show ?thesis using eq Suc.prems(1) by (intro here) auto
    next
      case begun: None
      show ?thesis
      proof (cases res)
        case (Inl er)
        then show ?thesis
          using eq Suc.prems(1) begun body by (cases "isRetryable er \<and> k < maxRetries"; cases "at_ctx (env k)") (auto intro: here again)
      next
        case (Inr c')
        then show ?thesis
          using eq Suc.prems(1) begun ct
          by (cases ce; cases "isRetryable (the ce) \<and> k < maxRetries"; cases "at_ctx (env k)") (auto intro: here again)
      qed
    qed
  qed simp
  from this [of 0] show ?thesis using assms by (simp add: RetryTx_def)
qed

theorem RetryTx_error_origin_witness:
  "RetryTx (\<lambda>_. demo_attempts 0) demo_body () 0 = (Inl (PgError crdbRetryCode), 0) \<and>
   (\<exists>k \<le> maxRetries. \<exists>c d t. demo_body (demo_attempts 0) c (begin_tx d) = (Inl (PgError crdbRetryCode), t))"
proof -
  have run: "RetryTx (\<lambda>_. demo_attempts 0) demo_body () 0 = (Inl (PgError crdbRetryCode), 0)" by code_simp
  then show ?thesis
    using RetryTx_error_origin [OF run] by (auto simp: demo_attempts_def)
qed

text \<open>
  The waiting time before the retry after attempt \<open>k\<close>: 10 ms doubled \<open>k\<close> times, varied by at most
  half of it up or down.  Of the rounding only what IEEE 754 prescribes is used: it is monotone and
  leaves representable numbers alone.  The cap of one second is never met.
\<close>

theorem backoff_bounds:
  assumes "att < maxRetries" "0 \<le> r" "r < 1"
    and "\<And>x y. x \<le> y \<Longrightarrow> rnd x \<le> rnd y" "\<And>n :: int. \<bar>n\<bar> \<le> 2 ^ 53 \<Longrightarrow> rnd (of_int n / 2) = of_int n / 2"
  shows "5000000 * 2 ^ att \<le> backoff rnd r att \<and> backoff rnd r att \<le> 15000000 * 2 ^ att \<and>
    backoff_delay att < maxRetryDelay"
proof -
  define d :: int where "d = 10000000 * 2 ^ att"
  have att: "att = 0 \<or> att = 1 \<or> att = 2 \<or> att = 3 \<or> att = 4"
    using assms(1) by (auto simp: maxRetries_def)
  then have d: "0 < d" "d \<le> 160000000" by (auto simp: d_def)
  have exact: "rnd (of_int n) = of_int n" if "0 \<le> n" "n \<le> 1000000000" for n
    using assms(5) [of "2 * n"] that by simp
  have half: "rnd (of_int d * (1 / 2)) = of_int d / 2" "rnd (of_int d * (3 / 2)) = of_int (3 * d) / 2"
    using assms(5) [of d] assms(5) [of "3 * d"] d by (simp_all add: mult.commute)
  define f where "f = rnd (1 / 2 + r)"
  have "rnd (1 / 2) = 1 / 2" "rnd (3 / 2) = 3 / 2" using assms(5) [of 1] assms(5) [of 3] by simp_all
  then have f: "1 / 2 \<le> f" "f \<le> 3 / 2"
    using assms(4) [of "1 / 2" "1 / 2 + r"] assms(4) [of "1 / 2 + r" "3 / 2"] assms(2,3) by (simp_all add: f_def)
  have eq: "backoff rnd r att = \<lfloor>rnd (of_int d * f)\<rfloor>"
    using exact [of d] d by (simp add: backoff_def backoff_delay_attempt [OF assms(1)] d_def f_def)
  have "of_int d * (1 / 2) \<le> of_int d * f" "of_int d * f \<le> of_int d * (3 / 2)"
    using f d by (simp_all add: mult_left_mono)
  then have "of_int d / 2 \<le> rnd (of_int d * f)" "rnd (of_int d * f) \<le> of_int (3 * d) / 2"
    using assms(4) half by metis+
  moreover have "of_int d / 2 = (of_int (5000000 * 2 ^ att) :: rat)"
    "of_int (3 * d) / 2 = (of_int (15000000 * 2 ^ att) :: rat)"
    by (simp_all add: d_def)
  ultimately have "5000000 * 2 ^ att \<le> backoff rnd r att" "backoff rnd r att \<le> 15000000 * 2 ^ att"
    unfolding eq by (simp_all only: le_floor_iff floor_le_iff)
  then show ?thesis
    using d backoff_delay_attempt [OF assms(1)] by (simp add: d_def maxRetryDelay_def Second_def)
qed

theorem backoff_bounds_witness:
  "80000000 \<le> backoff id (1 / 4) 4 \<and> backoff id (1 / 4) 4 \<le> 240000000"
  using backoff_bounds [of 4 "1 / 4" id] by (simp add: maxRetries_def)

end
