(* ===== verification/GoJson.thy ===== *)
theory GoJson
  imports Prelude
begin

text \<open>
  JSON values as the JSONB columns hold them, and what \<^verbatim>\<open>encoding/json\<close> makes of the Go types the
  store puts there: \<^verbatim>\<open>[]string\<close> and \<^verbatim>\<open>map[string]string\<close>.  A nil slice or map marshals to \<^verbatim>\<open>null\<close>;
  \<^verbatim>\<open>null\<close> unmarshals to nil, and a \<^verbatim>\<open>null\<close> element to the empty string.
\<close>

datatype json =
    JNull
  | JBool bool
  | JNum rat
  | JStr string
  | JArr "json list"
  | JObj "(string \<times> json) list"

definition marshal_strs :: "string slice \<Rightarrow> json" where
  "marshal_strs s = (case s of None \<Rightarrow> JNull | Some xs \<Rightarrow> JArr (map JStr xs))"

definition marshal_map :: "gomap \<Rightarrow> json" where
  "marshal_map m = (case m of None \<Rightarrow> JNull | Some kvs \<Rightarrow> JObj (map (\<lambda>(k, v). (k, JStr v)) kvs))"

text \<open>A JSON value into a Go string; \<open>None\<close> is an unmarshalling error.\<close>

fun json_string :: "json \<Rightarrow> string option" where
  "json_string (JStr s) = Some s"
| "json_string JNull = Some []"
| "json_string _ = None"

fun all_some :: "'a option list \<Rightarrow> 'a list option" where
  "all_some [] = Some []"
| "all_some (None # xs) = None"
| "all_some (Some x # xs) = map_option (\<lambda>ys. x # ys) (all_some xs)"

fun unmarshal_strs :: "json \<Rightarrow> string slice option" where
  "unmarshal_strs JNull = Some None"
| "unmarshal_strs (JArr js) = map_option Some (all_some (map json_string js))"
| "unmarshal_strs _ = None"

fun unmarshal_map :: "json \<Rightarrow> gomap option" where
  "unmarshal_map JNull = Some None"
| "unmarshal_map (JObj kvs) =
     map_option (\<lambda>vs. Some (zip (map fst kvs) vs)) (all_some (map (json_string \<circ> snd) kvs))"
| "unmarshal_map _ = None"

lemma all_some_map_Some [simp]: "all_some (map Some xs) = Some xs"
  by (induction xs) auto

lemma unmarshal_marshal_strs [simp]: "unmarshal_strs (marshal_strs s) = Some s"
proof (cases s)
  case (Some xs)
  have "map json_string (map JStr xs) = map Some xs" by simp
  then show ?thesis using Some by (simp add: marshal_strs_def del: map_map)
qed (simp add: marshal_strs_def)

lemma unmarshal_marshal_map [simp]: "unmarshal_map (marshal_map m) = Some m"
proof (cases m)
  case (Some kvs)
  let ?js = "map (\<lambda>(k, v). (k, JStr v)) kvs"
  have "map (json_string \<circ> snd) ?js = map Some (map snd kvs)" "map fst ?js = map fst kvs"
    by auto
  then show ?thesis
    using Some by (simp add: marshal_map_def zip_map_fst_snd del: map_map)
qed (simp add: marshal_map_def)

text \<open>
  A member of a struct: a missing one and a null leave the zero value, another kind of value is an
  error; \<open>rat\<close> numbers into an \<^verbatim>\<open>int\<close>.
\<close>

definition get_str :: "string \<Rightarrow> (string \<times> json) list \<Rightarrow> string option" where
  "get_str k kvs = (case map_of kvs k of None \<Rightarrow> Some [] | Some j \<Rightarrow> json_string j)"

definition get_num :: "string \<Rightarrow> (string \<times> json) list \<Rightarrow> rat option" where
  "get_num k kvs = (case map_of kvs k of None \<Rightarrow> Some 0 | Some JNull \<Rightarrow> Some 0 | Some (JNum q) \<Rightarrow> Some q | Some _ \<Rightarrow> None)"

definition get_int :: "string \<Rightarrow> (string \<times> json) list \<Rightarrow> int option" where
  "get_int k kvs = (case get_num k kvs of None \<Rightarrow> None
     | Some q \<Rightarrow> if of_int \<lfloor>q\<rfloor> = q \<and> - (2 ^ 63) \<le> \<lfloor>q\<rfloor> \<and> \<lfloor>q\<rfloor> < 2 ^ 63 then Some \<lfloor>q\<rfloor> else None)"

definition get_bool :: "string \<Rightarrow> (string \<times> json) list \<Rightarrow> bool option" where
  "get_bool k kvs = (case map_of kvs k of None \<Rightarrow> Some False | Some JNull \<Rightarrow> Some False
     | Some (JBool b) \<Rightarrow> Some b | Some _ \<Rightarrow> None)"

text \<open>A struct from an object with the decoding \<open>f\<close> of its members; null leaves the zero struct.\<close>

fun unmarshal_struct :: "((string \<times> json) list \<Rightarrow> 'a option) \<Rightarrow> json \<Rightarrow> 'a option" where
  "unmarshal_struct f JNull = f []"
| "unmarshal_struct f (JObj kvs) = f kvs"
| "unmarshal_struct f _ = None"

definition get_struct ::
  "((string \<times> json) list \<Rightarrow> 'a option) \<Rightarrow> string \<Rightarrow> (string \<times> json) list \<Rightarrow> 'a option" where
  "get_struct f k kvs = (case map_of kvs k of None \<Rightarrow> f [] | Some j \<Rightarrow> unmarshal_struct f j)"

end
