(* ===== verification/Model.thy ===== *)
theory Model
  imports GoTime GoJson
begin

text \<open>
  \<^verbatim>\<open>internal/model\<close>: the Go types the handlers, the store and the webhook exchange.  The status and
  kind types of the source are strings (\<^verbatim>\<open>type TaskStatus string\<close>) that a client may fill with any
  text, so they stay strings here, with the source's constants.  Fields carry a prefix per type,
  since Go lets several structs share a field name.
\<close>

section \<open>Session context\<close>

record SessionContext =
  SessionKey :: string
  SessionID :: string
  Channel :: string
  SenderID :: string
  SenderIsOwner :: bool
  Sandboxed :: bool

definition no_session :: SessionContext where
  "no_session = \<lparr>SessionKey = [], SessionID = [], Channel = [], SenderID = [],
     SenderIsOwner = False, Sandboxed = False\<rparr>"

text \<open>The request context: the two values the code stores in it, absent until stored.\<close>

record Context =
  ctx_AgentID :: "string option"
  ctx_Session :: "SessionContext option"

definition background :: Context where
  "background = \<lparr>ctx_AgentID = None, ctx_Session = None\<rparr>"

definition ContextWithAgentID :: "Context \<Rightarrow> string \<Rightarrow> Context" where
  "ContextWithAgentID ctx i = ctx\<lparr>ctx_AgentID := Some i\<rparr>"

definition AgentIDFromCtx :: "Context \<Rightarrow> string" where
  "AgentIDFromCtx ctx = (case ctx_AgentID ctx of None \<Rightarrow> [] | Some i \<Rightarrow> i)"

definition ContextWithSession :: "Context \<Rightarrow> SessionContext \<Rightarrow> Context" where
  "ContextWithSession ctx sc = ctx\<lparr>ctx_Session := Some sc\<rparr>"

definition SessionFromCtx :: "Context \<Rightarrow> SessionContext" where
  "SessionFromCtx ctx = (case ctx_Session ctx of None \<Rightarrow> no_session | Some sc \<Rightarrow> sc)"

section \<open>Memory\<close>

record MemoryEntry =
  me_Key :: string
  me_Value :: string
  me_AgentID :: string
  me_Tags :: "string slice"
  me_Version :: int
  me_Session :: SessionContext
  me_CreatedAt :: gotime
  me_UpdatedAt :: gotime

record MemoryFilter =
  mf_Tag :: string
  mf_Agent :: string
  mf_Prefix :: string
  mf_SessionKey :: string
  mf_Limit :: int
  mf_Offset :: int

section \<open>Tasks\<close>

type_synonym TaskStatus = string

definition TaskStatusOpen :: TaskStatus where "TaskStatusOpen = ''open''"
definition TaskStatusClaimed :: TaskStatus where "TaskStatusClaimed = ''claimed''"
definition TaskStatusInProgress :: TaskStatus where "TaskStatusInProgress = ''in_progress''"
definition TaskStatusDone :: TaskStatus where "TaskStatusDone = ''done''"
definition TaskStatusFailed :: TaskStatus where "TaskStatusFailed = ''failed''"
definition TaskStatusCancelled :: TaskStatus where "TaskStatusCancelled = ''cancelled''"

lemmas TaskStatus_defs = TaskStatusOpen_def TaskStatusClaimed_def TaskStatusInProgress_def
  TaskStatusDone_def TaskStatusFailed_def TaskStatusCancelled_def

text \<open>The map of allowed moves; a status that is no key has no entry.\<close>

definition validTransitions :: "TaskStatus \<Rightarrow> TaskStatus list option" where
  "validTransitions src =
     (if src = TaskStatusOpen then Some [TaskStatusClaimed, TaskStatusCancelled]
      else if src = TaskStatusClaimed
        then Some [TaskStatusOpen, TaskStatusInProgress, TaskStatusCancelled]
      else if src = TaskStatusInProgress
        then Some [TaskStatusDone, TaskStatusFailed, TaskStatusOpen]
      else None)"

definition IsValidTransition :: "TaskStatus \<Rightarrow> TaskStatus \<Rightarrow> bool" where
  "IsValidTransition src dst =
     (if src = dst then True
      else case validTransitions src of
        None \<Rightarrow> False
      | Some allowed \<Rightarrow> List.member allowed dst)"

record Task =
  ta_ID :: string
  ta_Title :: string
  ta_Description :: string
  ta_Status :: TaskStatus
  ta_Creator :: string
  ta_Assignee :: string
  ta_Priority :: int
  ta_Tags :: "string slice"
  ta_Notes :: "string slice"
  ta_Session :: SessionContext
  ta_CreatedAt :: gotime
  ta_UpdatedAt :: gotime

record TaskFilter =
  tf_Status :: string
  tf_Assignee :: string
  tf_Creator :: string
  tf_SessionKey :: string
  tf_Limit :: int
  tf_Offset :: int

record TaskUpdate =
  tu_Status :: "TaskStatus option"
  tu_Assignee :: "string option"
  tu_Note :: "string option"
  tu_AgentID :: string
  tu_Session :: SessionContext

section \<open>Claims\<close>

type_synonym ClaimType = string
type_synonym ClaimStatus = string

definition ClaimTypeIssue :: ClaimType where "ClaimTypeIssue = ''issue''"
definition ClaimTypeReview :: ClaimType where "ClaimTypeReview = ''review''"
definition ClaimTypeConch :: ClaimType where "ClaimTypeConch = ''conch''"

definition ClaimStatusActive :: ClaimStatus where "ClaimStatusActive = ''active''"
definition ClaimStatusExpired :: ClaimStatus where "ClaimStatusExpired = ''expired''"
definition ClaimStatusReleased :: ClaimStatus where "ClaimStatusReleased = ''released''"

lemma ClaimStatus_distinct [simp]:
  "ClaimStatusActive \<noteq> ClaimStatusExpired" "ClaimStatusExpired \<noteq> ClaimStatusActive"
  "ClaimStatusActive \<noteq> ClaimStatusReleased" "ClaimStatusReleased \<noteq> ClaimStatusActive"
  "ClaimStatusExpired \<noteq> ClaimStatusReleased" "ClaimStatusReleased \<noteq> ClaimStatusExpired"
  by (simp_all add: ClaimStatusActive_def ClaimStatusExpired_def ClaimStatusReleased_def)

record Claim =
  cl_ID :: string
  cl_Type :: ClaimType
  cl_Resource :: string
  cl_AgentID :: string
  cl_Status :: ClaimStatus
  cl_Metadata :: gomap
  cl_Session :: SessionContext
  cl_ClaimedAt :: gotime
  cl_ExpiresAt :: gotime
  cl_UpdatedAt :: gotime

record ClaimFilter =
  cf_Type :: string
  cf_AgentID :: string
  cf_Resource :: string
  cf_Status :: string
  cf_SessionKey :: string
  cf_Limit :: int
  cf_Offset :: int

record ClaimWaiter =
  cw_ID :: string
  cw_Resource :: string
  cw_AgentID :: string
  cw_Type :: ClaimType
  cw_Metadata :: gomap
  cw_Session :: SessionContext
  cw_ExpiresInSec :: int
  cw_QueuedAt :: gotime

record ClaimQueueResult =
  cq_Queued :: bool
  cq_Position :: int
  cq_WaiterID :: string
  cq_Resource :: string

record ClaimReleaseResult =
  cr_Released :: bool
  cr_Claim :: "Claim option"
  cr_Next :: "ClaimWaiter option"

section \<open>Agents\<close>

type_synonym AgentStatus = string

definition AgentStatusOnline :: AgentStatus where "AgentStatusOnline = ''online''"
definition AgentStatusIdle :: AgentStatus where "AgentStatusIdle = ''idle''"
definition AgentStatusOffline :: AgentStatus where "AgentStatusOffline = ''offline''"

record Agent =
  ag_ID :: string
  ag_Name :: string
  ag_Status :: AgentStatus
  ag_Activity :: string
  ag_Capabilities :: "string slice"
  ag_LastHeartbeat :: gotime
  ag_RegisteredAt :: gotime
  ag_HiveLocalVersion :: string
  ag_HivePluginVersion :: string
  ag_Token :: string

section \<open>Todos\<close>

type_synonym TodoStatus = string

definition TodoStatusPending :: TodoStatus where "TodoStatusPending = ''pending''"
definition TodoStatusDone :: TodoStatus where "TodoStatusDone = ''done''"
definition TodoStatusSkipped :: TodoStatus where "TodoStatusSkipped = ''skipped''"
definition TodoStatusCancelled :: TodoStatus where "TodoStatusCancelled = ''cancelled''"

record Todo =
  td_ID :: string
  td_AgentID :: string
  td_Title :: string
  td_Status :: TodoStatus
  td_SortOrder :: int
  td_ParentTask :: string
  td_Context :: string
  td_CreatedAt :: gotime
  td_UpdatedAt :: gotime

record TodoFilter =
  df_AgentID :: string
  df_Status :: string
  df_Limit :: int
  df_Offset :: int

record TodoUpdate =
  du_Title :: "string option"
  du_Status :: "TodoStatus option"
  du_Context :: "string option"

section \<open>Discovery\<close>

record DiscoveryChannel =
  dc_ID :: string
  dc_Name :: string
  dc_DiscordID :: string
  dc_Purpose :: string
  dc_Category :: string
  dc_Members :: "string slice"
  dc_CreatedAt :: gotime
  dc_UpdatedAt :: gotime

record DiscoveryRole =
  dr_ID :: string
  dr_Name :: string
  dr_DiscordID :: string
  dr_Members :: "string slice"
  dr_CreatedAt :: gotime
  dr_UpdatedAt :: gotime

record DiscoveryAgentMeta =
  dm_DiscordUserID :: string
  dm_HomeChannel :: string
  dm_MentionFormat :: string
  dm_Channels :: "string slice"

record DiscoveryAgent =
  da_Agent :: Agent
  da_Meta :: "DiscoveryAgentMeta option"

record DiscoveryRouting =
  rt_AgentID :: string
  rt_MentionFormat :: string
  rt_HomeChannel :: string
  rt_Channels :: "string slice"

section \<open>Captured sessions\<close>

text \<open>A \<^verbatim>\<open>float64\<close> of a usage record is the number it stands for; \<^verbatim>\<open>map[string]any\<close> holds JSON values.\<close>

record CapturedUsage =
  us_InputTokens :: int
  us_OutputTokens :: int
  us_CacheReadTokens :: int
  us_CacheWriteTokens :: int
  us_TotalTokens :: int
  us_EstimatedCostUSD :: rat

record CapturedTurn =
  tn_Role :: string
  tn_Content :: string
  tn_Timestamp :: "gotime option"
  tn_Usage :: "CapturedUsage option"
  tn_Model :: string

record CapturedToolCall =
  tc_Tool :: string
  tc_Input :: string
  tc_Output :: string
  tc_Timestamp :: "gotime option"

record CapturedSession =
  cs_ID :: string
  cs_AgentID :: string
  cs_SessionKey :: string
  cs_SessionID :: string
  cs_Channel :: string
  cs_SenderID :: string
  cs_Model :: string
  cs_Provider :: string
  cs_StartedAt :: "gotime option"
  cs_FinishedAt :: "gotime option"
  cs_Usage :: "CapturedUsage option"
  cs_Repo :: string
  cs_Paths :: "string slice"
  cs_Summary :: string
  cs_Turns :: "CapturedTurn slice"
  cs_ToolCalls :: "CapturedToolCall slice"
  cs_Metadata :: "(string \<times> json) list option"
  cs_ParentSessionID :: string
  cs_CreatedAt :: gotime

record SessionFilter =
  sf_AgentID :: string
  sf_Repo :: string
  sf_Path :: string
  sf_Since :: gotime
  sf_Limit :: int

end
