(* ===== verification/Schema.thy ===== *)
theory Schema
  imports Retry Model
begin

text \<open>
  The database of \<^verbatim>\<open>internal/store/store.go\<close>: a row type per table, the tables themselves with their
  primary keys and the partial unique index on active claims, the foreign key of the task notes,
  and the access of a store method to the database outside a transaction.

  TEXT columns that hold timestamps are texts here too, and JSONB columns are JSON values: the code
  compares the former as texts and decodes the latter on every scan.  The six session columns the
  tables memory, tasks, claims and claim_queue share are one field of type \<open>SessionContext\<close>.
\<close>

section \<open>Rows\<close>

record memory_row =
  m_key :: string
  m_value :: string
  m_agent_id :: string
  m_tags :: json
  m_version :: int
  m_session :: SessionContext
  m_created_at :: string
  m_updated_at :: string

record task_row =
  t_id :: string
  t_title :: string
  t_description :: string
  t_status :: string
  t_creator :: string
  t_assignee :: string
  t_priority :: int
  t_tags :: json
  t_session :: SessionContext
  t_created_at :: string
  t_updated_at :: string

record note_row =
  n_id :: int
  n_task_id :: string
  n_note :: string
  n_agent_id :: string
  n_created_at :: string

record agent_row =
  a_id :: string
  a_name :: string
  a_status :: string
  a_activity :: string
  a_capabilities :: json
  a_last_heartbeat :: string
  a_registered_at :: string
  a_hive_local_version :: string
  a_hive_plugin_version :: string
  a_token :: "string option"
  a_discord_user_id :: string
  a_home_channel :: string
  a_mention_format :: string
  a_channels :: json

record channel_row =
  dch_id :: string
  dch_name :: string
  dch_discord_id :: string
  dch_purpose :: string
  dch_category :: string
  dch_members :: json
  dch_created_at :: string
  dch_updated_at :: string

record role_row =
  dro_id :: string
  dro_name :: string
  dro_discord_id :: string
  dro_members :: json
  dro_created_at :: string
  dro_updated_at :: string

record claim_row =
  c_id :: string
  c_type :: string
  c_resource :: string
  c_agent_id :: string
  c_status :: string
  c_metadata :: json
  c_session :: SessionContext
  c_claimed_at :: string
  c_expires_at :: string
  c_updated_at :: string

record queue_row =
  q_id :: string
  q_resource :: string
  q_agent_id :: string
  q_type :: string
  q_metadata :: json
  q_session :: SessionContext
  q_expires_in_sec :: int
  q_queued_at :: string

record todo_row =
  d_id :: string
  d_agent_id :: string
  d_title :: string
  d_status :: string
  d_sort_order :: int
  d_parent_task :: string
  d_context :: string
  d_created_at :: string
  d_updated_at :: string

record session_row =
  s_id :: string
  s_agent_id :: string
  s_session_key :: string
  s_session_id :: string
  s_channel :: string
  s_sender_id :: string
  s_model :: string
  s_provider :: string
  s_started_at :: string
  s_finished_at :: string
  s_repo :: string
  s_paths :: json
  s_summary :: string
  s_turns :: json
  s_tool_calls :: json
  s_metadata :: json
  s_parent_session_id :: string
  s_usage :: json
  s_created_at :: string

section \<open>The database\<close>

text \<open>\<open>db_note_seq\<close> is the sequence behind the BIGSERIAL column of task_notes.\<close>

record database =
  db_memory :: "memory_row list"
  db_tasks :: "task_row list"
  db_task_notes :: "note_row list"
  db_agents :: "agent_row list"
  db_discovery_channels :: "channel_row list"
  db_discovery_roles :: "role_row list"
  db_claims :: "claim_row list"
  db_claim_queue :: "queue_row list"
  db_todos :: "todo_row list"
  db_captured_sessions :: "session_row list"
  db_note_seq :: int

definition empty_db :: database where
  "empty_db = \<lparr>db_memory = [], db_tasks = [], db_task_notes = [], db_agents = [], db_discovery_channels = [], db_discovery_roles = [], db_claims = [], db_claim_queue = [], db_todos = [], db_captured_sessions = [],
     db_note_seq = 1\<rparr>"

definition memory_t :: "(database, memory_row) table_ref" where
  "memory_t = \<lparr>t_rows = db_memory, t_put = (\<lambda>t db. db\<lparr>db_memory := t\<rparr>), t_key = (m_key),
     t_uniq = (\<lambda>_. None)\<rparr>"

definition tasks_t :: "(database, task_row) table_ref" where
  "tasks_t = \<lparr>t_rows = db_tasks, t_put = (\<lambda>t db. db\<lparr>db_tasks := t\<rparr>), t_key = (t_id),
     t_uniq = (\<lambda>_. None)\<rparr>"

definition task_notes_t :: "(database, note_row) table_ref" where
  "task_notes_t = \<lparr>t_rows = db_task_notes, t_put = (\<lambda>t db. db\<lparr>db_task_notes := t\<rparr>), t_key = (\<lambda>r. show_int (n_id r)),
     t_uniq = (\<lambda>_. None)\<rparr>"

definition agents_t :: "(database, agent_row) table_ref" where
  "agents_t = \<lparr>t_rows = db_agents, t_put = (\<lambda>t db. db\<lparr>db_agents := t\<rparr>), t_key = (a_id),
     t_uniq = (\<lambda>_. None)\<rparr>"

definition discovery_channels_t :: "(database, channel_row) table_ref" where
  "discovery_channels_t = \<lparr>t_rows = db_discovery_channels, t_put = (\<lambda>t db. db\<lparr>db_discovery_channels := t\<rparr>), t_key = (dch_id),
     t_uniq = (\<lambda>_. None)\<rparr>"

definition discovery_roles_t :: "(database, role_row) table_ref" where
  "discovery_roles_t = \<lparr>t_rows = db_discovery_roles, t_put = (\<lambda>t db. db\<lparr>db_discovery_roles := t\<rparr>), t_key = (dro_id),
     t_uniq = (\<lambda>_. None)\<rparr>"

definition claims_t :: "(database, claim_row) table_ref" where
  "claims_t = \<lparr>t_rows = db_claims, t_put = (\<lambda>t db. db\<lparr>db_claims := t\<rparr>), t_key = (c_id),
     t_uniq = (\<lambda>r. if c_status r = ClaimStatusActive then Some (c_resource r) else None)\<rparr>"

definition claim_queue_t :: "(database, queue_row) table_ref" where
  "claim_queue_t = \<lparr>t_rows = db_claim_queue, t_put = (\<lambda>t db. db\<lparr>db_claim_queue := t\<rparr>), t_key = (q_id),
     t_uniq = (\<lambda>_. None)\<rparr>"

definition todos_t :: "(database, todo_row) table_ref" where
  "todos_t = \<lparr>t_rows = db_todos, t_put = (\<lambda>t db. db\<lparr>db_todos := t\<rparr>), t_key = (d_id),
     t_uniq = (\<lambda>_. None)\<rparr>"

definition captured_sessions_t :: "(database, session_row) table_ref" where
  "captured_sessions_t = \<lparr>t_rows = db_captured_sessions, t_put = (\<lambda>t db. db\<lparr>db_captured_sessions := t\<rparr>), t_key = (s_id),
     t_uniq = (\<lambda>_. None)\<rparr>"

lemmas tables_t = memory_t_def
  tasks_t_def
  task_notes_t_def
  agents_t_def
  discovery_channels_t_def
  discovery_roles_t_def
  claims_t_def
  claim_queue_t_def
  todos_t_def
  captured_sessions_t_def

lemma t_rows_simps [simp]:
  "t_rows memory_t = db_memory"
  "t_rows tasks_t = db_tasks"
  "t_rows task_notes_t = db_task_notes"
  "t_rows agents_t = db_agents"
  "t_rows discovery_channels_t = db_discovery_channels"
  "t_rows discovery_roles_t = db_discovery_roles"
  "t_rows claims_t = db_claims"
  "t_rows claim_queue_t = db_claim_queue"
  "t_rows todos_t = db_todos"
  "t_rows captured_sessions_t = db_captured_sessions"
  by (simp_all add: tables_t)

lemma t_put_simps [simp]:
  "t_put memory_t x1 db = db\<lparr>db_memory := x1\<rparr>"
  "t_put tasks_t x2 db = db\<lparr>db_tasks := x2\<rparr>"
  "t_put task_notes_t x3 db = db\<lparr>db_task_notes := x3\<rparr>"
  "t_put agents_t x4 db = db\<lparr>db_agents := x4\<rparr>"
  "t_put discovery_channels_t x5 db = db\<lparr>db_discovery_channels := x5\<rparr>"
  "t_put discovery_roles_t x6 db = db\<lparr>db_discovery_roles := x6\<rparr>"
  "t_put claims_t x7 db = db\<lparr>db_claims := x7\<rparr>"
  "t_put claim_queue_t x8 db = db\<lparr>db_claim_queue := x8\<rparr>"
  "t_put todos_t x9 db = db\<lparr>db_todos := x9\<rparr>"
  "t_put captured_sessions_t x10 db = db\<lparr>db_captured_sessions := x10\<rparr>"
  by (simp_all add: tables_t)

lemma t_key_simps [simp]:
  "t_key memory_t = m_key"
  "t_key tasks_t = t_id"
  "t_key task_notes_t = (\<lambda>r. show_int (n_id r))"
  "t_key agents_t = a_id"
  "t_key discovery_channels_t = dch_id"
  "t_key discovery_roles_t = dro_id"
  "t_key claims_t = c_id"
  "t_key claim_queue_t = q_id"
  "t_key todos_t = d_id"
  "t_key captured_sessions_t = s_id"
  by (simp_all add: tables_t)

lemma t_uniq_simps [simp]:
  "t_uniq memory_t = (\<lambda>_. None)"
  "t_uniq tasks_t = (\<lambda>_. None)"
  "t_uniq task_notes_t = (\<lambda>_. None)"
  "t_uniq agents_t = (\<lambda>_. None)"
  "t_uniq discovery_channels_t = (\<lambda>_. None)"
  "t_uniq discovery_roles_t = (\<lambda>_. None)"
  "t_uniq claims_t = (\<lambda>r. if c_status r = ClaimStatusActive then Some (c_resource r) else None)"
  "t_uniq claim_queue_t = (\<lambda>_. None)"
  "t_uniq todos_t = (\<lambda>_. None)"
  "t_uniq captured_sessions_t = (\<lambda>_. None)"
  by (simp_all add: tables_t)

interpretation memory: sql_table memory_t
  by unfold_locales simp_all

interpretation tasks: sql_table tasks_t
  by unfold_locales simp_all

interpretation task_notes: sql_table task_notes_t
  by unfold_locales simp_all

interpretation agents: sql_table agents_t
  by unfold_locales simp_all

interpretation discovery_channels: sql_table discovery_channels_t
  by unfold_locales simp_all

interpretation discovery_roles: sql_table discovery_roles_t
  by unfold_locales simp_all

interpretation claims: sql_table claims_t
  by unfold_locales simp_all

interpretation claim_queue: sql_table claim_queue_t
  by unfold_locales simp_all

interpretation todos: sql_table todos_t
  by unfold_locales simp_all

interpretation captured_sessions: sql_table captured_sessions_t
  by unfold_locales simp_all

section \<open>A well-formed database\<close>

text \<open>Keys and the unique index hold no duplicates, and every note belongs to a task.\<close>

definition notes_ok :: "database \<Rightarrow> bool" where
  "notes_ok db \<longleftrightarrow> (\<forall>n \<in> set (db_task_notes db).
     n_task_id n \<in> t_id ` set (db_tasks db) \<and> 0 < n_id n \<and> n_id n < db_note_seq db) \<and> 0 < db_note_seq db"

definition db_ok :: "database \<Rightarrow> bool" where
  "db_ok db \<longleftrightarrow> table_ok memory_t db \<and>
     table_ok tasks_t db \<and>
     table_ok task_notes_t db \<and>
     table_ok agents_t db \<and>
     table_ok discovery_channels_t db \<and>
     table_ok discovery_roles_t db \<and>
     table_ok claims_t db \<and>
     table_ok claim_queue_t db \<and>
     table_ok todos_t db \<and>
     table_ok captured_sessions_t db \<and>
     notes_ok db"

lemma table_ok_put [simp]:
  "table_ok memory_t (db_tasks_update f1 db) = table_ok memory_t db"
  "table_ok memory_t (db_task_notes_update f2 db) = table_ok memory_t db"
  "table_ok memory_t (db_agents_update f3 db) = table_ok memory_t db"
  "table_ok memory_t (db_discovery_channels_update f4 db) = table_ok memory_t db"
  "table_ok memory_t (db_discovery_roles_update f5 db) = table_ok memory_t db"
  "table_ok memory_t (db_claims_update f6 db) = table_ok memory_t db"
  "table_ok memory_t (db_claim_queue_update f7 db) = table_ok memory_t db"
  "table_ok memory_t (db_todos_update f8 db) = table_ok memory_t db"
  "table_ok memory_t (db_captured_sessions_update f9 db) = table_ok memory_t db"
  "table_ok tasks_t (db_memory_update f10 db) = table_ok tasks_t db"
  "table_ok tasks_t (db_task_notes_update f11 db) = table_ok tasks_t db"
  "table_ok tasks_t (db_agents_update f12 db) = table_ok tasks_t db"
  "table_ok tasks_t (db_discovery_channels_update f13 db) = table_ok tasks_t db"
  "table_ok tasks_t (db_discovery_roles_update f14 db) = table_ok tasks_t db"
  "table_ok tasks_t (db_claims_update f15 db) = table_ok tasks_t db"
  "table_ok tasks_t (db_claim_queue_update f16 db) = table_ok tasks_t db"
  "table_ok tasks_t (db_todos_update f17 db) = table_ok tasks_t db"
  "table_ok tasks_t (db_captured_sessions_update f18 db) = table_ok tasks_t db"
  "table_ok task_notes_t (db_memory_update f19 db) = table_ok task_notes_t db"
  "table_ok task_notes_t (db_tasks_update f20 db) = table_ok task_notes_t db"
  "table_ok task_notes_t (db_agents_update f21 db) = table_ok task_notes_t db"
  "table_ok task_notes_t (db_discovery_channels_update f22 db) = table_ok task_notes_t db"
  "table_ok task_notes_t (db_discovery_roles_update f23 db) = table_ok task_notes_t db"
  "table_ok task_notes_t (db_claims_update f24 db) = table_ok task_notes_t db"
  "table_ok task_notes_t (db_claim_queue_update f25 db) = table_ok task_notes_t db"
  "table_ok task_notes_t (db_todos_update f26 db) = table_ok task_notes_t db"
  "table_ok task_notes_t (db_captured_sessions_update f27 db) = table_ok task_notes_t db"
  "table_ok agents_t (db_memory_update f28 db) = table_ok agents_t db"
  "table_ok agents_t (db_tasks_update f29 db) = table_ok agents_t db"
  "table_ok agents_t (db_task_notes_update f30 db) = table_ok agents_t db"
  "table_ok agents_t (db_discovery_channels_update f31 db) = table_ok agents_t db"
  "table_ok agents_t (db_discovery_roles_update f32 db) = table_ok agents_t db"
  "table_ok agents_t (db_claims_update f33 db) = table_ok agents_t db"
  "table_ok agents_t (db_claim_queue_update f34 db) = table_ok agents_t db"
  "table_ok agents_t (db_todos_update f35 db) = table_ok agents_t db"
  "table_ok agents_t (db_captured_sessions_update f36 db) = table_ok agents_t db"
  "table_ok discovery_channels_t (db_memory_update f37 db) = table_ok discovery_channels_t db"
  "table_ok discovery_channels_t (db_tasks_update f38 db) = table_ok discovery_channels_t db"
  "table_ok discovery_channels_t (db_task_notes_update f39 db) = table_ok discovery_channels_t db"
  "table_ok discovery_channels_t (db_agents_update f40 db) = table_ok discovery_channels_t db"
  "table_ok discovery_channels_t (db_discovery_roles_update f41 db) = table_ok discovery_channels_t db"
  "table_ok discovery_channels_t (db_claims_update f42 db) = table_ok discovery_channels_t db"
  "table_ok discovery_channels_t (db_claim_queue_update f43 db) = table_ok discovery_channels_t db"
  "table_ok discovery_channels_t (db_todos_update f44 db) = table_ok discovery_channels_t db"
  "table_ok discovery_channels_t (db_captured_sessions_update f45 db) = table_ok discovery_channels_t db"
  "table_ok discovery_roles_t (db_memory_update f46 db) = table_ok discovery_roles_t db"
  "table_ok discovery_roles_t (db_tasks_update f47 db) = table_ok discovery_roles_t db"
  "table_ok discovery_roles_t (db_task_notes_update f48 db) = table_ok discovery_roles_t db"
  "table_ok discovery_roles_t (db_agents_update f49 db) = table_ok discovery_roles_t db"
  "table_ok discovery_roles_t (db_discovery_channels_update f50 db) = table_ok discovery_roles_t db"
  "table_ok discovery_roles_t (db_claims_update f51 db) = table_ok discovery_roles_t db"
  "table_ok discovery_roles_t (db_claim_queue_update f52 db) = table_ok discovery_roles_t db"
  "table_ok discovery_roles_t (db_todos_update f53 db) = table_ok discovery_roles_t db"
  "table_ok discovery_roles_t (db_captured_sessions_update f54 db) = table_ok discovery_roles_t db"
  "table_ok claims_t (db_memory_update f55 db) = table_ok claims_t db"
  "table_ok claims_t (db_tasks_update f56 db) = table_ok claims_t db"
  "table_ok claims_t (db_task_notes_update f57 db) = table_ok claims_t db"
  "table_ok claims_t (db_agents_update f58 db) = table_ok claims_t db"
  "table_ok claims_t (db_discovery_channels_update f59 db) = table_ok claims_t db"
  "table_ok claims_t (db_discovery_roles_update f60 db) = table_ok claims_t db"
  "table_ok claims_t (db_claim_queue_update f61 db) = table_ok claims_t db"
  "table_ok claims_t (db_todos_update f62 db) = table_ok claims_t db"
  "table_ok claims_t (db_captured_sessions_update f63 db) = table_ok claims_t db"
  "table_ok claim_queue_t (db_memory_update f64 db) = table_ok claim_queue_t db"
  "table_ok claim_queue_t (db_tasks_update f65 db) = table_ok claim_queue_t db"
  "table_ok claim_queue_t (db_task_notes_update f66 db) = table_ok claim_queue_t db"
  "table_ok claim_queue_t (db_agents_update f67 db) = table_ok claim_queue_t db"
  "table_ok claim_queue_t (db_discovery_channels_update f68 db) = table_ok claim_queue_t db"
  "table_ok claim_queue_t (db_discovery_roles_update f69 db) = table_ok claim_queue_t db"
  "table_ok claim_queue_t (db_claims_update f70 db) = table_ok claim_queue_t db"
  "table_ok claim_queue_t (db_todos_update f71 db) = table_ok claim_queue_t db"
  "table_ok claim_queue_t (db_captured_sessions_update f72 db) = table_ok claim_queue_t db"
  "table_ok todos_t (db_memory_update f73 db) = table_ok todos_t db"
  "table_ok todos_t (db_tasks_update f74 db) = table_ok todos_t db"
  "table_ok todos_t (db_task_notes_update f75 db) = table_ok todos_t db"
  "table_ok todos_t (db_agents_update f76 db) = table_ok todos_t db"
  "table_ok todos_t (db_discovery_channels_update f77 db) = table_ok todos_t db"
  "table_ok todos_t (db_discovery_roles_update f78 db) = table_ok todos_t db"
  "table_ok todos_t (db_claims_update f79 db) = table_ok todos_t db"
  "table_ok todos_t (db_claim_queue_update f80 db) = table_ok todos_t db"
  "table_ok todos_t (db_captured_sessions_update f81 db) = table_ok todos_t db"
  "table_ok captured_sessions_t (db_memory_update f82 db) = table_ok captured_sessions_t db"
  "table_ok captured_sessions_t (db_tasks_update f83 db) = table_ok captured_sessions_t db"
  "table_ok captured_sessions_t (db_task_notes_update f84 db) = table_ok captured_sessions_t db"
  "table_ok captured_sessions_t (db_agents_update f85 db) = table_ok captured_sessions_t db"
  "table_ok captured_sessions_t (db_discovery_channels_update f86 db) = table_ok captured_sessions_t db"
  "table_ok captured_sessions_t (db_discovery_roles_update f87 db) = table_ok captured_sessions_t db"
  "table_ok captured_sessions_t (db_claims_update f88 db) = table_ok captured_sessions_t db"
  "table_ok captured_sessions_t (db_claim_queue_update f89 db) = table_ok captured_sessions_t db"
  "table_ok captured_sessions_t (db_todos_update f90 db) = table_ok captured_sessions_t db"
  "table_ok memory_t (db_note_seq_update f91 db) = table_ok memory_t db"
  "table_ok tasks_t (db_note_seq_update f92 db) = table_ok tasks_t db"
  "table_ok task_notes_t (db_note_seq_update f93 db) = table_ok task_notes_t db"
  "table_ok agents_t (db_note_seq_update f94 db) = table_ok agents_t db"
  "table_ok discovery_channels_t (db_note_seq_update f95 db) = table_ok discovery_channels_t db"
  "table_ok discovery_roles_t (db_note_seq_update f96 db) = table_ok discovery_roles_t db"
  "table_ok claims_t (db_note_seq_update f97 db) = table_ok claims_t db"
  "table_ok claim_queue_t (db_note_seq_update f98 db) = table_ok claim_queue_t db"
  "table_ok todos_t (db_note_seq_update f99 db) = table_ok todos_t db"
  "table_ok captured_sessions_t (db_note_seq_update f100 db) = table_ok captured_sessions_t db"
  by (simp_all add: table_ok_def)

lemma notes_ok_put [simp]:
  "notes_ok (db_memory_update g0 db) = notes_ok db"
  "notes_ok (db_agents_update g3 db) = notes_ok db"
  "notes_ok (db_discovery_channels_update g4 db) = notes_ok db"
  "notes_ok (db_discovery_roles_update g5 db) = notes_ok db"
  "notes_ok (db_claims_update g6 db) = notes_ok db"
  "notes_ok (db_claim_queue_update g7 db) = notes_ok db"
  "notes_ok (db_todos_update g8 db) = notes_ok db"
  "notes_ok (db_captured_sessions_update g9 db) = notes_ok db"
  by (simp_all add: notes_ok_def)

lemma db_ok_memory [stmt_simps]:
  assumes "db_ok db"
  shows "db_ok (snd (sql_insert memory_t r db))" "db_ok (snd (sql_delete memory_t P db))"
    and "(\<And>r. P r \<Longrightarrow> t_key memory_t (f r) = t_key memory_t r) \<Longrightarrow>
      (\<And>r. P r \<Longrightarrow> t_uniq memory_t (f r) = t_uniq memory_t r \<or> t_uniq memory_t (f r) = None) \<Longrightarrow>
      db_ok (snd (sql_update memory_t P f db))"
  using assms memory.insert_ok [of db r] memory.delete_ok [of db P] memory.update_ok [of db P f]
  unfolding db_ok_def sql_insert_def sql_delete_def sql_update_def t_put_simps
  by (simp_all split: if_splits del: t_key_simps t_uniq_simps)

lemma db_ok_agents [stmt_simps]:
  assumes "db_ok db"
  shows "db_ok (snd (sql_insert agents_t r db))" "db_ok (snd (sql_delete agents_t P db))"
    and "(\<And>r. P r \<Longrightarrow> t_key agents_t (f r) = t_key agents_t r) \<Longrightarrow>
      (\<And>r. P r \<Longrightarrow> t_uniq agents_t (f r) = t_uniq agents_t r \<or> t_uniq agents_t (f r) = None) \<Longrightarrow>
      db_ok (snd (sql_update agents_t P f db))"
  using assms agents.insert_ok [of db r] agents.delete_ok [of db P] agents.update_ok [of db P f]
  unfolding db_ok_def sql_insert_def sql_delete_def sql_update_def t_put_simps
  by (simp_all split: if_splits del: t_key_simps t_uniq_simps)

lemma db_ok_discovery_channels [stmt_simps]:
  assumes "db_ok db"
  shows "db_ok (snd (sql_insert discovery_channels_t r db))" "db_ok (snd (sql_delete discovery_channels_t P db))"
    and "(\<And>r. P r \<Longrightarrow> t_key discovery_channels_t (f r) = t_key discovery_channels_t r) \<Longrightarrow>
      (\<And>r. P r \<Longrightarrow> t_uniq discovery_channels_t (f r) = t_uniq discovery_channels_t r \<or> t_uniq discovery_channels_t (f r) = None) \<Longrightarrow>
      db_ok (snd (sql_update discovery_channels_t P f db))"
  using assms discovery_channels.insert_ok [of db r] discovery_channels.delete_ok [of db P] discovery_channels.update_ok [of db P f]
  unfolding db_ok_def sql_insert_def sql_delete_def sql_update_def t_put_simps
  by (simp_all split: if_splits del: t_key_simps t_uniq_simps)

lemma db_ok_discovery_roles [stmt_simps]:
  assumes "db_ok db"
  shows "db_ok (snd (sql_insert discovery_roles_t r db))" "db_ok (snd (sql_delete discovery_roles_t P db))"
    and "(\<And>r. P r \<Longrightarrow> t_key discovery_roles_t (f r) = t_key discovery_roles_t r) \<Longrightarrow>
      (\<And>r. P r \<Longrightarrow> t_uniq discovery_roles_t (f r) = t_uniq discovery_roles_t r \<or> t_uniq discovery_roles_t (f r) = None) \<Longrightarrow>
      db_ok (snd (sql_update discovery_roles_t P f db))"
  using assms discovery_roles.insert_ok [of db r] discovery_roles.delete_ok [of db P] discovery_roles.update_ok [of db P f]
  unfolding db_ok_def sql_insert_def sql_delete_def sql_update_def t_put_simps
  by (simp_all split: if_splits del: t_key_simps t_uniq_simps)

lemma db_ok_claims [stmt_simps]:
  assumes "db_ok db"
  shows "db_ok (snd (sql_insert claims_t r db))" "db_ok (snd (sql_delete claims_t P db))"
    and "(\<And>r. P r \<Longrightarrow> t_key claims_t (f r) = t_key claims_t r) \<Longrightarrow>
      (\<And>r. P r \<Longrightarrow> t_uniq claims_t (f r) = t_uniq claims_t r \<or> t_uniq claims_t (f r) = None) \<Longrightarrow>
      db_ok (snd (sql_update claims_t P f db))"
  using assms claims.insert_ok [of db r] claims.delete_ok [of db P] claims.update_ok [of db P f]
  unfolding db_ok_def sql_insert_def sql_delete_def sql_update_def t_put_simps
  by (simp_all split: if_splits del: t_key_simps t_uniq_simps)

lemma db_ok_claim_queue [stmt_simps]:
  assumes "db_ok db"
  shows "db_ok (snd (sql_insert claim_queue_t r db))" "db_ok (snd (sql_delete claim_queue_t P db))"
    and "(\<And>r. P r \<Longrightarrow> t_key claim_queue_t (f r) = t_key claim_queue_t r) \<Longrightarrow>
      (\<And>r. P r \<Longrightarrow> t_uniq claim_queue_t (f r) = t_uniq claim_queue_t r \<or> t_uniq claim_queue_t (f r) = None) \<Longrightarrow>
      db_ok (snd (sql_update claim_queue_t P f db))"
  using assms claim_queue.insert_ok [of db r] claim_queue.delete_ok [of db P] claim_queue.update_ok [of db P f]
  unfolding db_ok_def sql_insert_def sql_delete_def sql_update_def t_put_simps
  by (simp_all split: if_splits del: t_key_simps t_uniq_simps)

lemma db_ok_todos [stmt_simps]:
  assumes "db_ok db"
  shows "db_ok (snd (sql_insert todos_t r db))" "db_ok (snd (sql_delete todos_t P db))"
    and "(\<And>r. P r \<Longrightarrow> t_key todos_t (f r) = t_key todos_t r) \<Longrightarrow>
      (\<And>r. P r \<Longrightarrow> t_uniq todos_t (f r) = t_uniq todos_t r \<or> t_uniq todos_t (f r) = None) \<Longrightarrow>
      db_ok (snd (sql_update todos_t P f db))"
  using assms todos.insert_ok [of db r] todos.delete_ok [of db P] todos.update_ok [of db P f]
  unfolding db_ok_def sql_insert_def sql_delete_def sql_update_def t_put_simps
  by (simp_all split: if_splits del: t_key_simps t_uniq_simps)

lemma db_ok_captured_sessions [stmt_simps]:
  assumes "db_ok db"
  shows "db_ok (snd (sql_insert captured_sessions_t r db))" "db_ok (snd (sql_delete captured_sessions_t P db))"
    and "(\<And>r. P r \<Longrightarrow> t_key captured_sessions_t (f r) = t_key captured_sessions_t r) \<Longrightarrow>
      (\<And>r. P r \<Longrightarrow> t_uniq captured_sessions_t (f r) = t_uniq captured_sessions_t r \<or> t_uniq captured_sessions_t (f r) = None) \<Longrightarrow>
      db_ok (snd (sql_update captured_sessions_t P f db))"
  using assms captured_sessions.insert_ok [of db r] captured_sessions.delete_ok [of db P] captured_sessions.update_ok [of db P f]
  unfolding db_ok_def sql_insert_def sql_delete_def sql_update_def t_put_simps
  by (simp_all split: if_splits del: t_key_simps t_uniq_simps)

lemma db_ok_upsert [stmt_simps]:
  assumes "db_ok db"
  shows "(\<And>x. t_key agents_t (f x) = t_key agents_t x) \<Longrightarrow> db_ok (snd (sql_upsert agents_t r f db))"
    and "(\<And>x. t_key discovery_channels_t (g x) = t_key discovery_channels_t x) \<Longrightarrow>
      db_ok (snd (sql_upsert discovery_channels_t q g db))"
    and "(\<And>x. t_key discovery_roles_t (h x) = t_key discovery_roles_t x) \<Longrightarrow>
      db_ok (snd (sql_upsert discovery_roles_t p h db))"
  using assms by (auto simp: snd_upsert stmt_simps)

end
