(* ===== verification/Access.thy ===== *)
theory Access
  imports Schema
begin

text \<open>
  How a method of \<^verbatim>\<open>Store\<close> reaches the database: statements sent outside a transaction, the
  environment of a whole method (clock, identifiers, the attempts of its transaction, its direct
  accesses), and the columns every table encodes and decodes the same way.
\<close>

section \<open>Statements outside a transaction\<close>

text \<open>
  What other sessions committed before the statement, its fate (\<open>MaybeCommitted\<close>: an error came back
  although the statement took effect), and the error that ends the iteration over its rows.
\<close>

record 'db access =
  ac_others :: "'db \<Rightarrow> 'db"
  ac_fate :: commit_fate
  ac_rows :: "goerr option"

text \<open>\<^verbatim>\<open>db.QueryContext\<close> and the loop over \<^verbatim>\<open>rows\<close>; the error of the query gets the text \<open>s\<close>.\<close>

definition query_rows ::
  "string \<Rightarrow> 'db access \<Rightarrow> ('db, 'r list) stmt \<Rightarrow> 'db \<Rightarrow> (goerr + 'r list) \<times> 'db" where
  "query_rows s ac st db =
     (let db1 = ac_others ac db in
      (case ac_fate ac of
         NotCommitted e \<Rightarrow> Inl (Wrapped s e)
       | MaybeCommitted e \<Rightarrow> Inl (Wrapped s e)
       | Committed \<Rightarrow> (case fst (st db1) of
            Inl e \<Rightarrow> Inl (Wrapped s e)
          | Inr rs \<Rightarrow> (case ac_rows ac of Some e \<Rightarrow> Inl e | None \<Rightarrow> Inr rs)), db1))"

text \<open>\<^verbatim>\<open>db.QueryRowContext(...).Scan(...)\<close>.\<close>

definition query_row ::
  "'db access \<Rightarrow> ('db, 'r list) stmt \<Rightarrow> 'db \<Rightarrow> (goerr + 'r) \<times> 'db" where
  "query_row ac st db =
     (let db1 = ac_others ac db in
      (case ac_fate ac of
         NotCommitted e \<Rightarrow> Inl e
       | MaybeCommitted e \<Rightarrow> Inl e
       | Committed \<Rightarrow> (case fst (st db1) of Inl e \<Rightarrow> Inl e | Inr rs \<Rightarrow> first_row rs), db1))"

text \<open>\<^verbatim>\<open>db.ExecContext\<close>: a transaction of one statement.\<close>

definition exec_direct :: "'db access \<Rightarrow> ('db, 'a) stmt \<Rightarrow> 'db \<Rightarrow> (goerr + 'a) \<times> 'db" where
  "exec_direct ac st db =
     (let db1 = ac_others ac db in
      case ac_fate ac of
        NotCommitted e \<Rightarrow> (Inl e, db1)
      | MaybeCommitted e \<Rightarrow> (Inl e, snd (st db1))
      | Committed \<Rightarrow> st db1)"

text \<open>The scan helpers' reading of a missing row, and the text they put around other errors.\<close>

definition scan_row :: "string \<Rightarrow> ('r \<Rightarrow> 'a) \<Rightarrow> goerr + 'r \<Rightarrow> goerr + 'a" where
  "scan_row s f res = (case res of
       Inr r \<Rightarrow> Inr (f r)
     | Inl e \<Rightarrow> if errors_Is e ErrNoRows then Inl ErrNotFound else Inl (Wrapped s e))"

section \<open>The environment of a method\<close>

record senv =
  sv_now :: "nat \<Rightarrow> gotime"
  sv_uuid :: string
  sv_random :: "goerr + int list"
  sv_tx :: "nat \<Rightarrow> database attempt"
  sv_access :: "nat \<Rightarrow> database access"

definition calm_access :: "'db access \<Rightarrow> bool" where
  "calm_access ac \<longleftrightarrow> ac_others ac = id \<and> ac_fate ac = Committed \<and> ac_rows ac = None"

text \<open>Nothing fails and nobody else is at work.\<close>

definition quiet :: "senv \<Rightarrow> bool" where
  "quiet E \<longleftrightarrow> (\<forall>k. calm (sv_tx E k)) \<and> (\<forall>k. calm_access (sv_access E k))"

lemma quiet_simps [simp]: "quiet E \<Longrightarrow> calm (sv_tx E k)" "quiet E \<Longrightarrow> calm_access (sv_access E k)"
  by (simp_all add: quiet_def)

lemma query_calm [simp]:
  "calm_access ac \<Longrightarrow> query_rows s ac (sql_select T P) db = (Inr (filter P (t_rows T db)), db)"
  "calm_access ac \<Longrightarrow> query_row ac (sql_select T P) db = (first_row (filter P (t_rows T db)), db)"
  "calm_access ac \<Longrightarrow> exec_direct ac st db = st db"
  by (simp_all add: calm_access_def query_rows_def query_row_def exec_direct_def sql_select_def)

text \<open>An undisturbed environment with given clock readings and identifiers, for concrete runs.\<close>

definition demo_time :: "int \<Rightarrow> gotime" where
  "demo_time ns = GoTime (63870000000 * Second + ns) 0"

definition calm_attempt :: "gotime \<Rightarrow> string \<Rightarrow> database attempt" where
  "calm_attempt now u = \<lparr>at_others = id, at_begin = None, at_stmt = (\<lambda>_. None), at_commit = Committed,
     at_rolled_back = ErrText [], at_ctx = None, at_now = now,
     at_uuid = (\<lambda>i. u @ ''-'' @ show_int (int i))\<rparr>"

definition quiet_senv :: "gotime \<Rightarrow> string \<Rightarrow> senv" where
  "quiet_senv now u = \<lparr>sv_now = (\<lambda>_. now), sv_uuid = u, sv_random = Inr [], sv_tx = (\<lambda>_. calm_attempt now u),
     sv_access = (\<lambda>_. \<lparr>ac_others = id, ac_fate = Committed, ac_rows = None\<rparr>)\<rparr>"

lemma quiet_senv_simps [simp]:
  "calm (calm_attempt now u)" "quiet (quiet_senv now u)"
  "sv_now (quiet_senv now u) k = now" "sv_uuid (quiet_senv now u) = u"
  "at_now (calm_attempt now u) = now" "sv_tx (quiet_senv now u) k = calm_attempt now u"
  by (simp_all add: quiet_def calm_attempt_def quiet_senv_def calm_def calm_access_def)

lemma calm_attempt_inj [simp]: "inj (at_uuid (calm_attempt now u))"
  by (rule injI) (auto simp: calm_attempt_def show_int_def show_pos_inject)

lemma calm_attempt_uuid [simp]: "at_uuid (calm_attempt now u) j = u @ ''-'' @ show_int (int j)"
  by (simp add: calm_attempt_def)

text \<open>Reads leave the database as the other sessions made it.\<close>

lemma query_db [simp]:
  "snd (query_rows s ac st db) = ac_others ac db"
  "snd (query_row ac st db) = ac_others ac db"
  by (simp_all add: query_rows_def query_row_def Let_def)

lemma query_dbD:
  "query_rows s ac st db = (r, d) \<Longrightarrow> d = ac_others ac db"
  "query_row ac st db = (r1, d) \<Longrightarrow> d = ac_others ac db"
  by (auto simp: query_rows_def query_row_def Let_def)

text \<open>Other sessions keep an invariant, in the attempts of the transaction and before each access.\<close>

definition others_keep :: "(database \<Rightarrow> bool) \<Rightarrow> senv \<Rightarrow> bool" where
  "others_keep I E \<longleftrightarrow> (\<forall>db. I db \<longrightarrow>
     (\<forall>k. I (at_others (sv_tx E k) db)) \<and> (\<forall>k. I (ac_others (sv_access E k) db)))"

lemma others_keepD:
  "others_keep I E \<Longrightarrow> I db \<Longrightarrow> I (at_others (sv_tx E k) db)"
  "others_keep I E \<Longrightarrow> I db \<Longrightarrow> I (ac_others (sv_access E k) db)"
  by (simp_all add: others_keep_def)

lemma calm_access_others [simp]: "calm_access ac \<Longrightarrow> ac_others ac db = db"
  by (simp add: calm_access_def)

lemma quiet_others_keep: "quiet E \<Longrightarrow> others_keep I E"
  by (simp add: others_keep_def)

section \<open>Columns\<close>

text \<open>
  \<^verbatim>\<open>json.Marshal\<close> of a string slice or map, with \<^verbatim>\<open>[]\<close> or \<^verbatim>\<open>{}\<close> in place of nil; and the decoding, which
  falls back to the empty slice or map.
\<close>

definition strs_column :: "string slice \<Rightarrow> json" where
  "strs_column s = (case s of None \<Rightarrow> JArr [] | Some _ \<Rightarrow> marshal_strs s)"

definition map_column :: "gomap \<Rightarrow> json" where
  "map_column m = (case m of None \<Rightarrow> JObj [] | Some _ \<Rightarrow> marshal_map m)"

definition scan_strs :: "json \<Rightarrow> string slice" where
  "scan_strs j = (case unmarshal_strs j of Some (Some xs) \<Rightarrow> Some xs | _ \<Rightarrow> Some [])"

definition scan_map :: "json \<Rightarrow> gomap" where
  "scan_map j = (case unmarshal_map j of Some (Some kvs) \<Rightarrow> Some kvs | _ \<Rightarrow> Some [])"

lemma scan_strs_column [simp]: "scan_strs (strs_column s) = Some (elems s)"
  using unmarshal_marshal_strs [of s]
  by (cases s) (simp_all add: strs_column_def scan_strs_def)

lemma scan_map_column [simp]: "scan_map (map_column m) = Some (elems m)"
  using unmarshal_marshal_map [of m]
  by (cases m) (simp_all add: map_column_def scan_map_def)

lemma unmarshal_map_column [simp]: "unmarshal_map (map_column m) = Some (Some (elems m))"
  using unmarshal_marshal_map [of m] by (cases m) (simp_all add: map_column_def)

text \<open>A time a TEXT column carries unchanged: inside the four-digit years, zone in whole minutes.\<close>

definition col_time :: "gotime \<Rightarrow> bool" where
  "col_time t \<longleftrightarrow> in_years t \<and> \<bar>zone t\<bar> < 86400 \<and> 60 dvd zone t"

lemma parse_ts_format [simp]:
  "col_time t \<Longrightarrow> parse_RFC3339 (format_RFC3339Nano t) = Some t"
  "col_time t \<Longrightarrow> parse_ts (format_RFC3339Nano t) = t"
  by (simp_all add: parse_ts_def col_time_def parse_format)

lemma col_time_utc [simp]: "utc_ok t \<Longrightarrow> col_time t"
  by (simp add: col_time_def utc_ok_def)

end
