(* ===== verification/Http.thy ===== *)
theory Http
  imports Access
begin

text \<open>
  What the handlers of \<^verbatim>\<open>internal/handlers\<close> share: a reply is the response body or an error with its
  HTTP status and detail (\<^verbatim>\<open>huma.Error404NotFound\<close> and its like), and an error of the store becomes
  the reply of the first sentinel that \<^verbatim>\<open>errors.Is\<close> finds in it.  Routing, decoding and the validation
  of requests against their schema are the web framework's: a handler starts from the decoded input.
\<close>

record http_error =
  he_status :: int
  he_detail :: string

type_synonym 'a reply = "http_error + 'a"

definition http_err :: "int \<Rightarrow> string \<Rightarrow> http_error" where
  "http_err s d = \<lparr>he_status = s, he_detail = d\<rparr>"

text \<open>The chain of \<^verbatim>\<open>if errors.Is(err, ...)\<close> that ends in \<^verbatim>\<open>if err != nil\<close>.\<close>

fun answer :: "(goerr \<times> http_error) list \<Rightarrow> http_error \<Rightarrow> goerr + 'a \<Rightarrow> 'a reply" where
  "answer cs other (Inr x) = Inr x"
| "answer [] other (Inl e) = Inl other"
| "answer ((target, h) # cs) other (Inl e) = (if errors_Is e target then Inl h else answer cs other (Inl e))"

definition map_reply :: "('a \<Rightarrow> 'b) \<Rightarrow> 'a reply \<times> 'd \<Rightarrow> 'b reply \<times> 'd" where
  "map_reply f rd = (case rd of (Inl h, d) \<Rightarrow> (Inl h, d) | (Inr x, d) \<Rightarrow> (Inr (f x), d))"

lemma map_reply_simps [simp]:
  "map_reply f (Inl h, d) = (Inl h, d)" "map_reply f (Inr x, d) = (Inr (f x), d)"
  "snd (map_reply f rd) = snd rd"
  by (auto simp: map_reply_def split: sum.splits prod.splits)

lemma answer_Inr: "answer cs other r = Inr x \<longleftrightarrow> r = Inr x"
  by (induction cs other r rule: answer.induct) auto

lemma answer_InlD: "answer cs other r = Inl h \<Longrightarrow> h = other \<or> h \<in> snd ` set cs"
  by (induction cs other r rule: answer.induct) (auto split: if_splits)

text \<open>Checking a guard before the work: \<^verbatim>\<open>if ... { return nil, huma.Error... }\<close>.\<close>

definition guard_reply :: "bool \<Rightarrow> http_error \<Rightarrow> ('d \<Rightarrow> 'a reply \<times> 'd) \<Rightarrow> 'd \<Rightarrow> 'a reply \<times> 'd" where
  "guard_reply b h k d = (if b then (Inl h, d) else k d)"

text \<open>Continuing after a call that replied.\<close>

definition and_then :: "'a reply \<times> 'd \<Rightarrow> ('a \<Rightarrow> 'd \<Rightarrow> 'b reply \<times> 'd) \<Rightarrow> 'b reply \<times> 'd" where
  "and_then rd k = (case rd of (Inl h, d) \<Rightarrow> (Inl h, d) | (Inr x, d) \<Rightarrow> k x d)"

lemma and_then_simps [simp]:
  "and_then (Inl h, d) k = (Inl h, d)" "and_then (Inr x, d) k = k x d"
  by (simp_all add: and_then_def)

lemma and_then_Inr: "and_then rd k = (Inr y, d') \<longleftrightarrow> (\<exists>x d. rd = (Inr x, d) \<and> k x d = (Inr y, d'))"
  by (auto simp: and_then_def split: sum.splits prod.splits)

lemma guard_reply_simps [simp]: "guard_reply True h k d = (Inl h, d)" "guard_reply False h k d = k d"
  by (simp_all add: guard_reply_def)

definition answers :: "(goerr \<times> http_error) list \<Rightarrow> http_error \<Rightarrow> (goerr + 'a) \<times> 'd \<Rightarrow> 'a reply \<times> 'd" where
  "answers cs other rd = (answer cs other (fst rd), snd rd)"

lemma answers_simps [simp]:
  "answers cs other (Inr x, d) = (Inr x, d)" "snd (answers cs other rd) = snd rd"
  "answers [] other (Inl e, d) = (Inl other, d)"
  by (simp_all add: answers_def)

lemma answers_Inl_Cons [simp]:
  "answers ((target, h) # cs) other (Inl e, d) =
     (if errors_Is e target then (Inl h, d) else answers cs other (Inl e, d))"
  by (simp add: answers_def)

lemma answers_Inr: "answers cs other rd = (Inr x, d) \<longleftrightarrow> rd = (Inr x, d)"
  by (cases rd) (simp add: answers_def answer_Inr)

lemma snd_guard_reply: "snd (guard_reply b h k d) = (if b then d else snd (k d))"
  by (simp add: guard_reply_def)

lemma snd_and_then: "snd (and_then rd k) = (case fst rd of Inl h \<Rightarrow> snd rd | Inr x \<Rightarrow> snd (k x (snd rd)))"
  by (cases rd) (auto simp: and_then_def split: sum.splits)

text \<open>A row found by its key is the first of those selected by it.\<close>

lemma find_Some_filter: "List.find P xs = Some x \<Longrightarrow> \<exists>ys. filter P xs = x # ys"
  by (induction xs) (auto split: if_splits)

end
