(* ===== verification/GoDuration.thy ===== *)
theory GoDuration
  imports GoTime
begin

text \<open>
  \<^verbatim>\<open>time.ParseDuration\<close> and \<^verbatim>\<open>Duration.Seconds\<close>, as the handlers use them.  Arithmetic on \<^verbatim>\<open>float64\<close> is
  exact arithmetic followed by a rounding \<open>rnd\<close>.  The unsigned 64-bit accumulators are never allowed to
  pass \<open>2 ^ 63\<close>, so only the sum of two parts can wrap.
\<close>

section \<open>Reading a duration\<close>

text \<open>\<^verbatim>\<open>leadingInt\<close>: the value of the leading digits, or \<open>None\<close> when it passes \<open>2 ^ 63\<close>.\<close>

fun leadingInt :: "int \<Rightarrow> string \<Rightarrow> (int \<times> string) option" where
  "leadingInt x [] = Some (x, [])"
| "leadingInt x (c # s) =
     (if \<not> is_digit c then Some (x, c # s)
      else if x > 2 ^ 63 div 10 then None
      else let y = x * 10 + digit_val c in if y > 2 ^ 63 then None else leadingInt y s)"

text \<open>\<^verbatim>\<open>leadingFraction\<close>: digits beyond what fits are skipped.\<close>

fun leadingFraction :: "int \<Rightarrow> int \<Rightarrow> bool \<Rightarrow> string \<Rightarrow> int \<times> int \<times> string" where
  "leadingFraction x scale overflow [] = (x, scale, [])"
| "leadingFraction x scale overflow (c # s) =
     (if \<not> is_digit c then (x, scale, c # s)
      else if overflow then leadingFraction x scale True s
      else if x > (2 ^ 63 - 1) div 10 then leadingFraction x scale True s
      else let y = x * 10 + digit_val c in
        if y > 2 ^ 63 then leadingFraction x scale True s else leadingFraction y (scale * 10) False s)"

text \<open>The names of microseconds are \<^verbatim>\<open>us\<close> and the two UTF-8 spellings with a micro sign or mu.\<close>

definition unitMap :: "string \<Rightarrow> duration option" where
  "unitMap u = (if u = ''ns'' then Some 1
     else if u = ''us'' \<or> u = [char_of (0xC2 :: int), char_of (0xB5 :: int), CHR ''s'']
       \<or> u = [char_of (0xCE :: int), char_of (0xBC :: int), CHR ''s''] then Some 1000
     else if u = ''ms'' then Some 1000000
     else if u = ''s'' then Some Second
     else if u = ''m'' then Some Minute
     else if u = ''h'' then Some Hour
     else None)"

definition unit_char :: "char \<Rightarrow> bool" where
  "unit_char c \<longleftrightarrow> c \<noteq> CHR ''.'' \<and> \<not> is_digit c"

text \<open>The unit after a number \<open>v\<close> with the fraction \<open>f / scale\<close>: the nanoseconds and the rest.\<close>

definition duration_unit :: "(rat \<Rightarrow> rat) \<Rightarrow> int \<Rightarrow> int \<Rightarrow> int \<Rightarrow> string \<Rightarrow> (int \<times> string) option" where
  "duration_unit rnd v f scale s =
     (let u = takeWhile unit_char s
      in if u = [] then None
         else (case unitMap u of
            None \<Rightarrow> None
          | Some unit \<Rightarrow>
              if v > 2 ^ 63 div unit then None
              else let v1 = v * unit;
                       v2 = (if f > 0 then v1 + \<lfloor>rnd (rnd (of_int f) * rnd (of_int unit / of_int scale))\<rfloor> else v1)
                   in if v2 > 2 ^ 63 then None else Some (v2, drop (length u) s)))"

text \<open>One number with its unit: a number needs digits before or after the point.\<close>

definition duration_part :: "(rat \<Rightarrow> rat) \<Rightarrow> string \<Rightarrow> (int \<times> string) option" where
  "duration_part rnd s =
     (case leadingInt 0 s of
        None \<Rightarrow> None
      | Some (v, []) \<Rightarrow> None
      | Some (v, c # s2) \<Rightarrow>
          let pre = length s \<noteq> length (c # s2)
          in if c = CHR ''.''
             then (case leadingFraction 0 1 False s2 of
                     (f, scale, s3) \<Rightarrow>
                       if \<not> pre \<and> length s2 = length s3 then None else duration_unit rnd v f scale s3)
             else if \<not> pre then None
             else duration_unit rnd v 0 1 (c # s2))"

text \<open>The rest is shorter, so the loop over the parts ends.\<close>

lemma leadingInt_length: "leadingInt x s = Some (v, r) \<Longrightarrow> length r \<le> length s"
  by (induction x s rule: leadingInt.induct) (auto simp: Let_def split: if_splits)

lemma leadingFraction_length: "leadingFraction x scale ov s = (v, sc, r) \<Longrightarrow> length r \<le> length s"
  by (induction x scale ov s rule: leadingFraction.induct) (auto simp: Let_def split: if_splits)

lemma takeWhile_drop_length: "takeWhile P s \<noteq> [] \<Longrightarrow> length (drop (length (takeWhile P s)) s) < length s"
  by (cases s) (auto split: if_splits)

lemma duration_unit_length: "duration_unit rnd v f scale s = Some (w, r) \<Longrightarrow> length r < length s"
  using takeWhile_drop_length [of unit_char s]
  by (auto simp: duration_unit_def Let_def split: if_splits option.splits)

lemma duration_part_length:
  assumes "duration_part rnd s = Some (v, r)"
  shows "length r < length s"
  using assms leadingInt_length [of 0 s]
  by (fastforce simp: duration_part_def Let_def split: option.splits list.splits prod.splits if_splits
      dest: duration_unit_length leadingFraction_length)

function duration_parts :: "(rat \<Rightarrow> rat) \<Rightarrow> int \<Rightarrow> string \<Rightarrow> int option" where
  "duration_parts rnd d s =
     (if s = [] then Some d
      else case duration_part rnd s of
        None \<Rightarrow> None
      | Some (v, r) \<Rightarrow> (let sum = (d + v) mod 2 ^ 64 in if sum > 2 ^ 63 then None else duration_parts rnd sum r))"
  by pat_completeness auto
termination
  by (relation "measure (\<lambda>(rnd, d, s). length s)") (auto dest: duration_part_length)

declare duration_parts.simps [simp del]

definition ParseDuration :: "(rat \<Rightarrow> rat) \<Rightarrow> string \<Rightarrow> duration option" where
  "ParseDuration rnd s0 =
     (let signed = (case s0 of [] \<Rightarrow> False | c # _ \<Rightarrow> c = CHR ''-'' \<or> c = CHR ''+'');
          neg = (case s0 of [] \<Rightarrow> False | c # _ \<Rightarrow> c = CHR ''-'');
          s = (if signed then tl s0 else s0)
      in if s = ''0'' then Some 0
         else if s = [] then None
         else (case duration_parts rnd 0 s of
             None \<Rightarrow> None
           | Some d \<Rightarrow> if neg then Some (- d) else if d > 2 ^ 63 - 1 then None else Some d))"

section \<open>Seconds\<close>

text \<open>Go's division truncates towards zero, and so does the conversion of a float to an integer.\<close>

definition go_quot :: "int \<Rightarrow> int \<Rightarrow> int" where
  "go_quot a b = sgn a * sgn b * (\<bar>a\<bar> div \<bar>b\<bar>)"

definition trunc :: "rat \<Rightarrow> int" where
  "trunc q = (if q < 0 then - \<lfloor>- q\<rfloor> else \<lfloor>q\<rfloor>)"

definition int_Seconds :: "(rat \<Rightarrow> rat) \<Rightarrow> duration \<Rightarrow> int" where
  "int_Seconds rnd d =
     (let sec = go_quot d Second; nsec = d - Second * sec
      in trunc (rnd (rnd (of_int sec) + rnd (of_int nsec / 10 ^ 9))))"

section \<open>Durations a client may send\<close>

lemma foldl_digits_mono:
  "0 \<le> x \<Longrightarrow> \<forall>c \<in> set ds. is_digit c \<Longrightarrow> x \<le> foldl (\<lambda>a c. 10 * a + digit_val c) x ds"
proof (induction ds arbitrary: x)
  case (Cons c ds)
  have "0 \<le> digit_val c" using Cons.prems by (simp add: is_digit_def digit_val_def)
  then show ?case using Cons.IH [of "10 * x + digit_val c"] Cons.prems by simp
qed simp

lemma leadingInt_digits:
  assumes "\<forall>c \<in> set ds. is_digit c" "s \<noteq> [] \<Longrightarrow> \<not> is_digit (hd s)" "0 \<le> x"
    and "foldl (\<lambda>a c. 10 * a + digit_val c) x ds \<le> 2 ^ 63"
  shows "leadingInt x (ds @ s) = Some (foldl (\<lambda>a c. 10 * a + digit_val c) x ds, s)"
  using assms
proof (induction ds arbitrary: x)
  case Nil
  then show ?case by (cases s) auto
next
  case (Cons c ds)
  have c: "is_digit c" "0 \<le> digit_val c" using Cons.prems by (simp_all add: is_digit_def digit_val_def)
  let ?y = "10 * x + digit_val c"
  have "?y \<le> 2 ^ 63"
    using foldl_digits_mono [of ?y ds] Cons.prems c by simp
  then show ?case using Cons.IH [of ?y] Cons.prems c by (simp add: Let_def mult.commute)
qed

lemma letter_unit_char: "57 < (of_char c :: int) \<Longrightarrow> unit_char c"
  by (auto simp: unit_char_def is_digit_def)

lemma unitMap_text:
  assumes "unitMap u = Some k"
  shows "0 < k" "u \<noteq> []" "\<forall>c \<in> set u. unit_char c"
  using assms
  by (auto simp: unitMap_def Hour_def Minute_def Second_def split: if_splits intro!: letter_unit_char)

text \<open>A whole number with a unit means what it says, with a minus sign its negation.\<close>

lemma ParseDuration_whole:
  assumes n: "0 \<le> n" and u: "unitMap u = Some k" and range: "n * k \<le> 2 ^ 63 - 1"
  shows "ParseDuration rnd (show_pos n @ u) = Some (n * k)"
    and "ParseDuration rnd (CHR ''-'' # show_pos n @ u) = Some (- (n * k))"
proof -
  note U = unitMap_text [OF u]
  obtain c us where cu: "u = c # us" using U(2) by (cases u) auto
  have c: "c \<noteq> CHR ''.''" "\<not> is_digit c" using U(3) cu by (auto simp: unit_char_def)
  have "n * 1 \<le> n * k" using n U(1) by (intro mult_left_mono) auto
  then have n63: "n \<le> 2 ^ 63" using range by simp
  have lead: "leadingInt 0 (show_pos n @ u) = Some (n, u)"
    using leadingInt_digits [of "show_pos n" u 0] show_pos_digits n63 dec_val_show_pos [OF n] c cu
    by (simp add: dec_val_def)
  have tw: "takeWhile unit_char u = u" using U(3) by (simp add: takeWhile_eq_all_conv)
  have "n \<le> 2 ^ 63 div k" using zdiv_mono1 [OF _ U(1), of "n * k" "2 ^ 63"] range U(1) by simp
  then have unit: "duration_unit rnd n 0 1 u = Some (n * k, [])"
    using U(2) u range unfolding duration_unit_def tw Let_def by simp
  have part: "duration_part rnd (show_pos n @ u) = Some (n * k, [])"
    using lead unit c(1) by (simp add: duration_part_def Let_def cu)
  have parts: "duration_parts rnd 0 (show_pos n @ u) = Some (n * k)"
    using range n U(1)
    by (simp add: duration_parts.simps [of _ _ "show_pos n @ u"] duration_parts.simps [of _ _ "[]"] part Let_def)
  obtain d ds where d: "show_pos n = d # ds" using show_pos_nonempty [of n] by (cases "show_pos n") auto
  have "is_digit d" using show_pos_digits [of n] d by simp
  then have d': "d \<noteq> CHR ''-''" "d \<noteq> CHR ''+''" by (auto simp: is_digit_def)
  show "ParseDuration rnd (show_pos n @ u) = Some (n * k)"
    using parts range d' U(2) unfolding ParseDuration_def by (simp add: d Let_def)
  show "ParseDuration rnd (CHR ''-'' # show_pos n @ u) = Some (- (n * k))"
    using parts range d' U(2) unfolding ParseDuration_def by (simp add: d Let_def)
qed

text \<open>Two parts of \<open>2 ^ 63\<close> nanoseconds wrap to nothing.\<close>

lemma ParseDuration_wraps: "ParseDuration id ''9223372036854775808ns9223372036854775808ns'' = Some 0"
  by code_simp

text \<open>Rounding that keeps the order and zero never makes a duration that is not positive last a second.\<close>

lemma int_Seconds_nonpos:
  assumes "mono rnd" "rnd 0 = 0" "d \<le> 0"
  shows "int_Seconds rnd d \<le> 0"
proof -
  have rn: "rnd q \<le> 0" if "q \<le> 0" for q using monoD [OF assms(1) that] assms(2) by simp
  have s: "go_quot d Second \<le> 0" "d - Second * go_quot d Second \<le> 0"
    using assms(3) by (auto simp: go_quot_def Second_def sgn_if minus_mod_eq_mult_div [symmetric])
  have "rat_of_int (go_quot d Second) \<le> 0" "rat_of_int (d - Second * go_quot d Second) \<le> 0"
    using s by (simp_all only: of_int_le_0_iff)
  then have "rnd (rnd (of_int (go_quot d Second)) + rnd (of_int (d - Second * go_quot d Second) / 10 ^ 9)) \<le> 0"
    by (intro rn add_nonpos_nonpos) (simp_all only: divide_nonpos_pos zero_less_power zero_less_numeral)
  then show ?thesis
    unfolding int_Seconds_def Let_def trunc_def by (auto simp: floor_le_iff)
qed

end
