(* ===== verification/Fifo.thy ===== *)
theory Fifo
  imports Prelude
begin

text \<open>
  What the claims rely on when they hand a resource over: a family of queues, one per name, in a
  shared state.  An arrival enters its queue at the end, a departure takes the head, and neither
  touches another queue.  The client's lemmas say in which order arrivals are served.
\<close>

fun arrive_all :: "('e \<Rightarrow> 's \<Rightarrow> 's) \<Rightarrow> 'e list \<Rightarrow> 's \<Rightarrow> 's" where
  "arrive_all enq [] s = s"
| "arrive_all enq (e # es) s = arrive_all enq es (enq e s)"

fun admitted :: "('e \<Rightarrow> 's \<Rightarrow> bool) \<Rightarrow> ('e \<Rightarrow> 's \<Rightarrow> 's) \<Rightarrow> 'e list \<Rightarrow> 's \<Rightarrow> bool" where
  "admitted adm enq [] s = True"
| "admitted adm enq (e # es) s = (adm e s \<and> admitted adm enq es (enq e s))"

fun serve :: "('d \<Rightarrow> 's \<Rightarrow> 'a option \<times> 's) \<Rightarrow> 'd list \<Rightarrow> 's \<Rightarrow> 'a option list \<times> 's" where
  "serve deq [] s = ([], s)"
| "serve deq (d # ds) s = (case deq d s of (x, s') \<Rightarrow>
     case serve deq ds s' of (xs, s'') \<Rightarrow> (x # xs, s''))"

locale fifo_queue =
  fixes wf :: "'s \<Rightarrow> bool"
    and items :: "'s \<Rightarrow> 'q \<Rightarrow> 'a list"
    and enq :: "'e \<Rightarrow> 's \<Rightarrow> 's"
    and place :: "'e \<Rightarrow> 'q"
    and elt :: "'e \<Rightarrow> 'a"
    and adm :: "'e \<Rightarrow> 's \<Rightarrow> bool"
    and deq :: "'q \<Rightarrow> 'd \<Rightarrow> 's \<Rightarrow> 'a option \<times> 's"
    and ready :: "'d \<Rightarrow> bool"
  assumes wf_enq: "wf s \<Longrightarrow> adm e s \<Longrightarrow> wf (enq e s)"
    and wf_deq: "wf s \<Longrightarrow> ready d \<Longrightarrow> wf (snd (deq q d s))"
    and items_enq: "wf s \<Longrightarrow> adm e s \<Longrightarrow>
      items (enq e s) q = (if q = place e then items s q @ [elt e] else items s q)"
    and deq_head: "wf s \<Longrightarrow> ready d \<Longrightarrow>
      fst (deq q d s) = (case items s q of [] \<Rightarrow> None | x # _ \<Rightarrow> Some x)"
    and items_deq: "wf s \<Longrightarrow> ready d \<Longrightarrow>
      items (snd (deq q d s)) p = (if p = q then tl (items s q) else items s p)"
begin

lemma arrive_wf: "wf s \<Longrightarrow> admitted adm enq es s \<Longrightarrow> wf (arrive_all enq es s)"
  by (induction es arbitrary: s) (auto simp: wf_enq)

lemma arrive_items:
  "wf s \<Longrightarrow> admitted adm enq es s \<Longrightarrow>
   items (arrive_all enq es s) q = items s q @ map elt (filter (\<lambda>e. place e = q) es)"
  by (induction es arbitrary: s) (auto simp: wf_enq items_enq)

lemma serve_items:
  "wf s \<Longrightarrow> list_all ready ds \<Longrightarrow>
   fst (serve (deq q) ds s) =
     map Some (take (length ds) (items s q)) @ replicate (length ds - length (items s q)) None \<and>
   items (snd (serve (deq q) ds s)) q = drop (length ds) (items s q)"
proof (induction ds arbitrary: s)
  case (Cons d ds)
  obtain x s' where d: "deq q d s = (x, s')" by fastforce
  obtain xs s'' where v: "serve (deq q) ds s' = (xs, s'')" by fastforce
  have "x = (case items s q of [] \<Rightarrow> None | x # _ \<Rightarrow> Some x)" "items s' q = tl (items s q)" "wf s'"
    using Cons.prems deq_head [of s d q] items_deq [of s d q q] wf_deq [of s d q] d by auto
  then show ?case
    using Cons.IH [of s'] Cons.prems d v by (cases "items s q") (auto simp: replicate_app_Cons_same)
qed simp

text \<open>First come, first served: what waits already is served first, then the arrivals, in order.\<close>

lemma first_come_first_served:
  assumes "wf s" "admitted adm enq es s" "list_all ready ds"
  shows "fst (serve (deq q) ds (arrive_all enq es s)) =
    (let ws = items s q @ map elt (filter (\<lambda>e. place e = q) es)
     in map Some (take (length ds) ws) @ replicate (length ds - length ws) None)"
  using serve_items [OF arrive_wf [OF assms(1,2)] assms(3), of q] arrive_items [OF assms(1,2), of q]
  by (simp add: Let_def)

end

end
