(* ===== verification/ClaimQueue.thy ===== *)
theory ClaimQueue
  imports Access Fifo
begin

text \<open>
  \<^verbatim>\<open>internal/store/claim_queue.go\<close>: the agents waiting for a resource.  The queue of a resource is the
  rows of claim_queue with that resource, in the order of their \<^verbatim>\<open>queued_at\<close> texts; a waiter enters at
  the end and the earliest one leaves when the resource becomes free.
\<close>

section \<open>The code\<close>

definition scanWaiterRow :: "queue_row \<Rightarrow> ClaimWaiter" where
  "scanWaiterRow r = \<lparr>cw_ID = q_id r, cw_Resource = q_resource r, cw_AgentID = q_agent_id r,
     cw_Type = q_type r,
     cw_Metadata = (case unmarshal_map (q_metadata r) of Some m \<Rightarrow> m | None \<Rightarrow> None),
     cw_Session = q_session r, cw_ExpiresInSec = q_expires_in_sec r,
     cw_QueuedAt = (case parse_RFC3339 (q_queued_at r) of Some t \<Rightarrow> t | None \<Rightarrow> zero_time)\<rparr>"

definition waiter_row :: "ClaimWaiter \<Rightarrow> gotime \<Rightarrow> queue_row" where
  "waiter_row w now = \<lparr>q_id = cw_ID w, q_resource = cw_Resource w, q_agent_id = cw_AgentID w,
     q_type = cw_Type w, q_metadata = map_column (cw_Metadata w), q_session = cw_Session w,
     q_expires_in_sec = cw_ExpiresInSec w, q_queued_at = format_RFC3339Nano now\<rparr>"

text \<open>The closure of \<open>EnqueueClaim\<close>; its captured variable is the position.\<close>

definition EnqueueClaim_tx :: "ClaimWaiter \<Rightarrow> gotime \<Rightarrow> (database, int) tx_fn" where
  "EnqueueClaim_tx w now A position =
     tx_then (tx_wrap ''insert queue entry'' (tx_exec (at_stmt A) (sql_insert claim_queue_t (waiter_row w now))))
       (\<lambda>_. tx_then (tx_exec (at_stmt A) (sql_select claim_queue_t (\<lambda>r. q_resource r = cw_Resource w)))
         (\<lambda>rows. tx_return (int (length rows))))"

text \<open>The fields \<open>EnqueueClaim\<close> sets on the waiter before the transaction.\<close>

definition enqueued :: "senv \<Rightarrow> ClaimWaiter \<Rightarrow> ClaimWaiter" where
  "enqueued E w =
     (let w1 = w\<lparr>cw_ID := sv_uuid E, cw_QueuedAt := in_UTC (sv_now E 0)\<rparr>
      in if cw_ExpiresInSec w1 \<le> 0 then w1\<lparr>cw_ExpiresInSec := 3600\<rparr> else w1)"

definition EnqueueClaim :: "senv \<Rightarrow> ClaimWaiter \<Rightarrow> database \<Rightarrow> (goerr + ClaimWaiter \<times> int) \<times> database" where
  "EnqueueClaim E w0 db =
     (let now = in_UTC (sv_now E 0); w = enqueued E w0
      in case RetryTx (sv_tx E) (EnqueueClaim_tx w now) 0 db of
           (Inl e, db') \<Rightarrow> (Inl e, db')
         | (Inr position, db') \<Rightarrow> (Inr (w, position), db'))"

text \<open>SELECT ... WHERE resource = $1 ORDER BY queued_at ASC LIMIT 1.\<close>

definition select_waiter :: "string \<Rightarrow> (database, queue_row list) stmt" where
  "select_waiter resource db =
     (Inr (take 1 (order_asc q_queued_at (filter (\<lambda>r. q_resource r = resource) (db_claim_queue db)))), db)"

definition PopNextWaiter :: "database attempt \<Rightarrow> string \<Rightarrow> (database, ClaimWaiter option) txm" where
  "PopNextWaiter A resource =
     tx_then (tx_try (tx_row (at_stmt A) (select_waiter resource)))
       (\<lambda>res. case res of
          Inl e \<Rightarrow> if e = ErrNoRows then tx_return None else tx_fail (Wrapped ''pop next waiter'' e)
        | Inr r \<Rightarrow> (let w = scanWaiterRow r in
            tx_then (tx_wrap ''delete queue entry''
                (tx_exec (at_stmt A) (sql_delete claim_queue_t (\<lambda>x. q_id x = cw_ID w))))
              (\<lambda>_. tx_return (Some w))))"

text \<open>The rows \<open>sweepExpiredWaiters\<close> collects: a queued_at it cannot parse is skipped.\<close>

definition stale_waiter :: "gotime \<Rightarrow> queue_row \<Rightarrow> bool" where
  "stale_waiter now r = (case parse_RFC3339 (q_queued_at r) of
       None \<Rightarrow> False
     | Some t \<Rightarrow> time_after now (time_add t (wrap64 (wrap64 (q_expires_in_sec r) * Second))))"

fun delete_stale :: "database attempt \<Rightarrow> string list \<Rightarrow> (database, unit) txm" where
  "delete_stale A [] = tx_return ()"
| "delete_stale A (i # is) =
     tx_then (tx_try (tx_exec (at_stmt A) (sql_delete claim_queue_t (\<lambda>r. q_id r = i))))
       (\<lambda>_. delete_stale A is)"

definition sweepExpiredWaiters :: "database attempt \<Rightarrow> gotime \<Rightarrow> (database, unit) txm" where
  "sweepExpiredWaiters A now =
     tx_then (tx_exec (at_stmt A) (sql_select claim_queue_t (\<lambda>_. True)))
       (\<lambda>rows. delete_stale A (map q_id (filter (stale_waiter now) rows)))"

definition QueueDepth :: "senv \<Rightarrow> string \<Rightarrow> database \<Rightarrow> (goerr + int) \<times> database" where
  "QueueDepth E resource db =
     (case query_row (sv_access E 0)
         (\<lambda>d. (Inr [int (length (filter (\<lambda>r. q_resource r = resource) (db_claim_queue d)))], d)) db of
        (Inl e, db') \<Rightarrow> (Inl e, db') | (Inr n, db') \<Rightarrow> (Inr n, db'))"

section \<open>The queue of a resource\<close>

definition waiting :: "database \<Rightarrow> string \<Rightarrow> queue_row list" where
  "waiting db r = order_asc q_queued_at (filter (\<lambda>x. q_resource x = r) (db_claim_queue db))"

definition queue_ok :: "database \<Rightarrow> bool" where
  "queue_ok db \<longleftrightarrow> distinct (map q_id (db_claim_queue db))"

lemma set_waiting: "set (waiting db r) = {x \<in> set (db_claim_queue db). q_resource x = r}"
  by (auto simp: waiting_def order_asc_def)

lemma waiting_insert:
  assumes "\<And>y. y \<in> set (waiting db (q_resource x)) \<Longrightarrow> q_queued_at y \<le> q_queued_at x"
  shows "waiting (db\<lparr>db_claim_queue := db_claim_queue db @ [x]\<rparr>) r =
    (if r = q_resource x then waiting db r @ [x] else waiting db r)"
proof (cases "r = q_resource x")
  case True
  have "y \<in> set (filter (\<lambda>z. q_resource z = r) (db_claim_queue db)) \<Longrightarrow> q_queued_at y \<le> q_queued_at x" for y
    using assms [of y] True by (simp add: set_waiting)
  then show ?thesis
    using True sort_key_snoc [of "filter (\<lambda>z. q_resource z = r) (db_claim_queue db)" q_queued_at x]
    by (simp add: waiting_def order_asc_def)
qed (auto simp: waiting_def)

lemma waiting_delete:
  "waiting (db\<lparr>db_claim_queue := filter P (db_claim_queue db)\<rparr>) r = filter P (waiting db r)"
  by (simp add: waiting_def order_asc_def filter_sort conj_commute)

lemma distinct_waiting: "queue_ok db \<Longrightarrow> distinct (map q_id (waiting db r))"
  by (simp add: queue_ok_def waiting_def order_asc_def distinct_map distinct_map_filter inj_on_def)

section \<open>Entering and leaving the queue\<close>

lemma enqueued_simps [simp]:
  "cw_ID (enqueued E w) = sv_uuid E" "cw_Resource (enqueued E w) = cw_Resource w"
  "cw_QueuedAt (enqueued E w) = in_UTC (sv_now E 0)" "cw_Metadata (enqueued E w) = cw_Metadata w"
  "cw_ExpiresInSec (enqueued E w) =
    (if cw_ExpiresInSec w \<le> 0 then 3600 else cw_ExpiresInSec w)"
  by (simp_all add: enqueued_def Let_def)

lemma waiter_row_simps [simp]:
  "q_id (waiter_row w now) = cw_ID w" "q_resource (waiter_row w now) = cw_Resource w"
  "q_queued_at (waiter_row w now) = format_RFC3339Nano now"
  by (simp_all add: waiter_row_def)

text \<open>What a queue row carries back: everything, except that a nil metadata map becomes an empty one.\<close>

lemma scan_waiter_row:
  "col_time now \<Longrightarrow> scanWaiterRow (waiter_row w now) =
     w\<lparr>cw_Metadata := Some (elems (cw_Metadata w)), cw_QueuedAt := now\<rparr>"
  by (cases w) (simp add: scanWaiterRow_def waiter_row_def)

lemma EnqueueClaim_ok:
  assumes "quiet E" "sv_uuid E \<notin> q_id ` set (db_claim_queue db)"
  shows "EnqueueClaim E w db =
    (Inr (enqueued E w, int (Suc (length (waiting db (cw_Resource w))))),
     db\<lparr>db_claim_queue := db_claim_queue db @ [waiter_row (enqueued E w) (in_UTC (sv_now E 0))]\<rparr>)"
proof -
  have c: "calm (sv_tx E 0)" using assms(1) by simp
  have "\<exists>t. EnqueueClaim_tx (enqueued E w) (in_UTC (sv_now E 0)) (sv_tx E 0) 0 (begin_tx db) =
      (Inr (int (Suc (length (waiting db (cw_Resource w))))), t) \<and> \<not> tx_aborted t \<and>
      tx_db t = db\<lparr>db_claim_queue := db_claim_queue db @ [waiter_row (enqueued E w) (in_UTC (sv_now E 0))]\<rparr>"
    using assms(2) c
    by (simp add: EnqueueClaim_tx_def tx_simps sql_insert_def may_insert_def sql_select_def
        waiting_def order_asc_def)
  then show ?thesis
    using RetryTx_commit [of "sv_tx E", OF c] by (fastforce simp: EnqueueClaim_def Let_def)
qed

lemma PopNextWaiter_run:
  assumes "calm A" "\<not> tx_aborted t" "queue_ok (tx_db t)"
  shows "\<exists>n. PopNextWaiter A r t = (case waiting (tx_db t) r of
      [] \<Rightarrow> (Inr None, t\<lparr>tx_count := n\<rparr>)
    | x # _ \<Rightarrow> (Inr (Some (scanWaiterRow x)),
        t\<lparr>tx_db := (tx_db t)\<lparr>db_claim_queue := filter (\<lambda>y. q_id y \<noteq> q_id x) (db_claim_queue (tx_db t))\<rparr>,
          tx_count := n\<rparr>))"
  using assms
  by (cases "waiting (tx_db t) r")
    (auto simp: PopNextWaiter_def tx_row_def tx_simps select_waiter_def waiting_def [symmetric]
      first_row_def sql_delete_def scanWaiterRow_def)

lemma waiting_pop:
  assumes "queue_ok db" "waiting db r = x # xs"
  shows "waiting (db\<lparr>db_claim_queue := filter (\<lambda>y. q_id y \<noteq> q_id x) (db_claim_queue db)\<rparr>) s =
    (if s = r then xs else waiting db s)"
proof (cases "s = r")
  case True
  have "distinct (map q_id (x # xs))" using distinct_waiting [OF assms(1), of r] assms(2) by simp
  then have "filter (\<lambda>y. q_id y \<noteq> q_id x) xs = xs"
    by (intro filter_id_conv') (metis distinct.simps(2) image_eqI list.simps(9) list.set_map)
  with True assms(2) show ?thesis by (simp add: waiting_delete)
next
  case False
  have x: "x \<in> set (db_claim_queue db)" "q_resource x = r"
    using assms(2) set_waiting [of db r] by auto
  have "y \<in> set (waiting db s) \<Longrightarrow> q_id y \<noteq> q_id x" for y
    using assms(1) x False by (auto simp: set_waiting queue_ok_def distinct_map inj_on_def)
  with False show ?thesis by (simp add: waiting_delete filter_id_conv')
qed

lemma delete_stale_run:
  "calm A \<Longrightarrow> \<not> tx_aborted t \<Longrightarrow> \<exists>n. delete_stale A is t = (Inr (), t\<lparr>tx_count := n,
     tx_db := (tx_db t)\<lparr>db_claim_queue := filter (\<lambda>r. q_id r \<notin> set is) (db_claim_queue (tx_db t))\<rparr>\<rparr>)"
proof (induction "is" arbitrary: t)
  case (Cons i "is")
  let ?t = "t\<lparr>tx_db := snd (sql_delete claim_queue_t (\<lambda>r. q_id r = i) (tx_db t)), tx_count := Suc (tx_count t)\<rparr>"
  have "delete_stale A (i # is) t = delete_stale A is ?t"
    using Cons.prems by (simp add: tx_simps sql_delete_def)
  moreover obtain n where "delete_stale A is ?t = (Inr (), ?t\<lparr>tx_count := n, tx_db := (tx_db ?t)\<lparr>db_claim_queue :=
      filter (\<lambda>r. q_id r \<notin> set is) (db_claim_queue (tx_db ?t))\<rparr>\<rparr>)"
    using Cons.IH [of ?t] Cons.prems by auto
  ultimately show ?case by (auto simp: sql_delete_def conj_commute)
qed (simp add: tx_simps, metis tx.surjective tx.update_convs(3))

text \<open>
  The sweep in a transaction in which exactly one of its statements fails: number 0 reads the queue,
  number \<open>j\<close> deletes the \<open>j\<close>th stale waiter.  The errors are dropped, but the transaction keeps the
  failed statement's.
\<close>

lemma delete_stale_after_error:
  assumes "tx_error t = Some e"
  shows "delete_stale A is t = (Inr (), t\<lparr>tx_count := tx_count t + length is\<rparr>)"
  using assms by (induction "is" arbitrary: t) (simp_all add: tx_run tx_exec_def)

lemma delete_stale_failing:
  assumes "\<And>n. n < tx_count t + length is \<Longrightarrow> at_stmt A n = (if n = tx_count t + j then Some e else None)"
    and "tx_error t = None" "j < length is"
  shows "\<exists>t'. delete_stale A is t = (Inr (), t') \<and> tx_error t' = Some e \<and> tx_count t' = tx_count t + length is"
  using assms
proof (induction "is" arbitrary: t j)
  case (Cons i "is")
  show ?case
  proof (cases j)
    case 0
    then show ?thesis using Cons.prems by (simp add: tx_run tx_exec_def delete_stale_after_error)
  next
    case (Suc j')
    let ?t = "t\<lparr>tx_db := snd (sql_delete claim_queue_t (\<lambda>r. q_id r = i) (tx_db t)), tx_count := Suc (tx_count t)\<rparr>"
    have "delete_stale A (i # is) t = delete_stale A is ?t"
      using Cons.prems(1) [of "tx_count t"] Cons.prems(2) Suc by (simp add: tx_run tx_exec_def sql_delete_def)
    then show ?thesis using Cons.IH [of ?t j'] Cons.prems Suc by simp
  qed
qed simp

lemma sweep_failing:
  fixes now :: gotime and db :: database
  defines "m \<equiv> length (filter (stale_waiter now) (db_claim_queue db))"
  assumes "\<And>n. n \<le> Suc m \<Longrightarrow> at_stmt A n = (if n = j then Some e else None)" "j \<le> m"
  shows "\<exists>res t. tx_try (sweepExpiredWaiters A now) (begin_tx db) = (Inr res, t) \<and> tx_error t = Some e \<and>
    at_stmt A (tx_count t) = None"
proof (cases j)
  case 0
  then show ?thesis using assms(2) [of 0] assms(2) [of 1]
    by (simp add: sweepExpiredWaiters_def tx_run tx_exec_def)
next
  case (Suc j')
  let ?ids = "map q_id (filter (stale_waiter now) (db_claim_queue db))"
  let ?t = "(begin_tx db)\<lparr>tx_count := 1\<rparr>"
  have sel: "tx_exec (at_stmt A) (sql_select claim_queue_t (\<lambda>_. True)) (begin_tx db) = (Inr (db_claim_queue db), ?t)"
    using assms(2) [of 0] Suc by (simp add: tx_exec_def sql_select_def begin_tx_def)
  have "\<exists>t. delete_stale A ?ids ?t = (Inr (), t) \<and> tx_error t = Some e \<and> tx_count t = Suc m"
    using delete_stale_failing [of ?t ?ids A j' e] assms(2,3) Suc by (simp add: m_def)
  then show ?thesis
    using sel assms(2) [of "Suc m"] assms(3) by (auto simp: sweepExpiredWaiters_def tx_run)
qed

lemma sweep_run:
  assumes "calm A" "\<not> tx_aborted t" "queue_ok (tx_db t)"
  shows "\<exists>n. sweepExpiredWaiters A now t = (Inr (), t\<lparr>tx_count := n,
     tx_db := (tx_db t)\<lparr>db_claim_queue := filter (\<lambda>r. \<not> stale_waiter now r) (db_claim_queue (tx_db t))\<rparr>\<rparr>)"
proof -
  let ?q = "db_claim_queue (tx_db t)" and ?t = "t\<lparr>tx_count := Suc (tx_count t)\<rparr>"
  have "filter (\<lambda>r. q_id r \<notin> set (map q_id (filter (stale_waiter now) ?q))) ?q =
      filter (\<lambda>r. \<not> stale_waiter now r) ?q"
    using assms(3) by (intro filter_cong) (auto simp: queue_ok_def distinct_map inj_on_def)
  moreover obtain n where "delete_stale A (map q_id (filter (stale_waiter now) ?q)) ?t = (Inr (), ?t\<lparr>tx_count := n,
      tx_db := (tx_db ?t)\<lparr>db_claim_queue := filter (\<lambda>r. q_id r \<notin> set (map q_id (filter (stale_waiter now) ?q)))
        (db_claim_queue (tx_db ?t))\<rparr>\<rparr>)"
    using delete_stale_run [OF assms(1), of ?t "map q_id (filter (stale_waiter now) ?q)"] assms(2) by auto
  ultimately show ?thesis
    using assms by (auto simp: sweepExpiredWaiters_def tx_simps sql_select_def)
qed

section \<open>The queue is a queue\<close>

text \<open>An arrival through \<open>EnqueueClaim\<close>, and a departure in a transaction that commits.\<close>

definition arrival :: "senv \<times> ClaimWaiter \<Rightarrow> database \<Rightarrow> database" where
  "arrival e db = snd (EnqueueClaim (fst e) (snd e) db)"

definition departure :: "string \<Rightarrow> database attempt \<Rightarrow> database \<Rightarrow> ClaimWaiter option \<times> database" where
  "departure r A db = (case PopNextWaiter A r (begin_tx db) of
       (Inl e, t) \<Rightarrow> (None, db) | (Inr w, t) \<Rightarrow> (w, tx_db t))"

definition waiters :: "database \<Rightarrow> string \<Rightarrow> ClaimWaiter list" where
  "waiters db r = map scanWaiterRow (waiting db r)"

definition queued_waiter :: "senv \<times> ClaimWaiter \<Rightarrow> ClaimWaiter" where
  "queued_waiter e = (enqueued (fst e) (snd e))\<lparr>cw_Metadata := Some (elems (cw_Metadata (snd e)))\<rparr>"

text \<open>
  An arrival that nothing disturbs, with a fresh identifier and a clock reading whose text is not
  before that of an agent already waiting for the resource.
\<close>

definition in_order :: "senv \<times> ClaimWaiter \<Rightarrow> database \<Rightarrow> bool" where
  "in_order e db \<longleftrightarrow> quiet (fst e) \<and> sv_uuid (fst e) \<notin> q_id ` set (db_claim_queue db) \<and>
     utc_ok (in_UTC (sv_now (fst e) 0)) \<and>
     (\<forall>y \<in> set (waiting db (cw_Resource (snd e))).
        q_queued_at y \<le> format_RFC3339Nano (in_UTC (sv_now (fst e) 0)))"

lemma arrival_db:
  "in_order e db \<Longrightarrow> arrival e db = db\<lparr>db_claim_queue := db_claim_queue db @
     [waiter_row (enqueued (fst e) (snd e)) (in_UTC (sv_now (fst e) 0))]\<rparr>"
  by (simp add: in_order_def arrival_def EnqueueClaim_ok)

lemma waiting_arrival:
  "in_order e db \<Longrightarrow> waiting (arrival e db) r =
     (if r = cw_Resource (snd e)
      then waiting db r @ [waiter_row (enqueued (fst e) (snd e)) (in_UTC (sv_now (fst e) 0))]
      else waiting db r)"
  by (subst arrival_db, assumption, subst waiting_insert) (simp_all add: in_order_def)

lemma departure_run:
  assumes "queue_ok db" "calm A"
  shows "departure r A db = (case waiting db r of
      [] \<Rightarrow> (None, db)
    | x # _ \<Rightarrow> (Some (scanWaiterRow x),
        db\<lparr>db_claim_queue := filter (\<lambda>y. q_id y \<noteq> q_id x) (db_claim_queue db)\<rparr>))"
  using PopNextWaiter_run [OF assms(2), of "begin_tx db" r] assms(1)
  by (auto simp: departure_def split: list.splits)

interpretation cq: fifo_queue queue_ok waiters arrival "\<lambda>e. cw_Resource (snd e)" queued_waiter in_order
  departure calm
proof unfold_locales
  fix e db q
  assume a: "queue_ok db" "in_order e db"
  show "queue_ok (arrival e db)"
    using a by (simp add: arrival_db) (simp add: queue_ok_def in_order_def)
  have "scanWaiterRow (waiter_row (enqueued (fst e) (snd e)) (in_UTC (sv_now (fst e) 0))) = queued_waiter e"
    using a(2) by (simp add: scan_waiter_row in_order_def queued_waiter_def)
  then show "waiters (arrival e db) q =
      (if q = cw_Resource (snd e) then waiters db q @ [queued_waiter e] else waiters db q)"
    using waiting_arrival [OF a(2)] by (simp add: waiters_def)
next
  fix A :: "database attempt" and db q p
  assume a: "queue_ok db" "calm A"
  show "queue_ok (snd (departure q A db))"
    using a by (auto simp: departure_run queue_ok_def distinct_map_filter split: list.splits)
  show "fst (departure q A db) = (case waiters db q of [] \<Rightarrow> None | x # _ \<Rightarrow> Some x)"
    using a by (auto simp: departure_run waiters_def split: list.splits)
  show "waiters (snd (departure q A db)) p = (if p = q then tl (waiters db q) else waiters db p)"
    using a waiting_pop [OF a(1)] by (auto simp: departure_run waiters_def split: list.splits)
qed

section \<open>The database stays well-formed\<close>

lemma select_keeps [simp]:
  "snd (sql_select T P db) = db" "snd (select_waiter r db) = db"
  by (simp_all add: sql_select_def select_waiter_def)

lemma PopNextWaiter_keeps [tx_pres]: "preserves db_ok (PopNextWaiter A r)"
  unfolding PopNextWaiter_def Let_def by (intro tx_pres) (simp_all add: stmt_simps)

lemma delete_stale_keeps: "preserves db_ok (delete_stale A is)"
  by (induction A "is" rule: delete_stale.induct) (auto intro!: tx_pres simp: stmt_simps)

lemma sweep_keeps [tx_pres]: "preserves db_ok (sweepExpiredWaiters A now)"
  unfolding sweepExpiredWaiters_def by (intro tx_pres delete_stale_keeps) simp

interpretation enqueue_claim: tx_body "EnqueueClaim_tx w now" db_ok for w now
  by (rule tx_bodyI, unfold EnqueueClaim_tx_def, intro tx_pres) (simp_all add: stmt_simps)

lemma EnqueueClaim_db_ok:
  "others_keep db_ok E \<Longrightarrow> db_ok db \<Longrightarrow> db_ok (snd (EnqueueClaim E w db))"
  using enqueue_claim.RetryTx_inv [of "sv_tx E" db "enqueued E w" "in_UTC (sv_now E 0)" 0]
  by (auto simp: EnqueueClaim_def Let_def others_keep_def split: prod.splits sum.splits)

section \<open>What the queue promises\<close>

definition demo_waiter :: "string \<Rightarrow> ClaimWaiter" where
  "demo_waiter who = \<lparr>cw_ID = [], cw_Resource = ''repo'', cw_AgentID = who, cw_Type = ClaimTypeIssue,
     cw_Metadata = None, cw_Session = no_session, cw_ExpiresInSec = 60, cw_QueuedAt = zero_time\<rparr>"

definition demo_arrival :: "string \<Rightarrow> int \<Rightarrow> senv \<times> ClaimWaiter" where
  "demo_arrival who ns = (quiet_senv (demo_time ns) who, demo_waiter who)"

lemma demo_in_order:
  "in_order (demo_arrival ''ann'' 0) empty_db"
  "in_order (demo_arrival ''bob'' Second) (arrival (demo_arrival ''ann'' 0) empty_db)"
proof -
  have le: "format_RFC3339Nano (in_UTC (demo_time 0)) \<le> format_RFC3339Nano (in_UTC (demo_time Second))"
    by code_simp
  have u: "utc_ok (in_UTC (demo_time 0))" "utc_ok (in_UTC (demo_time Second))"
    by (code_simp, code_simp)
  show a: "in_order (demo_arrival ''ann'' 0) empty_db"
    using u by (simp add: in_order_def demo_arrival_def empty_db_def waiting_def order_asc_def)
  show "in_order (demo_arrival ''bob'' Second) (arrival (demo_arrival ''ann'' 0) empty_db)"
    using u le by (simp add: in_order_def waiting_arrival [OF a] arrival_db [OF a])
      (simp add: demo_arrival_def demo_waiter_def empty_db_def waiting_def order_asc_def)
qed

text \<open>
  C19. Waiters are served first come, first served.  Whatever waits for a resource already, and
  whatever arrivals follow (for any resource, their clock texts not running backwards), popping the
  queue of a resource again and again yields its waiters in the order they came, each exactly once
  and with the fields it was queued with, and then nothing.
\<close>

theorem waiters_first_come_first_served:
  assumes "queue_ok db" "admitted in_order arrival es db" "list_all calm As"
  shows "fst (serve (departure r) As (arrive_all arrival es db)) =
    (let ws = waiters db r @ map queued_waiter (filter (\<lambda>e. cw_Resource (snd e) = r) es)
     in map Some (take (length As) ws) @ replicate (length As - length ws) None)"
  using assms by (rule cq.first_come_first_served)

theorem waiters_first_come_first_served_witness:
  "map (map_option cw_AgentID) (fst (serve (departure ''repo'') (replicate 3 (calm_attempt (demo_time 0) ''x''))
     (arrive_all arrival [demo_arrival ''ann'' 0, demo_arrival ''bob'' Second] empty_db))) =
   [Some ''ann'', Some ''bob'', None]"
proof -
  have "waiters empty_db ''repo'' = []"
    by (simp add: waiters_def waiting_def empty_db_def order_asc_def)
  then show ?thesis
    using waiters_first_come_first_served [of empty_db "[demo_arrival ''ann'' 0, demo_arrival ''bob'' Second]"
        "replicate 3 (calm_attempt (demo_time 0) ''x'')" "''repo''"] demo_in_order
    by (simp add: queue_ok_def empty_db_def eval_nat_numeral Let_def queued_waiter_def demo_arrival_def
        demo_waiter_def enqueued_def)
qed

text \<open>
  The order is that of the \<^verbatim>\<open>queued_at\<close> texts, and within one second that is not the order of the
  clock: the text of a whole second ends in Z, which sorts after the dot of a fraction.  Of two agents
  that queue for one resource half a second apart, the later one is served first.
\<close>

theorem waiters_overtake_within_second:
  "instant (demo_time 0) < instant (demo_time (Second div 2)) \<and>
   map_option cw_AgentID (fst (departure ''repo'' (calm_attempt (demo_time Second) ''x'')
     (arrive_all arrival [demo_arrival ''ann'' 0, demo_arrival ''bob'' (Second div 2)] empty_db))) =
   Some ''bob''"
  by code_simp

end
