(* ===== verification/ClaimStore.thy ===== *)
theory ClaimStore
  imports ClaimQueue
begin

text \<open>
  \<^verbatim>\<open>internal/store/claims.go\<close>: claims on resources.  A claim is created active; it ends by being
  released or by expiring, and then the earliest waiter of its resource is promoted to a new active
  claim in the same transaction.
\<close>

section \<open>Rows\<close>

definition finishClaimScan :: "claim_row \<Rightarrow> Claim" where
  "finishClaimScan r = \<lparr>cl_ID = c_id r, cl_Type = c_type r, cl_Resource = c_resource r,
     cl_AgentID = c_agent_id r, cl_Status = c_status r, cl_Metadata = scan_map (c_metadata r),
     cl_Session = c_session r, cl_ClaimedAt = parse_ts (c_claimed_at r),
     cl_ExpiresAt = parse_ts (c_expires_at r), cl_UpdatedAt = parse_ts (c_updated_at r)\<rparr>"

definition scanClaimRow :: "goerr + claim_row \<Rightarrow> goerr + Claim" where
  "scanClaimRow res = scan_row ''scan claim'' finishClaimScan res"

text \<open>The INSERT of \<open>CreateClaim\<close>: what it puts into each column.\<close>

definition claim_insert_row :: "Claim \<Rightarrow> gotime \<Rightarrow> claim_row" where
  "claim_insert_row c now = \<lparr>c_id = cl_ID c, c_type = cl_Type c, c_resource = cl_Resource c,
     c_agent_id = cl_AgentID c, c_status = cl_Status c, c_metadata = map_column (cl_Metadata c),
     c_session = cl_Session c, c_claimed_at = format_RFC3339Nano now,
     c_expires_at = format_RFC3339Nano (cl_ExpiresAt c), c_updated_at = format_RFC3339Nano now\<rparr>"

text \<open>The INSERT both \<open>ReleaseClaim\<close> and \<open>ExpireOldClaims\<close> promote a waiter with.\<close>

definition promoted_row :: "string \<Rightarrow> gotime \<Rightarrow> ClaimWaiter \<Rightarrow> claim_row" where
  "promoted_row newClaimID now w = \<lparr>c_id = newClaimID, c_type = cw_Type w, c_resource = cw_Resource w,
     c_agent_id = cw_AgentID w, c_status = ClaimStatusActive, c_metadata = map_column (cw_Metadata w),
     c_session = cw_Session w, c_claimed_at = format_RFC3339Nano now,
     c_expires_at = format_RFC3339Nano (time_add now (wrap64 (cw_ExpiresInSec w * Second))),
     c_updated_at = format_RFC3339Nano now\<rparr>"

section \<open>The code\<close>

definition CreateClaim_tx :: "Claim \<Rightarrow> gotime \<Rightarrow> (database, unit) tx_fn" where
  "CreateClaim_tx c now A u = tx_exec (at_stmt A) (sql_insert claims_t (claim_insert_row c now))"

text \<open>The fields \<open>CreateClaim\<close> sets on the claim it was given.\<close>

definition new_claim :: "senv \<Rightarrow> Claim \<Rightarrow> Claim" where
  "new_claim E c = (let now = in_UTC (sv_now E 0) in
     c\<lparr>cl_ID := sv_uuid E, cl_Status := ClaimStatusActive, cl_ClaimedAt := now, cl_UpdatedAt := now\<rparr>)"

definition CreateClaim :: "senv \<Rightarrow> Claim \<Rightarrow> database \<Rightarrow> (goerr + Claim) \<times> database" where
  "CreateClaim E c0 db =
     (let now = in_UTC (sv_now E 0); c = new_claim E c0
      in case RetryTx (sv_tx E) (CreateClaim_tx c now) () db of
           (Inl e, db') \<Rightarrow>
             (if as_PgError e = Some unique_violation then Inl ErrConflict
              else Inl (Wrapped ''insert claim'' e), db')
         | (Inr _, db') \<Rightarrow> (Inr c, db'))"

definition GetClaim :: "senv \<Rightarrow> string \<Rightarrow> database \<Rightarrow> (goerr + Claim) \<times> database" where
  "GetClaim E i db =
     (case query_row (sv_access E 0) (sql_select claims_t (\<lambda>r. c_id r = i)) db of
        (res, db') \<Rightarrow> (scanClaimRow res, db'))"

text \<open>The WHERE clause \<open>ListClaims\<close> builds: one condition per non-empty filter field.\<close>

definition claim_matches :: "ClaimFilter \<Rightarrow> claim_row \<Rightarrow> bool" where
  "claim_matches f r \<longleftrightarrow>
     (cf_Type f \<noteq> [] \<longrightarrow> c_type r = cf_Type f) \<and>
     (cf_AgentID f \<noteq> [] \<longrightarrow> c_agent_id r = cf_AgentID f) \<and>
     (cf_Resource f \<noteq> [] \<longrightarrow> c_resource r = cf_Resource f) \<and>
     (cf_Status f \<noteq> [] \<longrightarrow> c_status r = cf_Status f) \<and>
     (cf_SessionKey f \<noteq> [] \<longrightarrow> SessionKey (c_session r) = cf_SessionKey f)"

definition select_claims :: "ClaimFilter \<Rightarrow> (database, claim_row list) stmt" where
  "select_claims f db =
     (Inr (paginate 50 (cf_Limit f) (cf_Offset f)
        (order_desc c_claimed_at (filter (claim_matches f) (db_claims db)))), db)"

definition ListClaims :: "senv \<Rightarrow> ClaimFilter \<Rightarrow> database \<Rightarrow> (goerr + Claim list) \<times> database" where
  "ListClaims E f db = (case query_rows ''list claims'' (sv_access E 0) (select_claims f) db of
       (Inl e, db') \<Rightarrow> (Inl e, db')
     | (Inr rows, db') \<Rightarrow> (Inr (map finishClaimScan rows), db'))"

text \<open>The closure of \<open>ReleaseClaim\<close>; its captured variables are \<^verbatim>\<open>released\<close> and \<^verbatim>\<open>next\<close>.\<close>

definition ReleaseClaim_tx :: "string \<Rightarrow> (database, Claim option \<times> ClaimWaiter option) tx_fn" where
  "ReleaseClaim_tx i A captured =
     (let now = in_UTC (at_now A) in
      tx_then (tx_wrap ''release claim'' (tx_exec (at_stmt A)
          (sql_update claims_t (\<lambda>r. c_id r = i)
            (\<lambda>r. r\<lparr>c_status := ClaimStatusReleased, c_updated_at := format_RFC3339Nano now\<rparr>))))
      (\<lambda>n. if n = 0 then tx_fail ErrNotFound else
      tx_then (tx_try (tx_row (at_stmt A) (sql_select claims_t (\<lambda>r. c_id r = i))))
      (\<lambda>res. case scanClaimRow res of
          Inl e \<Rightarrow> tx_fail (Wrapped ''fetch released claim'' e)
        | Inr released \<Rightarrow>
      tx_then (tx_wrap ''pop next waiter'' (PopNextWaiter A (cl_Resource released)))
      (\<lambda>nxt. case nxt of
          None \<Rightarrow> tx_return (Some released, None)
        | Some w \<Rightarrow> tx_then (tx_exec (at_stmt A) (sql_insert claims_t (promoted_row (at_uuid A 0) now w)))
            (\<lambda>_. tx_return (Some released, Some w))))))"

definition ReleaseClaim :: "senv \<Rightarrow> string \<Rightarrow> database \<Rightarrow> (goerr + ClaimReleaseResult) \<times> database" where
  "ReleaseClaim E i db = (case RetryTx (sv_tx E) (ReleaseClaim_tx i) (None, None) db of
       (Inl e, db') \<Rightarrow> (Inl e, db')
     | (Inr (released, nxt), db') \<Rightarrow>
         (Inr \<lparr>cr_Released = True, cr_Claim = released, cr_Next = nxt\<rparr>, db'))"

definition RenewClaim_tx :: "string \<Rightarrow> gotime \<Rightarrow> (database, unit) tx_fn" where
  "RenewClaim_tx i expiresAt A u =
     (let now = in_UTC (at_now A) in
      tx_then (tx_wrap ''renew claim'' (tx_exec (at_stmt A)
          (sql_update claims_t (\<lambda>r. c_id r = i \<and> c_status r = ClaimStatusActive)
            (\<lambda>r. r\<lparr>c_expires_at := format_RFC3339Nano expiresAt, c_updated_at := format_RFC3339Nano now\<rparr>))))
      (\<lambda>n. if n = 0 then tx_fail ErrNotFound else tx_return ()))"

definition RenewClaim :: "senv \<Rightarrow> string \<Rightarrow> gotime \<Rightarrow> database \<Rightarrow> (goerr + Claim) \<times> database" where
  "RenewClaim E i expiresAt db = (case RetryTx (sv_tx E) (RenewClaim_tx i expiresAt) () db of
       (Inl e, db') \<Rightarrow> (Inl e, db') | (Inr _, db') \<Rightarrow> GetClaim E i db')"

text \<open>The claims \<open>ExpireOldClaims\<close> takes for expired: it compares the texts.\<close>

definition overdue :: "string \<Rightarrow> claim_row \<Rightarrow> bool" where
  "overdue now_text r \<longleftrightarrow> c_status r = ClaimStatusActive \<and> c_expires_at r < now_text"

definition select_overdue :: "string \<Rightarrow> (database, string list) stmt" where
  "select_overdue now_text db = (Inr (remdups (map c_resource (filter (overdue now_text) (db_claims db)))), db)"

text \<open>The promotion loop: a pop or an insert that fails is passed over.  \<open>k\<close> counts the rounds.\<close>

fun promote_each :: "database attempt \<Rightarrow> gotime \<Rightarrow> nat \<Rightarrow> string list \<Rightarrow> (database, unit) txm" where
  "promote_each A now k [] = tx_return ()"
| "promote_each A now k (resource # resources) =
     tx_then (tx_try (PopNextWaiter A resource))
       (\<lambda>res. case res of
          Inr (Some w) \<Rightarrow>
            tx_then (tx_try (tx_exec (at_stmt A) (sql_insert claims_t (promoted_row (at_uuid A k) now w))))
              (\<lambda>_. promote_each A now (Suc k) resources)
        | _ \<Rightarrow> promote_each A now (Suc k) resources)"

definition ExpireOldClaims_tx :: "(database, int) tx_fn" where
  "ExpireOldClaims_tx A count =
     (let now = in_UTC (at_now A); now_text = format_RFC3339Nano now in
      tx_then (tx_try (sweepExpiredWaiters A now))
      (\<lambda>_. tx_then (tx_wrap ''query expired resources'' (tx_exec (at_stmt A) (select_overdue now_text)))
      (\<lambda>resources. tx_then (tx_wrap ''expire claims'' (tx_exec (at_stmt A)
          (sql_update claims_t (overdue now_text)
            (\<lambda>r. r\<lparr>c_status := ClaimStatusExpired, c_updated_at := now_text\<rparr>))))
      (\<lambda>n. tx_then (promote_each A now 0 resources) (\<lambda>_. tx_return (int n))))))"

definition ExpireOldClaims :: "senv \<Rightarrow> database \<Rightarrow> (goerr + int) \<times> database" where
  "ExpireOldClaims E db = RetryTx (sv_tx E) ExpireOldClaims_tx 0 db"

section \<open>Who holds a resource\<close>

definition holder :: "database \<Rightarrow> string \<Rightarrow> claim_row option" where
  "holder db r = List.find (\<lambda>c. c_status c = ClaimStatusActive \<and> c_resource c = r) (db_claims db)"

definition claims_ok :: "database \<Rightarrow> bool" where
  "claims_ok db \<longleftrightarrow> table_ok claims_t db \<and> queue_ok db"

lemma active_keys:
  "set (uniq_keys (\<lambda>r. if c_status r = ClaimStatusActive then Some (c_resource r) else None) t) =
     c_resource ` {c \<in> set t. c_status c = ClaimStatusActive}"
  by (auto simp: uniq_keys_def List.map_filter_def image_iff)

lemma active_unique:
  assumes "distinct (uniq_keys (t_uniq claims_t) t)" "a \<in> set t" "b \<in> set t"
    "c_status a = ClaimStatusActive" "c_status b = ClaimStatusActive" "c_resource a = c_resource b"
  shows "a = b"
  using assms
proof (induction t)
  case (Cons x t)
  then show ?case
    using active_keys [of t]
    by (auto simp: uniq_keys_def List.map_filter_simps image_iff split: if_splits)
qed simp

lemma holder_SomeD: "holder db r = Some c \<Longrightarrow>
  c \<in> set (db_claims db) \<and> c_status c = ClaimStatusActive \<and> c_resource c = r"
  by (auto simp: holder_def find_Some_iff)

lemma holder_iff:
  assumes "claims_ok db"
  shows "holder db r = Some c \<longleftrightarrow>
    c \<in> set (db_claims db) \<and> c_status c = ClaimStatusActive \<and> c_resource c = r"
proof
  assume c: "c \<in> set (db_claims db) \<and> c_status c = ClaimStatusActive \<and> c_resource c = r"
  then obtain b where b: "holder db r = Some b"
    unfolding holder_def by (metis (mono_tags, lifting) find_None_iff option.exhaust)
  have "b = c"
    using active_unique [of "db_claims db" b c] assms c holder_SomeD [OF b]
    by (simp add: claims_ok_def table_ok_def)
  with b show "holder db r = Some c" by simp
qed (rule holder_SomeD)

lemma holder_none_iff: "holder db r = None \<longleftrightarrow> r \<notin> set (uniq_keys (t_uniq claims_t) (db_claims db))"
  by (auto simp: active_keys holder_def find_None_iff)

lemma may_insert_active:
  "c_status x = ClaimStatusActive \<Longrightarrow> may_insert claims_t x db \<longleftrightarrow>
     c_id x \<notin> c_id ` set (db_claims db) \<and> holder db (c_resource x) = None"
  by (simp add: may_insert_def holder_none_iff)

text \<open>The two tables are independent.\<close>

lemma claims_queue_indep [simp]:
  "waiting (db\<lparr>db_claims := cs\<rparr>) r = waiting db r"
  "holder (db\<lparr>db_claim_queue := qs\<rparr>) r = holder db r"
  "queue_ok (db\<lparr>db_claims := cs\<rparr>) = queue_ok db"
  "table_ok claims_t (db\<lparr>db_claim_queue := qs\<rparr>) = table_ok claims_t db"
  by (simp_all add: waiting_def holder_def queue_ok_def table_ok_def)

lemma holder_insert:
  "holder (db\<lparr>db_claims := db_claims db @ [x]\<rparr>) s =
     (case holder db s of Some c \<Rightarrow> Some c
      | None \<Rightarrow> if c_status x = ClaimStatusActive \<and> c_resource x = s then Some x else None)"
  by (simp add: holder_def find_snoc)

text \<open>Ending claims: those that satisfy \<open>P\<close> get a status that is not active.\<close>

lemma holder_end:
  assumes "claims_ok db" "\<And>c. P c \<Longrightarrow> c_status (f c) \<noteq> ClaimStatusActive"
  shows "holder (db\<lparr>db_claims := map (\<lambda>c. if P c then f c else c) (db_claims db)\<rparr>) s =
    (case holder db s of None \<Rightarrow> None | Some c \<Rightarrow> if P c then None else Some c)"
proof (cases "holder db s")
  case None
  then have "\<forall>c \<in> set (db_claims db). \<not> (c_status c = ClaimStatusActive \<and> c_resource c = s)"
    by (auto simp: holder_def find_None_iff)
  then have "holder (db\<lparr>db_claims := map (\<lambda>c. if P c then f c else c) (db_claims db)\<rparr>) s = None"
    unfolding holder_def find_None_iff using assms(2) by auto
  with None show ?thesis by simp
next
  case (Some c)
  have only: "b = c" if "b \<in> set (db_claims db)" "c_status b = ClaimStatusActive" "c_resource b = s" for b
    using that holder_iff [OF assms(1), of s b] Some by simp
  have "List.find (\<lambda>c. c_status c = ClaimStatusActive \<and> c_resource c = s)
      (map (\<lambda>c. if P c then f c else c) t) = (if P c \<or> c \<notin> set t then None else Some c)"
    if "set t \<subseteq> set (db_claims db)" for t
    using that
  proof (induction t)
    case (Cons b t)
    then show ?case
      using assms(2) [of b] only [of b] holder_SomeD [OF Some] by auto
  qed simp
  from this [of "db_claims db"] Some holder_SomeD [OF Some] show ?thesis by (simp add: holder_def)
qed

lemma claims_ok_end:
  assumes "claims_ok db" "\<And>c. P c \<Longrightarrow> c_id (f c) = c_id c \<and> c_status (f c) \<noteq> ClaimStatusActive"
  shows "claims_ok (db\<lparr>db_claims := map (\<lambda>c. if P c then f c else c) (db_claims db)\<rparr>)"
  using claims.update_ok [of db P f] assms by (simp add: claims_ok_def sql_update_def)

lemma claims_ok_insert:
  "claims_ok db \<Longrightarrow> may_insert claims_t x db \<Longrightarrow> claims_ok (db\<lparr>db_claims := db_claims db @ [x]\<rparr>)"
  using claims.insert_ok [of db x] by (simp add: claims_ok_def sql_insert_def)

lemma claims_ok_pop:
  "claims_ok db \<Longrightarrow> claims_ok (db\<lparr>db_claim_queue := filter P (db_claim_queue db)\<rparr>)"
  by (simp add: claims_ok_def queue_ok_def distinct_map_filter)

lemma db_ok_claims_ok: "db_ok db \<Longrightarrow> claims_ok db"
  by (simp add: db_ok_def claims_ok_def queue_ok_def table_ok_def)

section \<open>The database stays well-formed\<close>

lemma claim_select_keeps [simp]:
  "snd (select_claims f db) = db" "snd (select_overdue txt db) = db"
  by (simp_all add: select_claims_def select_overdue_def)

lemma promote_each_keeps [tx_pres]: "preserves db_ok (promote_each A now k rs)"
proof (induction rs arbitrary: k)
  case (Cons r rs)
  show ?case unfolding promote_each.simps by (intro tx_pres Cons.IH) (simp_all add: stmt_simps)
qed (simp add: tx_pres)

interpretation create_claim: tx_body "CreateClaim_tx c now" db_ok for c now
  by (rule tx_bodyI, unfold CreateClaim_tx_def, intro tx_pres) (simp_all add: stmt_simps)

interpretation release_claim: tx_body "ReleaseClaim_tx i" db_ok for i
  by (rule tx_bodyI, unfold ReleaseClaim_tx_def Let_def, intro tx_pres) (simp_all add: stmt_simps)

interpretation renew_claim: tx_body "RenewClaim_tx i t" db_ok for i t
  by (rule tx_bodyI, unfold RenewClaim_tx_def Let_def, intro tx_pres) (simp_all add: stmt_simps)

interpretation expire_claims: tx_body "ExpireOldClaims_tx" db_ok
  by (rule tx_bodyI, unfold ExpireOldClaims_tx_def Let_def, intro tx_pres)
    (simp_all add: stmt_simps overdue_def)

section \<open>How the operations run undisturbed\<close>

lemma claim_insert_row_simps [simp]:
  "c_id (claim_insert_row c now) = cl_ID c" "c_status (claim_insert_row c now) = cl_Status c"
  "c_resource (claim_insert_row c now) = cl_Resource c" "c_agent_id (claim_insert_row c now) = cl_AgentID c"
  by (simp_all add: claim_insert_row_def)

lemma promoted_row_simps [simp]:
  "c_id (promoted_row u now w) = u" "c_status (promoted_row u now w) = ClaimStatusActive"
  "c_resource (promoted_row u now w) = cw_Resource w" "c_agent_id (promoted_row u now w) = cw_AgentID w"
  by (simp_all add: promoted_row_def)

lemma scanWaiterRow_simps [simp]:
  "cw_ID (scanWaiterRow r) = q_id r" "cw_Resource (scanWaiterRow r) = q_resource r"
  "cw_AgentID (scanWaiterRow r) = q_agent_id r"
  by (simp_all add: scanWaiterRow_def)

lemma new_claim_simps [simp]:
  "cl_ID (new_claim E c) = sv_uuid E" "cl_Status (new_claim E c) = ClaimStatusActive"
  "cl_Resource (new_claim E c) = cl_Resource c" "cl_ExpiresAt (new_claim E c) = cl_ExpiresAt c"
  "cl_ClaimedAt (new_claim E c) = in_UTC (sv_now E 0)" "cl_UpdatedAt (new_claim E c) = in_UTC (sv_now E 0)"
  "cl_Metadata (new_claim E c) = cl_Metadata c"
  by (simp_all add: new_claim_def Let_def)

lemma CreateClaim_run:
  assumes "quiet E" "sv_uuid E \<notin> c_id ` set (db_claims db)"
  shows "CreateClaim E c db = (case holder db (cl_Resource c) of
      Some _ \<Rightarrow> (Inl ErrConflict, db)
    | None \<Rightarrow> (Inr (new_claim E c),
        db\<lparr>db_claims := db_claims db @ [claim_insert_row (new_claim E c) (in_UTC (sv_now E 0))]\<rparr>))"
proof -
  have c: "calm (sv_tx E 0)" using assms(1) by simp
  let ?x = "claim_insert_row (new_claim E c) (in_UTC (sv_now E 0))"
  show ?thesis
  proof (cases "holder db (cl_Resource c)")
    case None
    then have "may_insert claims_t ?x db" using assms(2) by (simp add: may_insert_active)
    then have "CreateClaim_tx (new_claim E c) (in_UTC (sv_now E 0)) (sv_tx E 0) () (begin_tx db) =
        (Inr (), (begin_tx db)\<lparr>tx_db := db\<lparr>db_claims := db_claims db @ [?x]\<rparr>, tx_count := Suc 0\<rparr>)"
      using c by (simp add: CreateClaim_tx_def tx_simps sql_insert_def)
    from RetryTx_commit [of "sv_tx E" "CreateClaim_tx (new_claim E c) (in_UTC (sv_now E 0))", OF c this] None
    show ?thesis by (simp add: CreateClaim_def Let_def)
  next
    case (Some h)
    then have "\<not> may_insert claims_t ?x db" by (simp add: may_insert_active)
    then have "\<exists>t. CreateClaim_tx (new_claim E c) (in_UTC (sv_now E 0)) (sv_tx E 0) () (begin_tx db) =
        (Inl (PgError unique_violation), t)"
      using c by (simp add: CreateClaim_tx_def tx_simps sql_insert_def)
    then show ?thesis
      using RetryTx_error [of "sv_tx E", OF c] Some
      by (fastforce simp: CreateClaim_def Let_def crdbRetryCode_def)
  qed
qed

text \<open>Releasing: the row as the UPDATE leaves it, and what follows.\<close>

definition ended :: "string \<Rightarrow> gotime \<Rightarrow> claim_row \<Rightarrow> claim_row" where
  "ended status now r = r\<lparr>c_status := status, c_updated_at := format_RFC3339Nano now\<rparr>"

definition end_claims :: "(claim_row \<Rightarrow> bool) \<Rightarrow> string \<Rightarrow> gotime \<Rightarrow> database \<Rightarrow> database" where
  "end_claims P status now db =
     db\<lparr>db_claims := map (\<lambda>r. if P r then ended status now r else r) (db_claims db)\<rparr>"

lemma ended_simps [simp]:
  "c_id (ended st now r) = c_id r" "c_status (ended st now r) = st" "c_resource (ended st now r) = c_resource r"
  "c_agent_id (ended st now r) = c_agent_id r"
  by (simp_all add: ended_def)

lemma end_claims_simps [simp]:
  "waiting (end_claims P st now db) r = waiting db r" "db_claim_queue (end_claims P st now db) = db_claim_queue db"
  "c_id ` set (db_claims (end_claims P st now db)) = c_id ` set (db_claims db)"
proof -
  have "map c_id (db_claims (end_claims P st now db)) = map c_id (db_claims db)"
    by (simp add: end_claims_def)
  then show "c_id ` set (db_claims (end_claims P st now db)) = c_id ` set (db_claims db)"
    by (metis list.set_map)
qed (simp_all add: end_claims_def)

lemma end_claims_ok:
  "claims_ok db \<Longrightarrow> st \<noteq> ClaimStatusActive \<Longrightarrow> claims_ok (end_claims P st now db)"
  by (simp add: end_claims_def claims_ok_end)

lemma holder_end_claims:
  "claims_ok db \<Longrightarrow> st \<noteq> ClaimStatusActive \<Longrightarrow> holder (end_claims P st now db) s =
     (case holder db s of None \<Rightarrow> None | Some c \<Rightarrow> if P c then None else Some c)"
  by (simp add: end_claims_def holder_end)

lemma select_ended:
  assumes "claims_ok db" "row_at claims_t i db = Some c"
  shows "filter (\<lambda>r. c_id r = i) (db_claims (end_claims (\<lambda>r. c_id r = i) st now db)) = [ended st now c]"
    and "filter (\<lambda>r. c_id r = i) (db_claims db) = [c]"
proof -
  show one: "filter (\<lambda>r. c_id r = i) (db_claims db) = [c]"
    using claims.select_row_at [of db i] assms by (simp add: claims_ok_def)
  have "filter (\<lambda>r. c_id r = i) (map (\<lambda>r. if c_id r = i then ended st now r else r) t) =
      map (ended st now) (filter (\<lambda>r. c_id r = i) t)" for t
    by (induction t) auto
  with one show "filter (\<lambda>r. c_id r = i) (db_claims (end_claims (\<lambda>r. c_id r = i) st now db)) = [ended st now c]"
    by (simp add: end_claims_def)
qed

lemma release_update:
  "sql_update claims_t (\<lambda>r. c_id r = i)
     (\<lambda>r. r\<lparr>c_status := ClaimStatusReleased, c_updated_at := format_RFC3339Nano now\<rparr>) db =
   (Inr (length (filter (\<lambda>r. c_id r = i) (db_claims db))),
    end_claims (\<lambda>r. c_id r = i) ClaimStatusReleased now db)"
  by (simp add: sql_update_def end_claims_def ended_def)

lemma ReleaseClaim_body:
  fixes A :: "database attempt" and db :: database and i :: string and captured
  assumes A: "calm A" and ok: "claims_ok db" and c: "row_at claims_t i db = Some c"
  defines "now \<equiv> in_UTC (at_now A)"
  defines "db1 \<equiv> end_claims (\<lambda>r. c_id r = i) ClaimStatusReleased now db"
  defines "rel \<equiv> finishClaimScan (ended ClaimStatusReleased now c)"
  shows "\<exists>t. (case waiting db (c_resource c) of
      [] \<Rightarrow> ReleaseClaim_tx i A captured (begin_tx db) = (Inr (Some rel, None), t) \<and>
            \<not> tx_aborted t \<and> tx_db t = db1
    | w # _ \<Rightarrow> let p = promoted_row (at_uuid A 0) now (scanWaiterRow w);
                    db2 = db1\<lparr>db_claim_queue := filter (\<lambda>y. q_id y \<noteq> q_id w) (db_claim_queue db)\<rparr> in
        if may_insert claims_t p db2
        then ReleaseClaim_tx i A captured (begin_tx db) = (Inr (Some rel, Some (scanWaiterRow w)), t) \<and>
             \<not> tx_aborted t \<and> tx_db t = db2\<lparr>db_claims := db_claims db1 @ [p]\<rparr>
        else ReleaseClaim_tx i A captured (begin_tx db) = (Inl (PgError unique_violation), t))"
proof -
  have q: "queue_ok db1"
    using ok by (simp add: db1_def end_claims_def claims_ok_def)
  have w1: "waiting db1 = waiting db" by (intro ext) (simp add: db1_def)
  have row: "filter (\<lambda>r. c_id r = i) (db_claims db1) = [ended ClaimStatusReleased now c]"
    "filter (\<lambda>r. c_id r = i) (db_claims db) = [c]"
    using select_ended [OF ok c] by (simp_all add: db1_def)
  let ?t = "(begin_tx db)\<lparr>tx_db := db1, tx_count := 2\<rparr>"
  have start: "ReleaseClaim_tx i A captured (begin_tx db) =
      tx_then (tx_wrap ''pop next waiter'' (PopNextWaiter A (c_resource c)))
      (\<lambda>nxt. case nxt of
          None \<Rightarrow> tx_return (Some rel, None)
        | Some w \<Rightarrow> tx_then (tx_exec (at_stmt A) (sql_insert claims_t (promoted_row (at_uuid A 0) now w)))
            (\<lambda>_. tx_return (Some rel, Some w))) ?t"
    unfolding ReleaseClaim_tx_def now_def [symmetric] Let_def
    using A row by (simp add: tx_simps release_update db1_def [symmetric] tx_row_def sql_select_def
        first_row_def scanClaimRow_def scan_row_def rel_def [symmetric])
      (simp add: rel_def finishClaimScan_def numeral_2_eq_2)
  note pop = PopNextWaiter_run [OF A, of ?t "c_resource c"]
  show ?thesis
  proof (cases "waiting db (c_resource c)")
    case Nil
    then obtain n where "PopNextWaiter A (c_resource c) ?t = (Inr None, ?t\<lparr>tx_count := n\<rparr>)"
      using pop q w1 by auto
    then show ?thesis using start Nil by (simp add: tx_simps)
  next
    case (Cons w ws)
    then obtain n where "PopNextWaiter A (c_resource c) ?t = (Inr (Some (scanWaiterRow w)),
        ?t\<lparr>tx_db := db1\<lparr>db_claim_queue := filter (\<lambda>y. q_id y \<noteq> q_id w) (db_claim_queue db)\<rparr>, tx_count := n\<rparr>)"
      using pop q w1 by (auto simp: db1_def)
    then show ?thesis
      using start A Cons
      by (cases "may_insert claims_t (promoted_row (at_uuid A 0) now (scanWaiterRow w))
          (db1\<lparr>db_claim_queue := filter (\<lambda>y. q_id y \<noteq> q_id w) (db_claim_queue db)\<rparr>)")
        (simp_all add: tx_simps Let_def sql_insert_def)
  qed
qed

text \<open>\<open>ReleaseClaim\<close> by cases: no such claim, an empty queue, a promotion, a resource held by another claim.\<close>

lemma ReleaseClaim_missing:
  assumes "quiet E" "i \<notin> c_id ` set (db_claims db)"
  shows "ReleaseClaim E i db = (Inl ErrNotFound, db)"
proof -
  have c: "calm (sv_tx E 0)" using assms(1) by simp
  have "filter (\<lambda>r. c_id r = i) (db_claims db) = []" using assms(2) by (auto simp: filter_empty_conv)
  then have "\<exists>t. ReleaseClaim_tx i (sv_tx E 0) (None, None) (begin_tx db) = (Inl ErrNotFound, t)"
    using c by (simp add: ReleaseClaim_tx_def Let_def tx_simps release_update)
  then show ?thesis
    using RetryTx_error [of "sv_tx E" "ReleaseClaim_tx i", OF c] by (fastforce simp: ReleaseClaim_def)
qed

definition released_claim :: "senv \<Rightarrow> claim_row \<Rightarrow> Claim" where
  "released_claim E c = finishClaimScan (ended ClaimStatusReleased (in_UTC (at_now (sv_tx E 0))) c)"

definition promotion :: "senv \<Rightarrow> queue_row \<Rightarrow> claim_row" where
  "promotion E w = promoted_row (at_uuid (sv_tx E 0) 0) (in_UTC (at_now (sv_tx E 0))) (scanWaiterRow w)"

lemma ReleaseClaim_cases:
  assumes E: "quiet E" and ok: "claims_ok db" and c: "row_at claims_t i db = Some c"
    and fresh: "at_uuid (sv_tx E 0) 0 \<notin> c_id ` set (db_claims db)"
  defines "db1 \<equiv> end_claims (\<lambda>r. c_id r = i) ClaimStatusReleased (in_UTC (at_now (sv_tx E 0))) db"
  shows "ReleaseClaim E i db = (case waiting db (c_resource c) of
      [] \<Rightarrow> (Inr \<lparr>cr_Released = True, cr_Claim = Some (released_claim E c), cr_Next = None\<rparr>, db1)
    | w # _ \<Rightarrow>
        if holder db1 (c_resource c) = None
        then (Inr \<lparr>cr_Released = True, cr_Claim = Some (released_claim E c), cr_Next = Some (scanWaiterRow w)\<rparr>,
          db1\<lparr>db_claim_queue := filter (\<lambda>y. q_id y \<noteq> q_id w) (db_claim_queue db),
            db_claims := db_claims db1 @ [promotion E w]\<rparr>)
        else (Inl (PgError unique_violation), db))"
proof -
  have A: "calm (sv_tx E 0)" using E by simp
  note body = ReleaseClaim_body [OF A ok c, of "(None, None)", folded db1_def released_claim_def]
  note commit = RetryTx_commit [of "sv_tx E" "ReleaseClaim_tx i" "(None, None)" db, OF A]
  show ?thesis
  proof (cases "waiting db (c_resource c)")
    case Nil
    then show ?thesis using body commit by (auto simp: ReleaseClaim_def)
  next
    case (Cons w ws)
    let ?db2 = "db1\<lparr>db_claim_queue := filter (\<lambda>y. q_id y \<noteq> q_id w) (db_claim_queue db)\<rparr>"
    have wr: "q_resource w = c_resource c" using Cons set_waiting [of db "c_resource c"] by auto
    have fr: "at_uuid (sv_tx E 0) 0 \<notin> c_id ` set (db_claims db1)"
      using fresh by (simp add: db1_def del: image_iff)
    have may: "may_insert claims_t (promotion E w) ?db2 \<longleftrightarrow> holder db1 (c_resource c) = None"
      using fr wr by (simp add: promotion_def may_insert_active)
    show ?thesis
    proof (cases "holder db1 (c_resource c) = None")
      case True
      then show ?thesis
        using body Cons may commit
        by (auto simp: ReleaseClaim_def Let_def promotion_def [symmetric])
    next
      case False
      then obtain t where "ReleaseClaim_tx i (sv_tx E 0) (None, None) (begin_tx db) =
          (Inl (PgError unique_violation), t)"
        using body Cons may by (auto simp: Let_def promotion_def [symmetric])
      then show ?thesis
        using RetryTx_error [of "sv_tx E" "ReleaseClaim_tx i", OF A] False Cons
        by (simp add: ReleaseClaim_def crdbRetryCode_def)
    qed
  qed
qed

lemma holder_row_at: "claims_ok db \<Longrightarrow> holder db r = Some c \<Longrightarrow> row_at claims_t (c_id c) db = Some c"
  using claims.row_at_mem [of db c] by (simp add: claims_ok_def holder_SomeD)

text \<open>\<open>RenewClaim\<close>: only the active claim with that identifier.\<close>

definition renewed :: "gotime \<Rightarrow> gotime \<Rightarrow> claim_row \<Rightarrow> claim_row" where
  "renewed expiresAt now r =
     r\<lparr>c_expires_at := format_RFC3339Nano expiresAt, c_updated_at := format_RFC3339Nano now\<rparr>"

definition renew_db :: "string \<Rightarrow> gotime \<Rightarrow> gotime \<Rightarrow> database \<Rightarrow> database" where
  "renew_db i expiresAt now db = db\<lparr>db_claims := map (\<lambda>r. if c_id r = i \<and> c_status r = ClaimStatusActive
     then renewed expiresAt now r else r) (db_claims db)\<rparr>"

lemma renewed_simps [simp]:
  "c_id (renewed e now r) = c_id r" "c_status (renewed e now r) = c_status r"
  "c_resource (renewed e now r) = c_resource r" "c_expires_at (renewed e now r) = format_RFC3339Nano e"
  by (simp_all add: renewed_def)

lemma RenewClaim_run:
  assumes E: "quiet E" and ok: "claims_ok db"
  shows "RenewClaim E i expiresAt db = (case row_at claims_t i db of
      Some c \<Rightarrow> if c_status c = ClaimStatusActive
        then (Inr (finishClaimScan (renewed expiresAt (in_UTC (at_now (sv_tx E 0))) c)),
              renew_db i expiresAt (in_UTC (at_now (sv_tx E 0))) db)
        else (Inl ErrNotFound, db)
    | None \<Rightarrow> (Inl ErrNotFound, db))"
proof -
  have A: "calm (sv_tx E 0)" using E by simp
  let ?now = "in_UTC (at_now (sv_tx E 0))" and ?P = "\<lambda>r. c_id r = i \<and> c_status r = ClaimStatusActive"
  have upd: "sql_update claims_t ?P (\<lambda>r. r\<lparr>c_expires_at := format_RFC3339Nano expiresAt,
      c_updated_at := format_RFC3339Nano ?now\<rparr>) db =
    (Inr (length (filter ?P (db_claims db))), renew_db i expiresAt ?now db)"
    by (simp add: sql_update_def renew_db_def renewed_def)
  have sel: "filter ?P (db_claims db) = (case row_at claims_t i db of None \<Rightarrow> []
      | Some c \<Rightarrow> if c_status c = ClaimStatusActive then [c] else [])"
  proof -
    have eq: "filter ?P (db_claims db) = filter (\<lambda>r. c_status r = ClaimStatusActive)
        (filter (\<lambda>r. c_id r = i) (db_claims db))" by (simp add: conj_commute)
    show ?thesis
      unfolding eq using claims.select_row_at [of db i] ok
      by (simp add: claims_ok_def del: filter_filter split: option.splits)
  qed
  show ?thesis
  proof (cases "filter ?P (db_claims db)")
    case Nil
    then have "\<exists>t. RenewClaim_tx i expiresAt (sv_tx E 0) () (begin_tx db) = (Inl ErrNotFound, t)"
      using A by (simp add: RenewClaim_tx_def Let_def tx_simps upd)
    then show ?thesis
      using RetryTx_error [of "sv_tx E" "RenewClaim_tx i expiresAt", OF A] sel Nil
      by (fastforce simp: RenewClaim_def split: option.splits if_splits)
  next
    case (Cons c cs)
    then have c: "row_at claims_t i db = Some c" "c_status c = ClaimStatusActive" "cs = []" "c_id c = i"
      using sel claims.row_atD [of i db] by (auto split: option.splits if_splits)
    then have "RenewClaim_tx i expiresAt (sv_tx E 0) () (begin_tx db) =
        (Inr (), (begin_tx db)\<lparr>tx_db := renew_db i expiresAt ?now db, tx_count := Suc 0\<rparr>)"
      using A Cons by (simp add: RenewClaim_tx_def Let_def tx_simps upd)
    then have run: "RetryTx (sv_tx E) (RenewClaim_tx i expiresAt) () db = (Inr (), renew_db i expiresAt ?now db)"
      using RetryTx_commit [of "sv_tx E" "RenewClaim_tx i expiresAt", OF A] by simp
    have "filter (\<lambda>r. c_id r = i) (db_claims db) = [c]"
      using claims.select_row_at [of db i] ok c by (simp add: claims_ok_def)
    moreover have "filter (\<lambda>r. c_id r = i) (map (\<lambda>r. if ?P r then renewed expiresAt ?now r else r) t) =
        map (\<lambda>r. if ?P r then renewed expiresAt ?now r else r) (filter (\<lambda>r. c_id r = i) t)" for t
      by (induction t) auto
    ultimately have "filter (\<lambda>r. c_id r = i) (db_claims (renew_db i expiresAt ?now db)) =
        [renewed expiresAt ?now c]" using c by (simp add: renew_db_def)
    then show ?thesis
      using run c E by (simp add: RenewClaim_def GetClaim_def scanClaimRow_def scan_row_def first_row_def)
  qed
qed

text \<open>Promotion: a free resource goes to the head of its queue.\<close>

definition handed_over :: "gotime \<Rightarrow> database \<Rightarrow> database \<Rightarrow> string \<Rightarrow> bool" where
  "handed_over now db db' r \<longleftrightarrow> waiting db' r = tl (waiting db r) \<and>
     (case waiting db r of [] \<Rightarrow> holder db' r = None
      | w # _ \<Rightarrow> \<exists>u. holder db' r = Some (promoted_row u now (scanWaiterRow w)))"

definition untouched :: "database \<Rightarrow> database \<Rightarrow> string \<Rightarrow> bool" where
  "untouched db db' r \<longleftrightarrow> waiting db' r = waiting db r \<and> holder db' r = holder db r"

lemma promotion_step:
  fixes now :: gotime and s :: string
  assumes "claims_ok db" "waiting db r = w # ws" "holder db r = None" "u \<notin> c_id ` set (db_claims db)"
  defines "db2 \<equiv> db\<lparr>db_claim_queue := filter (\<lambda>y. q_id y \<noteq> q_id w) (db_claim_queue db)\<rparr>"
  defines "p \<equiv> promoted_row u now (scanWaiterRow w)"
  shows "may_insert claims_t p db2"
    and "claims_ok (db2\<lparr>db_claims := db_claims db @ [p]\<rparr>)"
    and "handed_over now db (db2\<lparr>db_claims := db_claims db @ [p]\<rparr>) r"
    and "s \<noteq> r \<Longrightarrow> untouched db (db2\<lparr>db_claims := db_claims db @ [p]\<rparr>) s"
proof -
  have wr: "q_resource w = r" using assms(2) set_waiting [of db r] by auto
  have d2: "db_claims db2 = db_claims db" "\<And>s. holder db2 s = holder db s" by (simp_all add: db2_def)
  have w2: "waiting db2 s = (if s = r then ws else waiting db s)" for s
    using waiting_pop [OF _ assms(2)] assms(1) by (simp add: claims_ok_def db2_def)
  have ok2: "claims_ok db2" using assms(1) by (simp add: db2_def claims_ok_pop)
  show may: "may_insert claims_t p db2"
    using assms(3,4) wr d2 by (simp add: p_def may_insert_active)
  show "claims_ok (db2\<lparr>db_claims := db_claims db @ [p]\<rparr>)"
    using claims_ok_insert [OF ok2 may] d2 by simp
  have h: "holder (db2\<lparr>db_claims := db_claims db @ [p]\<rparr>) s = (if s = r then Some p else holder db s)" for s
    using holder_insert [of db2 p s] d2 assms(3) wr by (auto simp: p_def split: option.splits)
  show "handed_over now db (db2\<lparr>db_claims := db_claims db @ [p]\<rparr>) r"
    using h w2 assms(2) by (auto simp: handed_over_def p_def)
  show "s \<noteq> r \<Longrightarrow> untouched db (db2\<lparr>db_claims := db_claims db @ [p]\<rparr>) s"
    using h w2 by (simp add: untouched_def)
qed

lemma release_handover:
  assumes "quiet E" "claims_ok db" "holder db r = Some c"
    and "at_uuid (sv_tx E 0) 0 \<notin> c_id ` set (db_claims db)"
  shows "\<exists>db'. ReleaseClaim E (c_id c) db =
      (Inr \<lparr>cr_Released = True, cr_Claim = Some (released_claim E c),
         cr_Next = (case waiting db r of [] \<Rightarrow> None | w # _ \<Rightarrow> Some (scanWaiterRow w))\<rparr>, db') \<and>
    claims_ok db' \<and> handed_over (in_UTC (at_now (sv_tx E 0))) db db' r \<and>
    (\<forall>s. s \<noteq> r \<longrightarrow> untouched db db' s)"
proof -
  define now where "now = in_UTC (at_now (sv_tx E 0))"
  define db1 where "db1 = end_claims (\<lambda>r. c_id r = c_id c) ClaimStatusReleased now db"
  have c: "c_resource c = r" "row_at claims_t (c_id c) db = Some c"
    using assms(2,3) by (simp_all add: holder_row_at holder_SomeD)
  have ok1: "claims_ok db1" using assms(2) by (simp add: db1_def end_claims_ok)
  have w1: "waiting db1 s = waiting db s" for s by (simp add: db1_def)
  have h1: "holder db1 s = (if s = r then None else holder db s)" for s
  proof -
    have "b = c" if "holder db s = Some b" "c_id b = c_id c" for b
      using holder_row_at [OF assms(2) that(1)] that(2) c(2) by simp
    then show ?thesis
      using assms(3) c holder_SomeD [of db s]
      by (auto simp: db1_def holder_end_claims [OF assms(2)] split: option.splits)
  qed
  have fr: "at_uuid (sv_tx E 0) 0 \<notin> c_id ` set (db_claims db1)"
    using assms(4) by (simp add: db1_def del: image_iff)
  note run = ReleaseClaim_cases [OF assms(1,2) c(2) assms(4), folded now_def, folded db1_def,
      unfolded c(1)]
  show ?thesis
  proof (cases "waiting db r")
    case Nil
    then show ?thesis using run ok1 h1 w1 by (auto simp: handed_over_def untouched_def)
  next
    case (Cons w ws)
    note step = promotion_step [OF ok1 _ _ fr, where now = now and r = r and w = w and ws = ws]
    have "untouched db db' s" if "untouched db1 db' s" "s \<noteq> r" for db' s
      using that h1 w1 by (simp add: untouched_def)
    moreover have "handed_over now db db' r" if "handed_over now db1 db' r" for db'
      using that w1 by (simp add: handed_over_def)
    ultimately show ?thesis
      using run step h1 w1 Cons
      by (fastforce simp: promotion_def now_def [symmetric] db1_def)
  qed
qed

lemma handed_over_cong:
  "waiting db1 r = waiting db r \<Longrightarrow> handed_over now db1 db' r = handed_over now db db' r"
  "untouched db1 db' r \<Longrightarrow> handed_over now db db1 r \<Longrightarrow> handed_over now db db' r"
  "untouched db db1 r \<Longrightarrow> untouched db1 db' r \<Longrightarrow> untouched db db' r"
  by (auto simp: handed_over_def untouched_def split: list.splits)

lemma handed_over_step:
  assumes "handed_over now db db1 r" "\<And>s. s \<noteq> r \<Longrightarrow> untouched db db1 s" "r \<notin> set rs"
    and "\<And>s. if s \<in> set rs then handed_over now db1 db2 s else untouched db1 db2 s"
  shows "if s \<in> set (r # rs) then handed_over now db db2 s else untouched db db2 s"
proof (cases "s = r")
  case True
  then have "untouched db1 db2 r" using assms(4) [of r] assms(3) by simp
  from handed_over_cong(2) [OF this assms(1)] True show ?thesis by simp
next
  case False
  then have u: "untouched db db1 s" by (rule assms(2))
  then have w: "waiting db1 s = waiting db s" by (simp add: untouched_def)
  show ?thesis
    using assms(4) [of s] False handed_over_cong(1) [OF w] handed_over_cong(3) [OF u]
    by (cases "s \<in> set rs") simp_all
qed

lemma promote_each_run:
  assumes "calm A" "inj (at_uuid A)"
  shows "\<not> tx_aborted t \<Longrightarrow> claims_ok (tx_db t) \<Longrightarrow> distinct rs \<Longrightarrow>
    (\<And>r. r \<in> set rs \<Longrightarrow> holder (tx_db t) r = None) \<Longrightarrow>
    (\<And>j. k \<le> j \<Longrightarrow> at_uuid A j \<notin> c_id ` set (db_claims (tx_db t))) \<Longrightarrow>
    \<exists>t'. promote_each A now k rs t = (Inr (), t') \<and> \<not> tx_aborted t' \<and> claims_ok (tx_db t') \<and>
      (\<forall>r. if r \<in> set rs then handed_over now (tx_db t) (tx_db t') r else untouched (tx_db t) (tx_db t') r)"
proof (induction rs arbitrary: k t)
  case Nil
  then show ?case by (simp add: tx_simps untouched_def)
next
  case (Cons r rs)
  let ?db = "tx_db t"
  note prems = Cons.prems
  have q: "queue_ok ?db" using prems(2) by (simp add: claims_ok_def)
  note pop = PopNextWaiter_run [OF assms(1) prems(1) q, of r]
  obtain t1 where eq: "promote_each A now k (r # rs) t = promote_each A now (Suc k) rs t1" "\<not> tx_aborted t1"
    and ok: "claims_ok (tx_db t1)"
    and first: "handed_over now ?db (tx_db t1) r" "\<And>s. s \<noteq> r \<Longrightarrow> untouched ?db (tx_db t1) s"
    and fr: "\<And>j. Suc k \<le> j \<Longrightarrow> at_uuid A j \<notin> c_id ` set (db_claims (tx_db t1))"
  proof (cases "waiting ?db r")
    case Nil
    then obtain n where "PopNextWaiter A r t = (Inr None, t\<lparr>tx_count := n\<rparr>)" using pop by auto
    then show ?thesis
      by (intro that [of "t\<lparr>tx_count := n\<rparr>"])
        (use prems Nil in \<open>simp_all add: tx_simps handed_over_def untouched_def\<close>)
  next
    case (Cons w ws)
    let ?p = "promoted_row (at_uuid A k) now (scanWaiterRow w)"
    let ?db2 = "?db\<lparr>db_claim_queue := filter (\<lambda>y. q_id y \<noteq> q_id w) (db_claim_queue ?db)\<rparr>"
    have "holder ?db r = None" "at_uuid A k \<notin> c_id ` set (db_claims ?db)" using prems by auto
    note step = promotion_step [OF prems(2) Cons this, where now = now]
    obtain n where "PopNextWaiter A r t = (Inr (Some (scanWaiterRow w)), t\<lparr>tx_db := ?db2, tx_count := n\<rparr>)"
      using pop Cons by auto
    moreover have "at_uuid A j \<noteq> at_uuid A k" if "Suc k \<le> j" for j using injD [OF assms(2), of j k] that by auto
    ultimately show ?thesis
      by (intro that [of "t\<lparr>tx_db := ?db2\<lparr>db_claims := db_claims ?db @ [?p]\<rparr>, tx_count := Suc n\<rparr>"])
        (use assms(1) prems step in \<open>auto simp: tx_simps sql_insert_def\<close>)
  qed
  have "holder (tx_db t1) s = None" if "s \<in> set rs" for s
    using first(2) [of s] prems(3,4) that by (auto simp: untouched_def)
  then obtain t' where t': "promote_each A now (Suc k) rs t1 = (Inr (), t')" "\<not> tx_aborted t'" "claims_ok (tx_db t')"
    "\<And>s. if s \<in> set rs then handed_over now (tx_db t1) (tx_db t') s else untouched (tx_db t1) (tx_db t') s"
    using Cons.IH [OF eq(2) ok, of "Suc k"] fr prems(3) by auto
  then show ?case using handed_over_step [OF first _ t'(4)] eq(1) prems(3) by auto
qed

lemma overdue_resources:
  assumes "claims_ok db"
  shows "r \<in> set (remdups (map c_resource (filter (overdue nowt) (db_claims db)))) \<longleftrightarrow>
    (\<exists>c. holder db r = Some c \<and> overdue nowt c)"
  using holder_iff [OF assms] by (auto simp: overdue_def image_iff)

lemma expire_handover:
  assumes E: "quiet E" and ok: "claims_ok db"
    and fresh: "inj (at_uuid (sv_tx E 0))" "\<And>j. at_uuid (sv_tx E 0) j \<notin> c_id ` set (db_claims db)"
  defines "now \<equiv> in_UTC (at_now (sv_tx E 0))"
  defines "swept \<equiv> db\<lparr>db_claim_queue := filter (\<lambda>w. \<not> stale_waiter now w) (db_claim_queue db)\<rparr>"
  shows "\<exists>db'. ExpireOldClaims E db =
      (Inr (int (length (filter (overdue (format_RFC3339Nano now)) (db_claims db)))), db') \<and> claims_ok db' \<and>
    (\<forall>r. if \<exists>c. holder db r = Some c \<and> overdue (format_RFC3339Nano now) c
         then handed_over now swept db' r else untouched swept db' r)"
proof -
  define nowt where "nowt = format_RFC3339Nano now"
  define A where "A = sv_tx E 0"
  define rs where "rs = remdups (map c_resource (filter (overdue nowt) (db_claims db)))"
  define db1 where "db1 = end_claims (overdue nowt) ClaimStatusExpired now swept"
  have A: "calm A" using E by (simp add: A_def)
  have q: "queue_ok (tx_db (begin_tx db))" using ok by (simp add: claims_ok_def)
  have oks: "claims_ok swept" using ok by (simp add: swept_def claims_ok_pop)
  have ok1: "claims_ok db1" using oks by (simp add: db1_def end_claims_ok)
  have hs: "holder swept r = holder db r" for r by (simp add: swept_def)
  have cs: "db_claims swept = db_claims db" by (simp add: swept_def)
  have rs: "r \<in> set rs \<longleftrightarrow> (\<exists>c. holder db r = Some c \<and> overdue nowt c)" for r
    using overdue_resources [OF ok] by (simp add: rs_def)
  have h1: "holder db1 r = (if r \<in> set rs then None else holder swept r)" for r
    using holder_end_claims [OF oks, of ClaimStatusExpired "overdue nowt" now r] rs [of r]
    by (auto simp: db1_def hs split: option.splits)
  have w1: "waiting db1 r = waiting swept r" for r by (simp add: db1_def)
  have upd: "sql_update claims_t (overdue nowt) (\<lambda>r. r\<lparr>c_status := ClaimStatusExpired, c_updated_at := nowt\<rparr>) swept =
      (Inr (length (filter (overdue nowt) (db_claims db))), db1)"
    by (simp add: sql_update_def db1_def end_claims_def ended_def nowt_def cs)
  obtain n where sw: "sweepExpiredWaiters A now (begin_tx db) =
      (Inr (), (begin_tx db)\<lparr>tx_count := n, tx_db := swept\<rparr>)"
    using sweep_run [OF A _ q, of now] by (auto simp: swept_def)
  have d: "tx_db ((begin_tx db)\<lparr>tx_db := db1, tx_count := Suc (Suc n)\<rparr>) = db1" by simp
  have fr: "at_uuid A j \<notin> c_id ` set (db_claims db1)" for j
    using fresh(2) [of j] cs by (simp add: A_def db1_def del: image_iff)
  have dr: "distinct rs" by (simp add: rs_def)
  obtain t' where t': "promote_each A now 0 rs ((begin_tx db)\<lparr>tx_db := db1, tx_count := Suc (Suc n)\<rparr>) = (Inr (), t')"
    "\<not> tx_aborted t'" "claims_ok (tx_db t')"
    "\<And>r. if r \<in> set rs then handed_over now db1 (tx_db t') r else untouched db1 (tx_db t') r"
    using promote_each_run [OF A fresh(1) [folded A_def],
        of "(begin_tx db)\<lparr>tx_db := db1, tx_count := Suc (Suc n)\<rparr>" rs 0 now, unfolded d] ok1 h1 fr dr by auto
  have nowA: "in_UTC (at_now A) = now" by (simp add: now_def A_def)
  have body: "ExpireOldClaims_tx A 0 (begin_tx db) =
      (Inr (int (length (filter (overdue nowt) (db_claims db)))), t')"
    unfolding ExpireOldClaims_tx_def Let_def nowA nowt_def [symmetric]
    using A sw t'(1) by (simp add: tx_simps select_overdue_def upd rs_def cs)
  have run: "ExpireOldClaims E db =
      (Inr (int (length (filter (overdue nowt) (db_claims db)))), tx_db t')"
    using RetryTx_commit [of "sv_tx E" ExpireOldClaims_tx, OF _ body [unfolded A_def] t'(2)] A
    by (simp add: ExpireOldClaims_def A_def)
  have "if r \<in> set rs then handed_over now swept (tx_db t') r else untouched swept (tx_db t') r" for r
    using t'(4) [of r] w1 h1 [of r] handed_over_cong(1) [of db1 r swept now] by (auto simp: untouched_def)
  then show ?thesis
    using run t'(3) rs unfolding nowt_def by auto
qed

section \<open>Whatever the environment does\<close>

lemma claim_ops_db_ok:
  assumes "others_keep db_ok E" "db_ok db"
  shows "db_ok (snd (CreateClaim E c db))" "db_ok (snd (ReleaseClaim E i db))"
    and "db_ok (snd (RenewClaim E i t db))" "db_ok (snd (ExpireOldClaims E db))"
    and "db_ok (snd (GetClaim E i db))" "db_ok (snd (ListClaims E f db))"
proof -
  note keep = others_keepD [OF assms(1)]
  show "db_ok (snd (CreateClaim E c db))"
    using create_claim.RetryTx_inv [of "sv_tx E" db "new_claim E c" "in_UTC (sv_now E 0)" "()"] keep assms(2)
    by (auto simp: CreateClaim_def Let_def split: prod.splits sum.splits)
  show "db_ok (snd (ReleaseClaim E i db))"
    using release_claim.RetryTx_inv [of "sv_tx E" db i "(None, None)"] keep assms(2)
    by (auto simp: ReleaseClaim_def split: prod.splits sum.splits)
  have get: "db_ok d \<Longrightarrow> db_ok (snd (GetClaim E i d))" for d
    using keep by (auto simp: GetClaim_def dest: query_dbD split: prod.splits)
  then show "db_ok (snd (GetClaim E i db))" using assms(2) .
  show "db_ok (snd (RenewClaim E i t db))"
    using renew_claim.RetryTx_inv [of "sv_tx E" db i t "()"] keep assms(2) get
    by (auto simp: RenewClaim_def split: prod.splits sum.splits)
  show "db_ok (snd (ExpireOldClaims E db))"
    using expire_claims.RetryTx_inv [of "sv_tx E" db 0] keep assms(2) by (simp add: ExpireOldClaims_def)
  show "db_ok (snd (ListClaims E f db))"
    using keep assms(2) by (auto simp: ListClaims_def dest: query_dbD split: prod.splits sum.splits)
qed

lemma CreateClaim_holds:
  assumes "others_keep db_ok E" "db_ok db" "CreateClaim E c db = (Inr c', db')"
  shows "c' = new_claim E c \<and> db_ok db' \<and>
    holder db' (cl_Resource c) = Some (claim_insert_row c' (in_UTC (sv_now E 0)))"
proof -
  let ?now = "in_UTC (sv_now E 0)" and ?c = "new_claim E c"
  obtain u where run: "RetryTx (sv_tx E) (CreateClaim_tx ?c ?now) () db = (Inr u, db')"
    and c': "c' = ?c"
    using assms(3) by (auto simp: CreateClaim_def Let_def split: prod.splits sum.splits if_splits)
  have body: "db_ok (tx_db t) \<and> holder (tx_db t) (cl_Resource c) = Some (claim_insert_row ?c ?now)"
    if "db_ok d" "CreateClaim_tx ?c ?now (sv_tx E k) u' (begin_tx d) = (Inr u'', t)" for k d u' u'' t
  proof -
    have ex: "sql_insert claims_t (claim_insert_row ?c ?now) d = (Inr u'', tx_db t)" "\<not> tx_aborted t"
      using tx_exec_Inr that(2) by (fastforce simp: CreateClaim_tx_def)+
    then have t: "may_insert claims_t (claim_insert_row ?c ?now) d"
      "tx_db t = d\<lparr>db_claims := db_claims d @ [claim_insert_row ?c ?now]\<rparr>"
      by (auto simp: sql_insert_def split: if_splits)
    moreover have "db_ok (tx_db t)" using create_claim.body_inv [OF that] ex(2) by simp
    ultimately show ?thesis by (simp add: may_insert_active holder_insert)
  qed
  have "case (Inr u :: goerr + unit) of Inl e \<Rightarrow> \<exists>c::unit. db_ok db'
    | Inr u \<Rightarrow> db_ok db' \<and> holder db' (cl_Resource c) = Some (claim_insert_row ?c ?now)"
    by (rule RetryTx_rule [where I = "\<lambda>_. db_ok" and fn = "CreateClaim_tx ?c ?now" and env = "sv_tx E"
          and Q = "\<lambda>_ d. db_ok d \<and> holder d (cl_Resource c) = Some (claim_insert_row ?c ?now)",
          OF _ _ _ _ assms(2) run])
      (use body others_keepD(1) [OF assms(1)] in auto)
  then show ?thesis using c' by simp
qed

section \<open>What claims promise\<close>

text \<open>A small database for concrete runs: ann holds the resource until second 60, bob waits since second 50.\<close>

definition demo_claim_row :: "string \<Rightarrow> string \<Rightarrow> string \<Rightarrow> claim_row" where
  "demo_claim_row i who status = \<lparr>c_id = i, c_type = ClaimTypeIssue, c_resource = ''repo'', c_agent_id = who,
     c_status = status, c_metadata = JObj [], c_session = no_session,
     c_claimed_at = format_RFC3339Nano (demo_time 0),
     c_expires_at = format_RFC3339Nano (demo_time (60 * Second)),
     c_updated_at = format_RFC3339Nano (demo_time 0)\<rparr>"

definition demo_db :: database where
  "demo_db = empty_db\<lparr>
     db_claims := [demo_claim_row ''c0'' ''zoe'' ClaimStatusExpired, demo_claim_row ''c1'' ''ann'' ClaimStatusActive],
     db_claim_queue := [waiter_row (demo_waiter ''bob'') (demo_time (50 * Second))]\<rparr>"

lemma demo_db_facts:
  "claims_ok demo_db" "holder demo_db ''repo'' = Some (demo_claim_row ''c1'' ''ann'' ClaimStatusActive)"
  "waiting demo_db ''repo'' = [waiter_row (demo_waiter ''bob'') (demo_time (50 * Second))]"
  "c_id ` set (db_claims demo_db) = {''c0'', ''c1''}"
  by (simp_all add: demo_db_def claims_ok_def table_ok_def queue_ok_def uniq_keys_def List.map_filter_simps
      demo_claim_row_def holder_def waiting_def order_asc_def demo_waiter_def empty_db_def)

text \<open>
  C2. Exclusiveness, whatever the environment does: when \<open>CreateClaim\<close> returns a claim, after any
  number of failed attempts and with other sessions at work, that claim is the one active claim of its
  resource in the database it leaves.
\<close>

theorem create_claim_exclusive:
  assumes "others_keep db_ok E" "db_ok db" "CreateClaim E c db = (Inr c', db')"
  shows "holder db' (cl_Resource c) = Some (claim_insert_row c' (in_UTC (sv_now E 0))) \<and>
    filter (\<lambda>r. c_status r = ClaimStatusActive \<and> c_resource r = cl_Resource c) (db_claims db') =
      [claim_insert_row c' (in_UTC (sv_now E 0))] \<and> c' = new_claim E c \<and> db_ok db'"
proof -
  note h = CreateClaim_holds [OF assms]
  then have ok: "claims_ok db'" by (simp add: db_ok_claims_ok)
  have x: "claim_insert_row c' (in_UTC (sv_now E 0)) \<in> set (db_claims db')"
    "c_status (claim_insert_row c' (in_UTC (sv_now E 0))) = ClaimStatusActive"
    "c_resource (claim_insert_row c' (in_UTC (sv_now E 0))) = cl_Resource c"
    using h holder_SomeD by auto
  have "distinct (db_claims db')" using ok by (auto simp: claims_ok_def table_ok_def distinct_map)
  then have "filter (\<lambda>r. r = claim_insert_row c' (in_UTC (sv_now E 0))) (db_claims db') =
      [claim_insert_row c' (in_UTC (sv_now E 0))]"
    using filter_key_unique [of "\<lambda>r. r" "db_claims db'"] x(1) by simp
  moreover have "filter (\<lambda>r. c_status r = ClaimStatusActive \<and> c_resource r = cl_Resource c) (db_claims db') =
      filter (\<lambda>r. r = claim_insert_row c' (in_UTC (sv_now E 0))) (db_claims db')"
  proof (rule filter_cong [OF refl])
    fix r assume "r \<in> set (db_claims db')"
    then show "(c_status r = ClaimStatusActive \<and> c_resource r = cl_Resource c) =
        (r = claim_insert_row c' (in_UTC (sv_now E 0)))"
      using holder_iff [OF ok, of "cl_Resource c" r] h by (metis option.inject)
  qed
  ultimately show ?thesis using h by simp
qed

definition demo_claim :: "string \<Rightarrow> Claim" where
  "demo_claim who = \<lparr>cl_ID = [], cl_Type = ClaimTypeIssue, cl_Resource = ''repo'', cl_AgentID = who,
     cl_Status = [], cl_Metadata = None, cl_Session = no_session, cl_ClaimedAt = zero_time,
     cl_ExpiresAt = demo_time (60 * Second), cl_UpdatedAt = zero_time\<rparr>"

lemma empty_db_ok: "db_ok empty_db"
  by (simp add: db_ok_def notes_ok_def table_ok_def uniq_keys_def List.map_filter_simps empty_db_def)

theorem create_claim_exclusive_witness:
  "map c_agent_id (filter (\<lambda>r. c_status r = ClaimStatusActive \<and> c_resource r = ''repo'')
     (db_claims (snd (CreateClaim (quiet_senv (demo_time 0) ''c1'') (demo_claim ''ann'') empty_db)))) = [''ann'']"
proof -
  obtain c' db' where run: "CreateClaim (quiet_senv (demo_time 0) ''c1'') (demo_claim ''ann'') empty_db = (Inr c', db')"
    by (simp add: CreateClaim_run empty_db_def holder_def)
  show ?thesis
    using create_claim_exclusive [OF quiet_others_keep empty_db_ok run] run
    by (simp add: demo_claim_def new_claim_def Let_def)
qed

text \<open>
  C9. Handover.  Releasing the active claim of a resource succeeds, reports the released claim and the
  first waiter, and in the same step makes that waiter the holder and takes it off the queue; with an
  empty queue the resource becomes free.  No other resource is touched.
\<close>

theorem release_hands_over:
  assumes "quiet E" "claims_ok db" "holder db r = Some c"
    and "at_uuid (sv_tx E 0) 0 \<notin> c_id ` set (db_claims db)"
  shows "\<exists>db'. ReleaseClaim E (c_id c) db =
      (Inr \<lparr>cr_Released = True, cr_Claim = Some (released_claim E c),
         cr_Next = (case waiting db r of [] \<Rightarrow> None | w # _ \<Rightarrow> Some (scanWaiterRow w))\<rparr>, db') \<and>
    claims_ok db' \<and> handed_over (in_UTC (at_now (sv_tx E 0))) db db' r \<and>
    (\<forall>s. s \<noteq> r \<longrightarrow> untouched db db' s)"
  using assms by (rule release_handover)

theorem release_hands_over_witness:
  "map_option c_agent_id (holder (snd (ReleaseClaim (quiet_senv (demo_time Second) ''c2'') ''c1'' demo_db)) ''repo'') =
     Some ''bob'' \<and>
   waiting (snd (ReleaseClaim (quiet_senv (demo_time Second) ''c2'') ''c1'' demo_db)) ''repo'' = []"
proof -
  let ?E = "quiet_senv (demo_time Second) ''c2''"
  have i: "c_id (demo_claim_row ''c1'' ''ann'' ClaimStatusActive) = ''c1''" by (simp add: demo_claim_row_def)
  have fresh: "at_uuid (sv_tx ?E 0) 0 \<notin> c_id ` set (db_claims demo_db)"
    unfolding demo_db_facts by simp
  have "handed_over (in_UTC (at_now (sv_tx ?E 0))) demo_db (snd (ReleaseClaim ?E ''c1'' demo_db)) ''repo''"
    using release_hands_over [OF quiet_senv_simps(2) demo_db_facts(1,2) fresh] unfolding i
    by (elim exE conjE) (simp only: snd_conv)
  then show ?thesis
    by (auto simp: handed_over_def demo_db_facts(3) demo_waiter_def waiter_row_def)
qed

text \<open>
  C36. \<open>ReleaseClaim\<close> does not ask whether the claim is active.  For a claim that expired or was released
  before, on a resource that another claim holds by now, it tries to promote the first waiter all the
  same: the unique index refuses the second active claim, the caller gets that error, and nothing
  changes.
\<close>

theorem release_of_ended_claim_fails:
  assumes "quiet E" "claims_ok db" "row_at claims_t i db = Some c" "c_status c \<noteq> ClaimStatusActive"
    and "holder db (c_resource c) = Some h" "waiting db (c_resource c) \<noteq> []"
    and "at_uuid (sv_tx E 0) 0 \<notin> c_id ` set (db_claims db)"
  shows "ReleaseClaim E i db = (Inl (PgError unique_violation), db)"
proof -
  have "c_id h \<noteq> i"
    using assms(3,4,5) holder_row_at [OF assms(2,5)] holder_SomeD [OF assms(5)] by auto
  then show ?thesis
    using ReleaseClaim_cases [OF assms(1,2,3,7)] assms(5,6)
    by (auto simp: holder_end_claims [OF assms(2)] split: list.splits)
qed

theorem release_of_ended_claim_fails_witness:
  "ReleaseClaim (quiet_senv (demo_time Second) ''c2'') ''c0'' demo_db = (Inl (PgError unique_violation), demo_db)"
proof -
  have "row_at claims_t ''c0'' demo_db = Some (demo_claim_row ''c0'' ''zoe'' ClaimStatusExpired)"
    by (simp add: row_at_def demo_db_def demo_claim_row_def)
  then show ?thesis
    using release_of_ended_claim_fails [of "quiet_senv (demo_time Second) ''c2''" demo_db "''c0''"
        "demo_claim_row ''c0'' ''zoe'' ClaimStatusExpired"] demo_db_facts
    by (simp add: demo_claim_row_def)
qed

text \<open>
  C20. Expiry.  One undisturbed run of \<open>ExpireOldClaims\<close> returns the number of active claims whose expiry
  text lies before the clock's, drops the waiters whose own time is up, and hands every resource it
  freed to its first remaining waiter; all other resources keep their holder.
\<close>

theorem expire_hands_over:
  assumes "quiet E" "claims_ok db" "inj (at_uuid (sv_tx E 0))"
    and "\<And>j. at_uuid (sv_tx E 0) j \<notin> c_id ` set (db_claims db)"
    and now: "now = in_UTC (at_now (sv_tx E 0))"
    and swept: "swept = db\<lparr>db_claim_queue := filter (\<lambda>w. \<not> stale_waiter now w) (db_claim_queue db)\<rparr>"
  shows "\<exists>db'. ExpireOldClaims E db =
      (Inr (int (length (filter (overdue (format_RFC3339Nano now)) (db_claims db)))), db') \<and> claims_ok db' \<and>
    (\<forall>r. if \<exists>c. holder db r = Some c \<and> overdue (format_RFC3339Nano now) c
         then handed_over now swept db' r else untouched swept db' r)"
  unfolding now swept using assms(1-4) by (rule expire_handover)

lemma demo_sweep:
  "filter (\<lambda>w. \<not> stale_waiter (in_UTC (demo_time (70 * Second))) w) (db_claim_queue demo_db) = db_claim_queue demo_db"
  "overdue (format_RFC3339Nano (in_UTC (demo_time (70 * Second)))) (demo_claim_row ''c1'' ''ann'' ClaimStatusActive)"
  by (code_simp, code_simp)

theorem expire_hands_over_witness:
  "map_option c_agent_id (holder (snd (ExpireOldClaims (quiet_senv (demo_time (70 * Second)) ''c2'') demo_db)) ''repo'') =
     Some ''bob''"
proof -
  let ?E = "quiet_senv (demo_time (70 * Second)) ''c2''" and ?now = "in_UTC (demo_time (70 * Second))"
  have swept: "demo_db = demo_db\<lparr>db_claim_queue := filter (\<lambda>w. \<not> stale_waiter ?now w) (db_claim_queue demo_db)\<rparr>"
    unfolding demo_sweep by simp
  have now: "?now = in_UTC (at_now (sv_tx ?E 0))" by simp
  have inj: "inj (at_uuid (sv_tx ?E 0))" by simp
  have fresh: "at_uuid (sv_tx ?E 0) j \<notin> c_id ` set (db_claims demo_db)" for j
    unfolding demo_db_facts by simp
  obtain db' where "snd (ExpireOldClaims ?E demo_db) = db'" "handed_over ?now demo_db db' ''repo''"
    using expire_hands_over [OF quiet_senv_simps(2) demo_db_facts(1) inj fresh now swept] demo_db_facts(2)
      demo_sweep(2) by (metis snd_conv)
  then show ?thesis
    using demo_db_facts(3) by (auto simp: handed_over_def demo_waiter_def waiter_row_def)
qed

text \<open>
  How far the comparison of texts can be from the comparison of times: a claim is never expired a
  full second before its expiry, and always when a full second has passed.
\<close>

theorem overdue_within_a_second:
  assumes "utc_ok now" "utc_ok e" "c_status c = ClaimStatusActive" "c_expires_at c = format_RFC3339Nano e"
  shows "(overdue (format_RFC3339Nano now) c \<longrightarrow> instant e < instant now + Second) \<and>
    (instant e + Second \<le> instant now \<longrightarrow> overdue (format_RFC3339Nano now) c)"
  using format_less_second [OF assms(2,1)] assms(3,4) by (auto simp: overdue_def)

theorem overdue_within_a_second_witness:
  "overdue (format_RFC3339Nano (demo_time (70 * Second))) (demo_claim_row ''c1'' ''ann'' ClaimStatusActive)"
proof -
  have u: "utc_ok (demo_time (70 * Second))" "utc_ok (demo_time (60 * Second))" by (code_simp, code_simp)
  have "instant (demo_time (60 * Second)) + Second \<le> instant (demo_time (70 * Second))"
    by (simp add: demo_time_def Second_def)
  then show ?thesis
    using overdue_within_a_second [OF u, of "demo_claim_row ''c1'' ''ann'' ClaimStatusActive"]
    by (simp add: demo_claim_row_def)
qed

text \<open>
  The second matters: a claim that is valid for another half second counts as overdue when the
  clock reads a whole second, because the text of the whole second sorts last within it.
\<close>

theorem expired_half_a_second_early:
  "let c = (demo_claim_row ''c1'' ''ann'' ClaimStatusActive)
         \<lparr>c_expires_at := format_RFC3339Nano (demo_time (60 * Second + Second div 2))\<rparr>
   in time_after (demo_time (60 * Second + Second div 2)) (demo_time (60 * Second)) \<and>
      overdue (format_RFC3339Nano (demo_time (60 * Second))) c"
  by code_simp




text \<open>
  Creating and reading back.  On a free resource \<open>CreateClaim\<close> returns the claim active with its
  identifier and times, and \<open>GetClaim\<close> then reads the same claim (a nil metadata map comes back
  empty); on a held resource it returns the conflict and leaves the database alone.
\<close>

theorem create_then_get_claim:
  assumes "quiet E" "quiet E'" "claims_ok db" "sv_uuid E \<notin> c_id ` set (db_claims db)"
    and "utc_ok (in_UTC (sv_now E 0))" "col_time (cl_ExpiresAt c)"
  shows "case holder db (cl_Resource c) of
      Some _ \<Rightarrow> CreateClaim E c db = (Inl ErrConflict, db)
    | None \<Rightarrow> \<exists>db'. CreateClaim E c db = (Inr (new_claim E c), db') \<and>
        GetClaim E' (sv_uuid E) db' =
          (Inr ((new_claim E c)\<lparr>cl_Metadata := Some (elems (cl_Metadata c))\<rparr>), db')"
proof (cases "holder db (cl_Resource c)")
  case None
  let ?x = "claim_insert_row (new_claim E c) (in_UTC (sv_now E 0))"
  have "filter (\<lambda>r. c_id r = sv_uuid E) (db_claims db) = []"
    using assms(4) by (rule filter_key_none)
  then have "GetClaim E' (sv_uuid E) (db\<lparr>db_claims := db_claims db @ [?x]\<rparr>) =
      (Inr (finishClaimScan ?x), db\<lparr>db_claims := db_claims db @ [?x]\<rparr>)"
    using assms(2) by (simp add: GetClaim_def first_row_def scanClaimRow_def scan_row_def)
  moreover have "finishClaimScan ?x = (new_claim E c)\<lparr>cl_Metadata := Some (elems (cl_Metadata c))\<rparr>"
    using assms(5,6) by (cases c) (simp add: finishClaimScan_def claim_insert_row_def new_claim_def Let_def)
  ultimately show ?thesis
    using None CreateClaim_run [OF assms(1,4), of c] by simp
qed (use CreateClaim_run [OF assms(1,4), of c] in simp)

theorem create_then_get_claim_witness:
  "case GetClaim (quiet_senv (demo_time 0) []) ''c2''
      (snd (CreateClaim (quiet_senv (demo_time 0) ''c2'') (demo_claim ''eve'') empty_db)) of
     (Inl e, _) \<Rightarrow> False
   | (Inr c, _) \<Rightarrow> cl_AgentID c = ''eve'' \<and> cl_Status c = ClaimStatusActive \<and>
       cl_Metadata c = Some [] \<and> cl_ExpiresAt c = demo_time (60 * Second)"
proof -
  have u: "utc_ok (demo_time (60 * Second))" "utc_ok (in_UTC (demo_time 0))" by (code_simp, code_simp)
  have ok: "claims_ok empty_db" using db_ok_claims_ok [OF empty_db_ok] .
  have n: "holder empty_db r = None" for r by (simp add: holder_def empty_db_def)
  have "sv_uuid (quiet_senv (demo_time 0) ''c2'') \<notin> c_id ` set (db_claims empty_db)"
    by (simp add: empty_db_def)
  from create_then_get_claim [OF quiet_senv_simps(2) quiet_senv_simps(2) ok this,
      of "demo_claim ''eve''" "demo_time 0" "[]"] u n show ?thesis
    by (auto simp: demo_claim_def new_claim_def Let_def)
qed

end
