(* ===== verification/ClaimApi.thy ===== *)
theory ClaimApi
  imports Http GoDuration ClaimStore
begin

text \<open>
  \<^verbatim>\<open>internal/handlers/claims.go\<close>.  A handler makes one or two calls of the store, each in an
  environment of its own, and reads the clock itself (\<open>hnow\<close>); \<open>rnd\<close> is the rounding of \<^verbatim>\<open>float64\<close>.
\<close>

section \<open>The code\<close>

record claimCreateInput =
  cci_XAgentID :: string
  cci_Type :: ClaimType
  cci_Resource :: string
  cci_ExpiresIn :: string
  cci_Metadata :: gomap

record claimReleaseInput =
  cri_XAgentID :: string
  cri_ID :: string

record claimRenewInput =
  cni_XAgentID :: string
  cni_ID :: string
  cni_ExpiresIn :: string

text \<open>The response of a create: 201 with the claim, or 202 with the place in the queue.\<close>

record claimCreateOutput =
  cco_Status :: int
  cco_Claim :: "Claim option"
  cco_Queued :: "bool option"
  cco_Position :: "int option"
  cco_WaiterID :: string

text \<open>\<^verbatim>\<open>expires_in\<close>, an hour when absent.\<close>

definition claim_duration :: "(rat \<Rightarrow> rat) \<Rightarrow> string \<Rightarrow> duration reply" where
  "claim_duration rnd s =
     (if s \<noteq> []
      then (case ParseDuration rnd s of
              None \<Rightarrow> Inl (http_err 422 ''invalid expires_in duration'')
            | Some parsed \<Rightarrow> Inr parsed)
      else Inr Hour)"

definition create_claim_of :: "Context \<Rightarrow> gotime \<Rightarrow> claimCreateInput \<Rightarrow> duration \<Rightarrow> Claim" where
  "create_claim_of ctx hnow inp dur = \<lparr>cl_ID = [], cl_Type = cci_Type inp, cl_Resource = cci_Resource inp,
     cl_AgentID = cci_XAgentID inp, cl_Status = [], cl_Metadata = cci_Metadata inp,
     cl_Session = SessionFromCtx ctx, cl_ClaimedAt = zero_time,
     cl_ExpiresAt = time_add (in_UTC hnow) dur, cl_UpdatedAt = zero_time\<rparr>"

definition create_waiter_of :: "(rat \<Rightarrow> rat) \<Rightarrow> Context \<Rightarrow> claimCreateInput \<Rightarrow> duration \<Rightarrow> ClaimWaiter" where
  "create_waiter_of rnd ctx inp dur = \<lparr>cw_ID = [], cw_Resource = cci_Resource inp,
     cw_AgentID = cci_XAgentID inp, cw_Type = cci_Type inp, cw_Metadata = cci_Metadata inp,
     cw_Session = SessionFromCtx ctx, cw_ExpiresInSec = int_Seconds rnd dur, cw_QueuedAt = zero_time\<rparr>"

definition claimCreate ::
  "(rat \<Rightarrow> rat) \<Rightarrow> senv \<Rightarrow> senv \<Rightarrow> gotime \<Rightarrow> Context \<Rightarrow> claimCreateInput \<Rightarrow> database \<Rightarrow>
   claimCreateOutput reply \<times> database" where
  "claimCreate rnd E1 E2 hnow ctx inp db =
     (if cci_XAgentID inp = [] then (Inl (http_err 422 ''X-Agent-ID header is required to create a claim''), db)
      else case claim_duration rnd (cci_ExpiresIn inp) of
        Inl h \<Rightarrow> (Inl h, db)
      | Inr dur \<Rightarrow>
          (case CreateClaim E1 (create_claim_of ctx hnow inp dur) db of
             (Inr c, db1) \<Rightarrow> (Inr \<lparr>cco_Status = 201, cco_Claim = Some c, cco_Queued = None,
                cco_Position = None, cco_WaiterID = []\<rparr>, db1)
           | (Inl e, db1) \<Rightarrow>
               if errors_Is e ErrConflict
               then (case EnqueueClaim E2 (create_waiter_of rnd ctx inp dur) db1 of
                       (Inl qErr, db2) \<Rightarrow> (Inl (http_err 500 ''failed to queue claim''), db2)
                     | (Inr (w, position), db2) \<Rightarrow>
                         (Inr \<lparr>cco_Status = 202, cco_Claim = None, cco_Queued = Some True,
                            cco_Position = Some position, cco_WaiterID = cw_ID w\<rparr>, db2))
               else (Inl (http_err 500 ''failed to create claim''), db1)))"

definition claimGet :: "senv \<Rightarrow> string \<Rightarrow> database \<Rightarrow> Claim reply \<times> database" where
  "claimGet E i db =
     answers [(ErrNotFound, http_err 404 ''claim not found'')] (http_err 500 ''failed to get claim'') (GetClaim E i db)"

definition claimList :: "senv \<Rightarrow> ClaimFilter \<Rightarrow> database \<Rightarrow> Claim list reply \<times> database" where
  "claimList E f db = answers [] (http_err 500 ''failed to list claims'') (ListClaims E f db)"

text \<open>The ownership check of release and renew; it is skipped when the caller names no agent.\<close>

definition claim_owner_check :: "string \<Rightarrow> senv \<Rightarrow> string \<Rightarrow> string \<Rightarrow> database \<Rightarrow> unit reply \<times> database" where
  "claim_owner_check denied E agent i db =
     (if agent = [] then (Inr (), db)
      else and_then (claimGet E i db)
        (\<lambda>existing d. if cl_AgentID existing \<noteq> agent then (Inl (http_err 403 denied), d) else (Inr (), d)))"

definition claimRelease ::
  "senv \<Rightarrow> senv \<Rightarrow> claimReleaseInput \<Rightarrow> database \<Rightarrow> ClaimReleaseResult reply \<times> database" where
  "claimRelease E1 E2 inp db =
     and_then (claim_owner_check ''only the claim owner can release this claim'' E1
         (cri_XAgentID inp) (cri_ID inp) db)
       (\<lambda>_ d. answers [(ErrNotFound, http_err 404 ''claim not found'')] (http_err 500 ''failed to release claim'')
         (ReleaseClaim E2 (cri_ID inp) d))"

definition claimRenew ::
  "(rat \<Rightarrow> rat) \<Rightarrow> senv \<Rightarrow> senv \<Rightarrow> gotime \<Rightarrow> claimRenewInput \<Rightarrow> database \<Rightarrow> Claim reply \<times> database" where
  "claimRenew rnd E1 E2 hnow inp db =
     and_then (claim_owner_check ''only the claim owner can renew this claim'' E1
         (cni_XAgentID inp) (cni_ID inp) db)
       (\<lambda>_ d. case claim_duration rnd (cni_ExpiresIn inp) of
          Inl h \<Rightarrow> (Inl h, d)
        | Inr dur \<Rightarrow>
            answers [(ErrNotFound, http_err 404 ''claim not found or not active'')]
              (http_err 500 ''failed to renew claim'')
              (RenewClaim E2 (cni_ID inp) (time_add (in_UTC hnow) dur) d))"

section \<open>Who may touch a claim\<close>

definition claim_owned :: "string \<Rightarrow> string \<Rightarrow> database \<Rightarrow> bool" where
  "claim_owned i owner db \<longleftrightarrow> (\<exists>c. row_at claims_t i db = Some c \<and> c_agent_id c = owner)"

lemma claimGet_owned:
  assumes "claim_owned i owner (ac_others (sv_access E 0) db)"
  shows "\<exists>res. claimGet E i db = (res, ac_others (sv_access E 0) db) \<and>
     (\<forall>c. res = Inr c \<longrightarrow> cl_AgentID c = owner) \<and>
     (ac_fate (sv_access E 0) = Committed \<longrightarrow> (\<exists>c. res = Inr c))"
proof -
  let ?d = "ac_others (sv_access E 0) db"
  obtain c where c: "row_at claims_t i ?d = Some c" "c_agent_id c = owner"
    using assms by (auto simp: claim_owned_def)
  obtain cs where cs: "filter (\<lambda>r. c_id r = i) (db_claims ?d) = c # cs"
    using c(1) by (auto simp: row_at_def dest: find_Some_filter)
  show ?thesis
    using c(2) cs
    by (cases "ac_fate (sv_access E 0)")
      (auto simp: claimGet_def GetClaim_def query_row_def Let_def sql_select_def first_row_def scanClaimRow_def
        scan_row_def finishClaimScan_def answers_def answer_Inr split: if_splits)
qed

lemma claim_owner_check_stranger:
  assumes "claim_owned i owner (ac_others (sv_access E 0) db)" "agent \<noteq> []" "agent \<noteq> owner"
  shows "\<exists>h. claim_owner_check denied E agent i db = (Inl h, ac_others (sv_access E 0) db) \<and>
    (ac_fate (sv_access E 0) = Committed \<longrightarrow> h = http_err 403 denied)"
  using claimGet_owned [OF assms(1)] assms(2,3)
  by (auto simp: claim_owner_check_def and_then_def split: sum.splits)

lemma claim_stranger_refused:
  assumes "claim_owned i owner (ac_others (sv_access E1 0) db)" "agent \<noteq> []" "agent \<noteq> owner"
  shows "\<exists>h. claimRelease E1 E2 \<lparr>cri_XAgentID = agent, cri_ID = i\<rparr> db = (Inl h, ac_others (sv_access E1 0) db) \<and>
      (ac_fate (sv_access E1 0) = Committed \<longrightarrow> he_status h = 403)" (is ?release)
    and "\<exists>h. claimRenew rnd E1 E2 hnow \<lparr>cni_XAgentID = agent, cni_ID = i, cni_ExpiresIn = s\<rparr> db =
        (Inl h, ac_others (sv_access E1 0) db) \<and>
      (ac_fate (sv_access E1 0) = Committed \<longrightarrow> he_status h = 403)" (is ?renew)
proof -
  note check = claim_owner_check_stranger [OF assms]
  show ?release
    using check [of "''only the claim owner can release this claim''"]
    by (elim exE conjE) (simp add: claimRelease_def http_err_def)
  show ?renew
    using check [of "''only the claim owner can renew this claim''"]
    by (elim exE conjE) (simp add: claimRenew_def http_err_def)
qed

text \<open>A caller that names no agent is not asked: it releases any claim.\<close>

lemma anonymous_release_unchecked:
  "claimRelease E1 E2 \<lparr>cri_XAgentID = [], cri_ID = i\<rparr> db =
     answers [(ErrNotFound, http_err 404 ''claim not found'')] (http_err 500 ''failed to release claim'')
       (ReleaseClaim E2 i db)"
  by (simp add: claimRelease_def claim_owner_check_def)

section \<open>Claiming\<close>

lemma create_of_simps [simp]:
  "cl_Resource (create_claim_of ctx hnow inp dur) = cci_Resource inp"
  "cl_AgentID (create_claim_of ctx hnow inp dur) = cci_XAgentID inp"
  "cl_ExpiresAt (create_claim_of ctx hnow inp dur) = time_add (in_UTC hnow) dur"
  "cw_Resource (create_waiter_of rnd ctx inp dur) = cci_Resource inp"
  "cw_AgentID (create_waiter_of rnd ctx inp dur) = cci_XAgentID inp"
  "cw_ExpiresInSec (create_waiter_of rnd ctx inp dur) = int_Seconds rnd dur"
  by (simp_all add: create_claim_of_def create_waiter_of_def)

definition granted :: "Claim \<Rightarrow> claimCreateOutput" where
  "granted c = \<lparr>cco_Status = 201, cco_Claim = Some c, cco_Queued = None, cco_Position = None, cco_WaiterID = []\<rparr>"

definition queued_at :: "int \<Rightarrow> string \<Rightarrow> claimCreateOutput" where
  "queued_at n i = \<lparr>cco_Status = 202, cco_Claim = None, cco_Queued = Some True, cco_Position = Some n, cco_WaiterID = i\<rparr>"

text \<open>The claim and the waiter an undisturbed create leaves.\<close>

definition claim_made :: "senv \<Rightarrow> Context \<Rightarrow> gotime \<Rightarrow> claimCreateInput \<Rightarrow> duration \<Rightarrow> claim_row" where
  "claim_made E ctx hnow inp dur =
     claim_insert_row (new_claim E (create_claim_of ctx hnow inp dur)) (in_UTC (sv_now E 0))"

definition waiter_made :: "(rat \<Rightarrow> rat) \<Rightarrow> senv \<Rightarrow> Context \<Rightarrow> claimCreateInput \<Rightarrow> duration \<Rightarrow> queue_row" where
  "waiter_made rnd E ctx inp dur =
     waiter_row (enqueued E (create_waiter_of rnd ctx inp dur)) (in_UTC (sv_now E 0))"

lemma made_simps [simp]:
  "c_id (claim_made E ctx hnow inp dur) = sv_uuid E" "c_status (claim_made E ctx hnow inp dur) = ClaimStatusActive"
  "c_resource (claim_made E ctx hnow inp dur) = cci_Resource inp"
  "c_agent_id (claim_made E ctx hnow inp dur) = cci_XAgentID inp"
  "c_expires_at (claim_made E ctx hnow inp dur) = format_RFC3339Nano (time_add (in_UTC hnow) dur)"
  "q_id (waiter_made rnd E ctx inp dur) = sv_uuid E" "q_resource (waiter_made rnd E ctx inp dur) = cci_Resource inp"
  "q_agent_id (waiter_made rnd E ctx inp dur) = cci_XAgentID inp"
  "q_expires_in_sec (waiter_made rnd E ctx inp dur) =
     (if int_Seconds rnd dur \<le> 0 then 3600 else int_Seconds rnd dur)"
  by (simp_all add: claim_made_def waiter_made_def waiter_row_def claim_insert_row_def enqueued_def new_claim_def Let_def)

lemma claimCreate_granted:
  assumes "quiet E1" "sv_uuid E1 \<notin> c_id ` set (db_claims db)" "cci_XAgentID inp \<noteq> []"
    and "claim_duration rnd (cci_ExpiresIn inp) = Inr dur" "holder db (cci_Resource inp) = None"
  shows "claimCreate rnd E1 E2 hnow ctx inp db =
    (Inr (granted (new_claim E1 (create_claim_of ctx hnow inp dur))),
     db\<lparr>db_claims := db_claims db @ [claim_made E1 ctx hnow inp dur]\<rparr>)"
  using assms CreateClaim_run [OF assms(1,2), of "create_claim_of ctx hnow inp dur"]
  by (simp add: claimCreate_def granted_def claim_made_def)

text \<open>On a conflict the outcome is that of the enqueueing.\<close>

lemma claimCreate_held:
  assumes "quiet E1" "sv_uuid E1 \<notin> c_id ` set (db_claims db)" "cci_XAgentID inp \<noteq> []"
    and "claim_duration rnd (cci_ExpiresIn inp) = Inr dur" "holder db (cci_Resource inp) = Some c"
    and "EnqueueClaim E2 (create_waiter_of rnd ctx inp dur) db = (Inr (w, n), db')"
  shows "claimCreate rnd E1 E2 hnow ctx inp db = (Inr (queued_at n (cw_ID w)), db')"
  using assms CreateClaim_run [OF assms(1,2), of "create_claim_of ctx hnow inp dur"]
  by (simp add: claimCreate_def queued_at_def)

text \<open>Another session acts just before the transaction begins.\<close>

definition acting_first :: "(database \<Rightarrow> database) \<Rightarrow> senv \<Rightarrow> senv" where
  "acting_first f E = E\<lparr>sv_tx := (\<lambda>k. if k = 0 then (sv_tx E 0)\<lparr>at_others := f\<rparr> else sv_tx E k)\<rparr>"

lemma acting_first_simps [simp]:
  "sv_now (acting_first f E) = sv_now E" "sv_uuid (acting_first f E) = sv_uuid E"
  "sv_tx (acting_first f E) 0 = (sv_tx E 0)\<lparr>at_others := f\<rparr>" "sv_access (acting_first f E) = sv_access E"
  "enqueued (acting_first f E) = enqueued E"
  by (simp_all add: acting_first_def enqueued_def fun_eq_iff)

lemma retry_from_cong_env:
  "(\<And>j. k \<le> j \<Longrightarrow> env j = env' j) \<Longrightarrow> retry_from env fn k c db = retry_from env' fn k c db"
proof (induction env fn k c db rule: retry_from.induct)
  case (1 env fn k c db)
  have later: "\<And>j. Suc k \<le> j \<Longrightarrow> env j = env' j" and now: "env k = env' k" using 1(3) by simp_all
  show ?case
    using 1(1,2) later
    by (simp add: retry_from.simps [of env _ k] retry_from.simps [of env' _ k] now Let_def
        split: option.split sum.split prod.split)
qed

lemma RetryTx_acting_first:
  assumes "at_others (sv_tx E 0) = id" "\<And>A c. fn (A\<lparr>at_others := f\<rparr>) c = fn A c"
  shows "RetryTx (sv_tx (acting_first f E)) fn c db = RetryTx (sv_tx E) fn c (f db)"
proof -
  have "retry_from (sv_tx (acting_first f E)) fn (Suc 0) c' d = retry_from (sv_tx E) fn (Suc 0) c' d" for c' d
    by (rule retry_from_cong_env) (simp add: acting_first_def)
  then show ?thesis
    using assms unfolding RetryTx_def retry_from.simps [of _ _ 0]
    by (auto simp: commit_tx_def Let_def split: option.split sum.split prod.split)
qed

lemma EnqueueClaim_acting_first:
  assumes "quiet E"
  shows "EnqueueClaim (acting_first f E) w db = EnqueueClaim E w (f db)"
proof -
  have "calm (sv_tx E 0)" using assms by simp
  then have "at_others (sv_tx E 0) = id" unfolding calm_def by (elim conjE)
  then have "RetryTx (sv_tx (acting_first f E)) (EnqueueClaim_tx v now) 0 db =
      RetryTx (sv_tx E) (EnqueueClaim_tx v now) 0 (f db)" for v now
    by (rule RetryTx_acting_first) (simp add: EnqueueClaim_tx_def)
  then show ?thesis by (simp only: EnqueueClaim_def Let_def acting_first_simps)
qed

lemma claim_duration_Inl: "claim_duration rnd s = Inl h \<Longrightarrow> he_status h = 422"
  by (auto simp: claim_duration_def http_err_def split: if_splits option.splits)

lemma claimCreate_rejected:
  assumes "cci_XAgentID inp = [] \<or> (\<forall>dur. claim_duration rnd (cci_ExpiresIn inp) \<noteq> Inr dur)"
  shows "\<exists>h. claimCreate rnd E1 E2 hnow ctx inp db = (Inl h, db) \<and> he_status h = 422"
  using assms claim_duration_Inl
  by (cases "claim_duration rnd (cci_ExpiresIn inp)") (auto simp: claimCreate_def http_err_def)

lemma claims_ok_made:
  assumes "claims_ok db" "sv_uuid E \<notin> c_id ` set (db_claims db)" "holder db (cci_Resource inp) = None"
  shows "claims_ok (db\<lparr>db_claims := db_claims db @ [claim_made E ctx hnow inp dur]\<rparr>)"
  using assms claims_ok_insert [of db "claim_made E ctx hnow inp dur"] may_insert_active [of "claim_made E ctx hnow inp dur" db]
  by simp

lemma holder_made:
  "holder db (cci_Resource inp) = None \<Longrightarrow>
   holder (db\<lparr>db_claims := db_claims db @ [claim_made E ctx hnow inp dur]\<rparr>) r =
     (if r = cci_Resource inp then Some (claim_made E ctx hnow inp dur) else holder db r)"
  by (auto simp: holder_insert split: option.split)

lemma claimCreate_queued:
  assumes "quiet E1" "quiet E2" "sv_uuid E1 \<notin> c_id ` set (db_claims db)"
    and "sv_uuid E2 \<notin> q_id ` set (db_claim_queue db)" "cci_XAgentID inp \<noteq> []"
    and "claim_duration rnd (cci_ExpiresIn inp) = Inr dur" "holder db (cci_Resource inp) = Some c"
  shows "claimCreate rnd E1 E2 hnow ctx inp db =
    (Inr (queued_at (int (Suc (length (waiting db (cci_Resource inp))))) (sv_uuid E2)),
     db\<lparr>db_claim_queue := db_claim_queue db @ [waiter_made rnd E2 ctx inp dur]\<rparr>)"
  using claimCreate_held [OF assms(1,3,5-7) EnqueueClaim_ok [OF assms(2,4)]]
  by (simp add: waiter_made_def)

text \<open>The rows, column by column.\<close>

lemma map_column_elems: "map_column m = JObj (map (\<lambda>(k, v). (k, JStr v)) (elems m))"
  by (cases m) (simp_all add: map_column_def marshal_map_def)

lemma claim_made_columns:
  "claim_made E ctx hnow inp dur = \<lparr>c_id = sv_uuid E, c_type = cci_Type inp, c_resource = cci_Resource inp,
     c_agent_id = cci_XAgentID inp, c_status = ''active'',
     c_metadata = JObj (map (\<lambda>(k, v). (k, JStr v)) (elems (cci_Metadata inp))),
     c_session = SessionFromCtx ctx, c_claimed_at = format_RFC3339Nano (in_UTC (sv_now E 0)),
     c_expires_at = format_RFC3339Nano (time_add (in_UTC hnow) dur),
     c_updated_at = format_RFC3339Nano (in_UTC (sv_now E 0))\<rparr>"
  by (simp add: claim_made_def claim_insert_row_def new_claim_def create_claim_of_def map_column_elems ClaimStatusActive_def Let_def)

lemma waiter_made_columns:
  "waiter_made rnd E ctx inp dur = \<lparr>q_id = sv_uuid E, q_resource = cci_Resource inp, q_agent_id = cci_XAgentID inp,
     q_type = cci_Type inp, q_metadata = JObj (map (\<lambda>(k, v). (k, JStr v)) (elems (cci_Metadata inp))),
     q_session = SessionFromCtx ctx,
     q_expires_in_sec = (if int_Seconds rnd dur \<le> 0 then 3600 else int_Seconds rnd dur),
     q_queued_at = format_RFC3339Nano (in_UTC (sv_now E 0))\<rparr>"
  by (simp add: waiter_made_def waiter_row_def enqueued_def create_waiter_of_def map_column_elems Let_def)

lemma new_claim_fields:
  "new_claim E (create_claim_of ctx hnow inp dur) = \<lparr>cl_ID = sv_uuid E, cl_Type = cci_Type inp,
     cl_Resource = cci_Resource inp, cl_AgentID = cci_XAgentID inp, cl_Status = ''active'',
     cl_Metadata = cci_Metadata inp, cl_Session = SessionFromCtx ctx, cl_ClaimedAt = in_UTC (sv_now E 0),
     cl_ExpiresAt = time_add (in_UTC hnow) dur, cl_UpdatedAt = in_UTC (sv_now E 0)\<rparr>"
  by (simp add: new_claim_def create_claim_of_def ClaimStatusActive_def Let_def)

text \<open>
  C21. What a create does, undisturbed, column by column.  Without an agent, or with an \<^verbatim>\<open>expires_in\<close> that
  is no duration, it is refused with 422 and changes nothing.  On a free resource it answers 201 with the
  new claim and adds its row and nothing else: the caller's, active, of the type and with the metadata
  sent, with the session of the request, and expiring as long after the reading of the clock as asked
  for, an hour if nothing was asked.  On a held one it answers 202 with the place behind those who
  already wait and adds the row of a waiter and nothing else: the same caller, type, metadata and
  session, the duration in seconds (an hour if that is not positive) and the time.  The store stays
  consistent, and the holder of no other resource changes.
\<close>

theorem claim_create_spec:
  assumes "quiet E1" "quiet E2" "claims_ok db" "sv_uuid E1 \<notin> c_id ` set (db_claims db)"
    and "sv_uuid E2 \<notin> q_id ` set (db_claim_queue db)"
  shows "if cci_XAgentID inp = [] \<or> (cci_ExpiresIn inp \<noteq> [] \<and> ParseDuration rnd (cci_ExpiresIn inp) = None)
    then \<exists>h. claimCreate rnd E1 E2 hnow ctx inp db = (Inl h, db) \<and> he_status h = 422
    else \<exists>dur session metadata res db'.
      (if cci_ExpiresIn inp = [] then dur = 3600 * Second else ParseDuration rnd (cci_ExpiresIn inp) = Some dur) \<and>
      session = (case ctx_Session ctx of None \<Rightarrow> no_session | Some sc \<Rightarrow> sc) \<and>
      metadata = JObj (map (\<lambda>(k, v). (k, JStr v)) (elems (cci_Metadata inp))) \<and>
      claimCreate rnd E1 E2 hnow ctx inp db = (Inr res, db') \<and> claims_ok db' \<and>
      (\<forall>r. map_option c_agent_id (holder db' r) = (if r = cci_Resource inp \<and> holder db r = None
         then Some (cci_XAgentID inp) else map_option c_agent_id (holder db r))) \<and>
      (case holder db (cci_Resource inp) of
         None \<Rightarrow>
           res = \<lparr>cco_Status = 201, cco_Claim = Some \<lparr>cl_ID = sv_uuid E1, cl_Type = cci_Type inp,
             cl_Resource = cci_Resource inp, cl_AgentID = cci_XAgentID inp, cl_Status = ''active'',
             cl_Metadata = cci_Metadata inp, cl_Session = session, cl_ClaimedAt = in_UTC (sv_now E1 0),
             cl_ExpiresAt = time_add (in_UTC hnow) dur, cl_UpdatedAt = in_UTC (sv_now E1 0)\<rparr>,
             cco_Queued = None, cco_Position = None, cco_WaiterID = []\<rparr> \<and>
           db' = db\<lparr>db_claims := db_claims db @ [\<lparr>c_id = sv_uuid E1, c_type = cci_Type inp,
             c_resource = cci_Resource inp, c_agent_id = cci_XAgentID inp, c_status = ''active'',
             c_metadata = metadata, c_session = session,
             c_claimed_at = format_RFC3339Nano (in_UTC (sv_now E1 0)),
             c_expires_at = format_RFC3339Nano (time_add (in_UTC hnow) dur),
             c_updated_at = format_RFC3339Nano (in_UTC (sv_now E1 0))\<rparr>]\<rparr>
       | Some _ \<Rightarrow>
           res = \<lparr>cco_Status = 202, cco_Claim = None, cco_Queued = Some True,
             cco_Position = Some (int (length (waiting db (cci_Resource inp))) + 1), cco_WaiterID = sv_uuid E2\<rparr> \<and>
           db' = db\<lparr>db_claim_queue := db_claim_queue db @ [\<lparr>q_id = sv_uuid E2, q_resource = cci_Resource inp,
             q_agent_id = cci_XAgentID inp, q_type = cci_Type inp, q_metadata = metadata, q_session = session,
             q_expires_in_sec = (if int_Seconds rnd dur \<le> 0 then 3600 else int_Seconds rnd dur),
             q_queued_at = format_RFC3339Nano (in_UTC (sv_now E2 0))\<rparr>]\<rparr>)"
proof (cases "cci_XAgentID inp = [] \<or> (cci_ExpiresIn inp \<noteq> [] \<and> ParseDuration rnd (cci_ExpiresIn inp) = None)")
  case True
  then have "cci_XAgentID inp = [] \<or> (\<forall>dur. claim_duration rnd (cci_ExpiresIn inp) \<noteq> Inr dur)"
    by (auto simp: claim_duration_def)
  then show ?thesis using True claimCreate_rejected by simp
next
  case False
  then obtain dur where a: "cci_XAgentID inp \<noteq> []" and d: "claim_duration rnd (cci_ExpiresIn inp) = Inr dur"
    and dur: "if cci_ExpiresIn inp = [] then dur = 3600 * Second else ParseDuration rnd (cci_ExpiresIn inp) = Some dur"
    by (cases "ParseDuration rnd (cci_ExpiresIn inp)"; cases "cci_ExpiresIn inp = []")
      (auto simp: claim_duration_def Hour_def Minute_def)
  show ?thesis
  proof (cases "holder db (cci_Resource inp)")
    case None
    have run: "claimCreate rnd E1 E2 hnow ctx inp db =
        (Inr (granted (new_claim E1 (create_claim_of ctx hnow inp dur))),
         db\<lparr>db_claims := db_claims db @ [claim_made E1 ctx hnow inp dur]\<rparr>)"
      using claimCreate_granted [OF assms(1,4) a d None] .
    have holds: "map_option c_agent_id (holder (db\<lparr>db_claims := db_claims db @ [claim_made E1 ctx hnow inp dur]\<rparr>) r) =
        (if r = cci_Resource inp \<and> holder db r = None then Some (cci_XAgentID inp) else map_option c_agent_id (holder db r))" for r
      using None by (simp add: holder_made)
    show ?thesis unfolding if_not_P [OF False] None option.case
      by (rule exI [of _ dur], intro exI conjI allI, rule dur, rule refl, rule refl, rule run,
          rule claims_ok_made [OF assms(3,4) None], rule holds)
        (simp_all add: granted_def new_claim_fields claim_made_columns SessionFromCtx_def)
  next
    case (Some c)
    let ?w = "waiter_made rnd E2 ctx inp dur"
    let ?db = "db\<lparr>db_claim_queue := db_claim_queue db @ [?w]\<rparr>"
    have run: "claimCreate rnd E1 E2 hnow ctx inp db =
        (Inr (queued_at (int (Suc (length (waiting db (cci_Resource inp))))) (sv_uuid E2)), ?db)"
      using claimCreate_queued [OF assms(1,2,4,5) a d Some] .
    have ok: "claims_ok ?db" using assms(3,5) by (simp add: claims_ok_def queue_ok_def)
    have same: "holder ?db r = holder db r" for r by (simp add: holder_def)
    show ?thesis unfolding if_not_P [OF False] Some option.case
      by (rule exI [of _ dur], intro exI conjI, rule dur, rule refl, rule refl, rule run, rule ok)
        (use Some same in \<open>simp_all add: queued_at_def waiter_made_columns SessionFromCtx_def\<close>)
  qed
qed

definition demo_create :: "string \<Rightarrow> string \<Rightarrow> claimCreateInput" where
  "demo_create who expires = \<lparr>cci_XAgentID = who, cci_Type = ClaimTypeIssue, cci_Resource = ''repo'',
     cci_ExpiresIn = expires, cci_Metadata = None\<rparr>"

lemma demo_durations:
  "claim_duration id ''30m'' = Inr (30 * Minute)" "claim_duration id [] = Inr Hour"
  "claim_duration id ''-5s'' = Inr (- 5 * Second)"
  by code_simp+

theorem claim_create_spec_witness:
  "case claimCreate id (quiet_senv (demo_time 0) ''c2'') (quiet_senv (demo_time 0) ''q2'') (demo_time 0) background
      (demo_create ''eve'' ''30m'') demo_db of
     (Inl h, _) \<Rightarrow> False
   | (Inr res, db') \<Rightarrow> cco_Status res = 202 \<and> cco_Position res = Some 2 \<and>
       map_option c_agent_id (holder db' ''repo'') = Some ''ann''"
proof -
  have fresh: "sv_uuid (quiet_senv (demo_time 0) ''c2'') \<notin> c_id ` set (db_claims demo_db)"
    unfolding demo_db_facts by simp
  have freshq: "sv_uuid (quiet_senv (demo_time 0) ''q2'') \<notin> q_id ` set (db_claim_queue demo_db)"
    by (simp add: demo_db_def demo_waiter_def waiter_row_def)
  have a: "cci_XAgentID (demo_create ''eve'' ''30m'') = ''eve''" "cci_Resource (demo_create ''eve'' ''30m'') = ''repo''"
    "cci_ExpiresIn (demo_create ''eve'' ''30m'') = ''30m''" by (simp_all add: demo_create_def)
  have h: "holder demo_db ''repo'' = Some (demo_claim_row ''c1'' ''ann'' ClaimStatusActive)" using demo_db_facts(2) .
  have p: "ParseDuration id ''30m'' = Some (30 * Minute)" by code_simp
  note spec = claim_create_spec [OF quiet_senv_simps(2) quiet_senv_simps(2) demo_db_facts(1) fresh freshq,
      of "demo_create ''eve'' ''30m''" id "demo_time 0" background]
  have "map_option c_agent_id (holder demo_db ''repo'') = Some ''ann''" by (simp add: h demo_claim_row_def)
  then show ?thesis
    using spec unfolding a by (auto simp: p h demo_db_facts(3) simp del: option.map)
qed

lemma expire_keeps_free:
  assumes "quiet E" "claims_ok db" "inj (at_uuid (sv_tx E 0))" "\<forall>j. at_uuid (sv_tx E 0) j \<notin> c_id ` set (db_claims db)"
    and free: "holder db r = None"
  shows "holder (snd (ExpireOldClaims E db)) r = None"
proof -
  obtain db' where "snd (ExpireOldClaims E db) = db'" and
    all: "\<forall>r. if \<exists>c. holder db r = Some c \<and> overdue (format_RFC3339Nano (in_UTC (at_now (sv_tx E 0)))) c
      then handed_over (in_UTC (at_now (sv_tx E 0))) (db\<lparr>db_claim_queue :=
        filter (\<lambda>w. \<not> stale_waiter (in_UTC (at_now (sv_tx E 0))) w) (db_claim_queue db)\<rparr>) db' r
      else untouched (db\<lparr>db_claim_queue :=
        filter (\<lambda>w. \<not> stale_waiter (in_UTC (at_now (sv_tx E 0))) w) (db_claim_queue db)\<rparr>) db' r"
    using expire_handover [OF assms(1-3)] assms(4) by (metis snd_conv)
  then show ?thesis using all [rule_format, of r] free by (simp add: untouched_def)
qed

text \<open>
  C37. A wakeup can be lost.  \<open>claimCreate\<close> finds the resource held and enqueues the caller in a second
  transaction.  When the holder releases in between, with nobody waiting, the caller is told it is
  queued, first in line, while nobody holds the resource; and no expiry sweep ever promotes it, since
  sweeps hand over only what an overdue claim frees.
\<close>

theorem claim_create_lost_wakeup:
  assumes E: "quiet E1" "quiet E2" "quiet E3" and ok: "claims_ok db"
    and fresh: "sv_uuid E1 \<notin> c_id ` set (db_claims db)" "sv_uuid E2 \<notin> q_id ` set (db_claim_queue db)"
      "at_uuid (sv_tx E3 0) 0 \<notin> c_id ` set (db_claims db)"
    and inp: "cci_XAgentID inp \<noteq> []" "claim_duration rnd (cci_ExpiresIn inp) = Inr dur"
    and held: "holder db (cci_Resource inp) = Some c" "waiting db (cci_Resource inp) = []"
  shows "\<exists>db'. claimCreate rnd E1 (acting_first (\<lambda>d. snd (ReleaseClaim E3 (c_id c) d)) E2) hnow ctx inp db =
      (Inr (queued_at 1 (sv_uuid E2)), db') \<and>
    holder db' (cci_Resource inp) = None \<and> map q_id (waiting db' (cci_Resource inp)) = [sv_uuid E2] \<and>
    (\<forall>E4. quiet E4 \<and> inj (at_uuid (sv_tx E4 0)) \<and> (\<forall>j. at_uuid (sv_tx E4 0) j \<notin> c_id ` set (db_claims db')) \<longrightarrow>
       holder (snd (ExpireOldClaims E4 db')) (cci_Resource inp) = None)"
proof -
  let ?r = "cci_Resource inp" and ?now = "in_UTC (at_now (sv_tx E3 0))"
  let ?w = "waiter_made rnd E2 ctx inp dur"
  let ?rel = "end_claims (\<lambda>r. c_id r = c_id c) ClaimStatusReleased ?now db"
  let ?db = "?rel\<lparr>db_claim_queue := db_claim_queue db @ [?w]\<rparr>"
  have cr: "c_resource c = ?r" using holder_SomeD [OF held(1)] by simp
  have rel: "snd (ReleaseClaim E3 (c_id c) db) = ?rel"
    using ReleaseClaim_cases [OF E(3) ok holder_row_at [OF ok held(1)] fresh(3)] held(2) by (simp add: cr)
  have enq: "EnqueueClaim (acting_first (\<lambda>d. snd (ReleaseClaim E3 (c_id c) d)) E2) (create_waiter_of rnd ctx inp dur) db =
      (Inr (enqueued E2 (create_waiter_of rnd ctx inp dur), 1), ?db)"
    using EnqueueClaim_ok [OF E(2), of ?rel "create_waiter_of rnd ctx inp dur"] fresh(2) held(2)
    by (simp add: EnqueueClaim_acting_first [OF E(2)] rel waiter_made_def)
  have run: "claimCreate rnd E1 (acting_first (\<lambda>d. snd (ReleaseClaim E3 (c_id c) d)) E2) hnow ctx inp db =
      (Inr (queued_at 1 (sv_uuid E2)), ?db)"
    using claimCreate_held [OF E(1) fresh(1) inp held(1) enq] by simp
  have none: "holder ?db ?r = None"
    using holder_end_claims [OF ok, of ClaimStatusReleased "\<lambda>r. c_id r = c_id c" ?now ?r] held(1) by simp
  have wait: "waiting ?db ?r = [?w]"
    using waiting_insert [of ?rel ?w ?r] held(2) by simp
  have okdb: "claims_ok ?db"
    using end_claims_ok [OF ok, of ClaimStatusReleased "\<lambda>r. c_id r = c_id c" ?now] fresh(2)
    by (simp add: claims_ok_def queue_ok_def)
  have "holder (snd (ExpireOldClaims E4 ?db)) ?r = None"
    if "quiet E4" "inj (at_uuid (sv_tx E4 0))" "\<forall>j. at_uuid (sv_tx E4 0) j \<notin> c_id ` set (db_claims ?db)" for E4
    using expire_keeps_free [OF that(1) okdb that(2,3) none] .
  then show ?thesis using run none wait by (intro exI conjI) (assumption, simp_all)
qed

theorem claim_create_lost_wakeup_witness:
  "holder (snd (claimCreate id (quiet_senv (demo_time 0) ''c2'')
      (acting_first (\<lambda>d. snd (ReleaseClaim (quiet_senv (demo_time 0) ''x'') ''c1'' d)) (quiet_senv (demo_time 0) ''q2''))
      (demo_time 0) background (demo_create ''eve'' []) (demo_db\<lparr>db_claim_queue := []\<rparr>))) ''repo'' = None"
proof -
  let ?db = "demo_db\<lparr>db_claim_queue := []\<rparr>" and ?c = "demo_claim_row ''c1'' ''ann'' ClaimStatusActive"
  have ok: "claims_ok ?db" using claims_ok_pop [OF demo_db_facts(1), of "\<lambda>_. False"] by simp
  have i: "c_id ` set (db_claims ?db) = {''c0'', ''c1''}" using demo_db_facts(4) by simp
  have fresh: "sv_uuid (quiet_senv (demo_time 0) ''c2'') \<notin> c_id ` set (db_claims ?db)"
    "sv_uuid (quiet_senv (demo_time 0) ''q2'') \<notin> q_id ` set (db_claim_queue ?db)"
    "at_uuid (sv_tx (quiet_senv (demo_time 0) ''x'') 0) 0 \<notin> c_id ` set (db_claims ?db)"
    unfolding i by simp_all
  have a: "cci_XAgentID (demo_create ''eve'' []) \<noteq> []" "cci_Resource (demo_create ''eve'' []) = ''repo''"
    and d: "claim_duration id (cci_ExpiresIn (demo_create ''eve'' [])) = Inr Hour"
    by (simp_all add: demo_create_def demo_durations)
  have h: "holder ?db (cci_Resource (demo_create ''eve'' [])) = Some ?c" using demo_db_facts(2) a by simp
  have w: "waiting ?db (cci_Resource (demo_create ''eve'' [])) = []" by (simp add: waiting_def order_asc_def)
  have cid: "c_id ?c = ''c1''" by (simp add: demo_claim_row_def)
  show ?thesis
    using claim_create_lost_wakeup [OF quiet_senv_simps(2) quiet_senv_simps(2) quiet_senv_simps(2) ok fresh a(1) d h w,
        of "demo_time 0" background]
    unfolding cid a(2) by (elim exE conjE) (simp only: snd_conv)
qed

text \<open>
  An expiry in the past is accepted.  A negative \<^verbatim>\<open>expires_in\<close> is a duration like any other: on a free
  resource the caller is granted a claim that expired before it was made, and on a held one it waits
  with the default of an hour.  \<open>rnd\<close> need only keep the order and zero.
\<close>

theorem past_expiry_accepted:
  assumes "quiet E1" "quiet E2" "sv_uuid E1 \<notin> c_id ` set (db_claims db)"
    and "sv_uuid E2 \<notin> q_id ` set (db_claim_queue db)" "cci_XAgentID inp \<noteq> []"
    and "cci_ExpiresIn inp = CHR ''-'' # show_pos n @ unit" "unitMap unit = Some k" "0 < n" "n * k \<le> 2 ^ 63 - 1"
    and "mono rnd" "rnd 0 = 0"
  shows "\<exists>res db'. claimCreate rnd E1 E2 hnow ctx inp db = (Inr res, db') \<and>
    (case holder db (cci_Resource inp) of
       None \<Rightarrow> (\<exists>c row. cco_Claim res = Some c \<and> instant (cl_ExpiresAt c) = instant hnow - n * k \<and>
         holder db' (cci_Resource inp) = Some row \<and> c_id row = cl_ID c \<and>
         c_expires_at row = format_RFC3339Nano (cl_ExpiresAt c))
     | Some _ \<Rightarrow> \<exists>w \<in> set (db_claim_queue db'). q_id w = cco_WaiterID res \<and> q_expires_in_sec w = 3600)"
proof -
  have d: "claim_duration rnd (cci_ExpiresIn inp) = Inr (- (n * k))"
    using ParseDuration_whole(2) [OF _ assms(7,9), of rnd] assms(6,8) by (simp add: claim_duration_def)
  have "- (n * k) \<le> 0" using assms(8) unitMap_text(1) [OF assms(7)] by simp
  then have s: "int_Seconds rnd (- (n * k)) \<le> 0" by (rule int_Seconds_nonpos [OF assms(10,11)])
  show ?thesis
  proof (cases "holder db (cci_Resource inp)")
    case None
    then show ?thesis
      using claimCreate_granted [OF assms(1,3,5) d None, of E2 hnow ctx]
      by (simp add: holder_made granted_def time_add_def in_UTC_def)
  next
    case (Some c)
    then show ?thesis
      using claimCreate_queued [OF assms(1-5) d Some, of hnow ctx] s
      by (simp add: queued_at_def)
  qed
qed

theorem past_expiry_accepted_witness:
  "case claimCreate id (quiet_senv (demo_time 0) ''c2'') (quiet_senv (demo_time 0) ''q2'') (demo_time 0) background
      (demo_create ''eve'' ''-5s'') empty_db of
     (Inl h, _) \<Rightarrow> False
   | (Inr res, db') \<Rightarrow> map_option (\<lambda>c. instant (cl_ExpiresAt c)) (cco_Claim res) =
       Some (instant (demo_time 0) - 5 * Second)"
proof -
  have fresh: "sv_uuid (quiet_senv (demo_time 0) ''c2'') \<notin> c_id ` set (db_claims empty_db)"
    "sv_uuid (quiet_senv (demo_time 0) ''q2'') \<notin> q_id ` set (db_claim_queue empty_db)"
    by (simp_all add: empty_db_def)
  have a: "cci_XAgentID (demo_create ''eve'' ''-5s'') \<noteq> []" by (simp add: demo_create_def)
  have x: "cci_ExpiresIn (demo_create ''eve'' ''-5s'') = CHR ''-'' # show_pos 5 @ ''s''"
    and u: "unitMap ''s'' = Some Second" "(0::int) < 5" "5 * Second \<le> 2 ^ 63 - 1" by code_simp+
  have h: "holder empty_db r = None" for r by (simp add: holder_def empty_db_def)
  have m: "mono (id :: rat \<Rightarrow> rat)" "id (0::rat) = 0" by (simp_all add: mono_def)
  obtain res db' where "claimCreate id (quiet_senv (demo_time 0) ''c2'') (quiet_senv (demo_time 0) ''q2'')
      (demo_time 0) background (demo_create ''eve'' ''-5s'') empty_db = (Inr res, db')"
    "\<exists>c. cco_Claim res = Some c \<and> instant (cl_ExpiresAt c) = instant (demo_time 0) - 5 * Second"
    using past_expiry_accepted [OF quiet_senv_simps(2) quiet_senv_simps(2) fresh a x u m,
        of "demo_time 0" background] h by fastforce
  then show ?thesis by auto
qed

end
