(* ===== verification/TodoStore.thy ===== *)
theory TodoStore
  imports Access "HOL-Library.Multiset"
begin

text \<open>
  \<^verbatim>\<open>internal/store/todos.go\<close>: the ordered checklist of an agent.
\<close>

section \<open>The code\<close>

definition finishTodoScan :: "todo_row \<Rightarrow> Todo" where
  "finishTodoScan r = \<lparr>td_ID = d_id r, td_AgentID = d_agent_id r, td_Title = d_title r,
     td_Status = d_status r, td_SortOrder = d_sort_order r, td_ParentTask = d_parent_task r,
     td_Context = d_context r, td_CreatedAt = parse_ts (d_created_at r), td_UpdatedAt = parse_ts (d_updated_at r)\<rparr>"

definition scanTodoRow :: "goerr + todo_row \<Rightarrow> goerr + Todo" where
  "scanTodoRow res = scan_row ''scan todo'' finishTodoScan res"

definition todo_insert_row :: "Todo \<Rightarrow> gotime \<Rightarrow> todo_row" where
  "todo_insert_row t now = \<lparr>d_id = td_ID t, d_agent_id = td_AgentID t, d_title = td_Title t,
     d_status = td_Status t, d_sort_order = td_SortOrder t, d_parent_task = td_ParentTask t,
     d_context = td_Context t, d_created_at = format_RFC3339Nano now, d_updated_at = format_RFC3339Nano now\<rparr>"

definition CreateTodo_tx :: "todo_row \<Rightarrow> (database, unit) tx_fn" where
  "CreateTodo_tx r A u = tx_exec (at_stmt A) (sql_insert todos_t r)"

definition new_todo :: "senv \<Rightarrow> Todo \<Rightarrow> Todo" where
  "new_todo E t = (let now = in_UTC (sv_now E 0) in
     t\<lparr>td_ID := sv_uuid E, td_Status := TodoStatusPending, td_CreatedAt := now, td_UpdatedAt := now\<rparr>)"

definition CreateTodo :: "senv \<Rightarrow> Todo \<Rightarrow> database \<Rightarrow> (goerr + Todo) \<times> database" where
  "CreateTodo E t0 db =
     (let t = new_todo E t0 in
      case RetryTx (sv_tx E) (CreateTodo_tx (todo_insert_row t (in_UTC (sv_now E 0)))) () db of
        (Inl e, db') \<Rightarrow> (Inl (Wrapped ''insert todo'' e), db')
      | (Inr _, db') \<Rightarrow> (Inr t, db'))"

definition GetTodo :: "senv \<Rightarrow> string \<Rightarrow> database \<Rightarrow> (goerr + Todo) \<times> database" where
  "GetTodo E i db =
     (case query_row (sv_access E 0) (sql_select todos_t (\<lambda>r. d_id r = i)) db of
        (res, db') \<Rightarrow> (scanTodoRow res, db'))"

definition todo_matches :: "TodoFilter \<Rightarrow> todo_row \<Rightarrow> bool" where
  "todo_matches f r \<longleftrightarrow> d_agent_id r = df_AgentID f \<and> (df_Status f \<noteq> [] \<longrightarrow> d_status r = df_Status f)"

text \<open>ORDER BY sort_order, created_at: sorting is stable, so the second key is sorted by first.\<close>

definition select_todos :: "TodoFilter \<Rightarrow> (database, todo_row list) stmt" where
  "select_todos f db =
     (Inr (paginate 100 (df_Limit f) (df_Offset f)
        (order_asc d_sort_order (order_asc d_created_at (filter (todo_matches f) (db_todos db))))), db)"

definition ListTodos :: "senv \<Rightarrow> TodoFilter \<Rightarrow> database \<Rightarrow> (goerr + Todo list) \<times> database" where
  "ListTodos E f db = (case query_rows ''list todos'' (sv_access E 0) (select_todos f) db of
       (Inl e, db') \<Rightarrow> (Inl e, db')
     | (Inr rows, db') \<Rightarrow> (Inr (map finishTodoScan rows), db'))"

text \<open>One of the three optional UPDATE statements.\<close>

definition todo_set_field ::
  "string \<Rightarrow> database attempt \<Rightarrow> string \<Rightarrow> string option \<Rightarrow> (string \<Rightarrow> todo_row \<Rightarrow> todo_row) \<Rightarrow> (database, unit) txm" where
  "todo_set_field s A i v f = (case v of
       None \<Rightarrow> tx_return ()
     | Some x \<Rightarrow> tx_then (tx_wrap s (tx_exec (at_stmt A) (sql_update todos_t (\<lambda>r. d_id r = i)
           (\<lambda>r. (f x r)\<lparr>d_updated_at := format_RFC3339Nano (in_UTC (at_now A))\<rparr>))))
         (\<lambda>_. tx_return ()))"

definition UpdateTodo_tx :: "string \<Rightarrow> TodoUpdate \<Rightarrow> (database, unit) tx_fn" where
  "UpdateTodo_tx i upd A u =
     tx_then (tx_wrap ''check todo'' (tx_exec (at_stmt A) (sql_select todos_t (\<lambda>r. d_id r = i)))) (\<lambda>rs.
     if rs = [] then tx_fail ErrNotFound
     else
       tx_then (todo_set_field ''update todo status'' A i (du_Status upd) (\<lambda>x r. r\<lparr>d_status := x\<rparr>)) (\<lambda>_.
       tx_then (todo_set_field ''update todo title'' A i (du_Title upd) (\<lambda>x r. r\<lparr>d_title := x\<rparr>)) (\<lambda>_.
       tx_then (todo_set_field ''update todo context'' A i (du_Context upd) (\<lambda>x r. r\<lparr>d_context := x\<rparr>)) (\<lambda>_.
       tx_return ()))))"

definition UpdateTodo :: "senv \<Rightarrow> string \<Rightarrow> TodoUpdate \<Rightarrow> database \<Rightarrow> (goerr + Todo) \<times> database" where
  "UpdateTodo E i upd db =
     (case RetryTx (sv_tx E) (UpdateTodo_tx i upd) () db of
        (Inl e, db') \<Rightarrow> (Inl e, db')
      | (Inr _, db') \<Rightarrow> GetTodo E i db')"

definition DeleteTodo_tx :: "string \<Rightarrow> (database, unit) tx_fn" where
  "DeleteTodo_tx i A u =
     tx_then (tx_wrap ''delete todo'' (tx_exec (at_stmt A) (sql_delete todos_t (\<lambda>r. d_id r = i))))
       (\<lambda>n. if n = 0 then tx_fail ErrNotFound else tx_return ())"

definition DeleteTodo :: "senv \<Rightarrow> string \<Rightarrow> database \<Rightarrow> (goerr + unit) \<times> database" where
  "DeleteTodo E i db = RetryTx (sv_tx E) (DeleteTodo_tx i) () db"

definition prunable :: "string \<Rightarrow> string \<Rightarrow> todo_row \<Rightarrow> bool" where
  "prunable agentID cutoff r \<longleftrightarrow> d_status r \<noteq> ''pending'' \<and> d_updated_at r < cutoff \<and>
     (agentID \<noteq> [] \<longrightarrow> d_agent_id r = agentID)"

definition PruneDoneTodos_tx :: "string \<Rightarrow> string \<Rightarrow> (database, nat) tx_fn" where
  "PruneDoneTodos_tx agentID cutoff A n =
     tx_wrap ''prune done todos'' (tx_exec (at_stmt A) (sql_delete todos_t (prunable agentID cutoff)))"

definition prune_cutoff :: "gotime \<Rightarrow> duration \<Rightarrow> string" where
  "prune_cutoff now maxAge = format_RFC3339Nano (time_add (in_UTC now) (wrap64 (- maxAge)))"

text \<open>The count that comes with an error is of no use to the caller and left out.\<close>

definition PruneDoneTodos :: "senv \<Rightarrow> string \<Rightarrow> duration \<Rightarrow> database \<Rightarrow> (goerr + nat) \<times> database" where
  "PruneDoneTodos E agentID maxAge db =
     RetryTx (sv_tx E) (PruneDoneTodos_tx agentID (prune_cutoff (sv_now E 0) maxAge)) 0 db"

text \<open>The loop over the identifiers, from position \<open>k\<close> on.\<close>

fun reorder_each :: "string \<Rightarrow> string \<Rightarrow> database attempt \<Rightarrow> nat \<Rightarrow> string list \<Rightarrow> (database, unit) txm" where
  "reorder_each agentID now A k [] = tx_return ()"
| "reorder_each agentID now A k (i # ids) =
     tx_then (tx_wrap (''reorder todo '' @ i) (tx_exec (at_stmt A)
         (sql_update todos_t (\<lambda>r. d_id r = i \<and> d_agent_id r = agentID)
            (\<lambda>r. r\<lparr>d_sort_order := int k, d_updated_at := now\<rparr>))))
       (\<lambda>n. if n = 0 then tx_fail ErrNotFound else reorder_each agentID now A (Suc k) ids)"

definition ReorderTodos_tx :: "string \<Rightarrow> string list \<Rightarrow> (database, unit) tx_fn" where
  "ReorderTodos_tx agentID ids A u =
     reorder_each agentID (format_RFC3339Nano (in_UTC (at_now A))) A 0 ids"

definition ReorderTodos :: "senv \<Rightarrow> string \<Rightarrow> string list \<Rightarrow> database \<Rightarrow> (goerr + unit) \<times> database" where
  "ReorderTodos E agentID ids db = RetryTx (sv_tx E) (ReorderTodos_tx agentID ids) () db"

section \<open>The database stays well-formed\<close>

interpretation create_todo: tx_body "CreateTodo_tx r" db_ok for r
  by (rule tx_bodyI, unfold CreateTodo_tx_def, intro tx_pres) (simp_all add: stmt_simps)

lemma todo_set_field_pres [tx_pres]:
  "(\<And>x r. d_id (f x r) = d_id r) \<Longrightarrow> preserves db_ok (todo_set_field s A i v f)"
  unfolding todo_set_field_def by (intro tx_pres) (simp_all add: stmt_simps)

interpretation update_todo: tx_body "UpdateTodo_tx i upd" db_ok for i upd
  by (rule tx_bodyI, unfold UpdateTodo_tx_def, intro tx_pres) (simp_all add: stmt_simps sql_select_def)

interpretation delete_todo: tx_body "DeleteTodo_tx i" db_ok for i
  by (rule tx_bodyI, unfold DeleteTodo_tx_def, intro tx_pres) (simp_all add: stmt_simps)

interpretation prune_todos: tx_body "PruneDoneTodos_tx a cutoff" db_ok for a cutoff
  by (rule tx_bodyI, unfold PruneDoneTodos_tx_def, intro tx_pres) (simp_all add: stmt_simps)

lemma reorder_each_pres: "preserves db_ok (reorder_each a now A k ids)"
  by (induction ids arbitrary: k) (unfold reorder_each.simps, (intro tx_pres, (simp_all add: stmt_simps)?)+)

interpretation reorder_todos: tx_body "ReorderTodos_tx a ids" db_ok for a ids
  by (rule tx_bodyI, unfold ReorderTodos_tx_def, rule reorder_each_pres)

lemma GetTodo_keeps: "others_keep I E \<Longrightarrow> I db \<Longrightarrow> I (snd (GetTodo E i db))"
  by (auto simp: GetTodo_def others_keepD [of I E] dest!: query_dbD split: prod.splits)

lemma todo_ops_db_ok:
  assumes "others_keep db_ok E" "db_ok db"
  shows "db_ok (snd (CreateTodo E t db))" "db_ok (snd (GetTodo E i db))" "db_ok (snd (ListTodos E f db))"
    and "db_ok (snd (UpdateTodo E i upd db))" "db_ok (snd (DeleteTodo E i db))"
    and "db_ok (snd (PruneDoneTodos E a age db))" "db_ok (snd (ReorderTodos E a ids db))"
  using assms create_todo.RetryTx_inv [of "sv_tx E" db] update_todo.RetryTx_inv [of "sv_tx E" db]
    delete_todo.RetryTx_inv [of "sv_tx E" db] prune_todos.RetryTx_inv [of "sv_tx E" db]
    reorder_todos.RetryTx_inv [of "sv_tx E" db] GetTodo_keeps [of db_ok E]
  by (auto simp: CreateTodo_def UpdateTodo_def DeleteTodo_def PruneDoneTodos_def ReorderTodos_def ListTodos_def Let_def
      others_keepD [of db_ok E] dest!: query_dbD split: prod.splits sum.splits)
     (metis snd_conv)+

section \<open>How the operations run undisturbed\<close>

lemma select_todo_row:
  "db_ok db \<Longrightarrow> filter (\<lambda>r. d_id r = i) (db_todos db) =
     (case row_at todos_t i db of None \<Rightarrow> [] | Some r \<Rightarrow> [r])"
  using todos.select_row_at [of db i] by (simp add: db_ok_def)

lemma GetTodo_run:
  "quiet E \<Longrightarrow> db_ok db \<Longrightarrow> GetTodo E i db =
     ((case row_at todos_t i db of None \<Rightarrow> Inl ErrNotFound | Some r \<Rightarrow> Inr (finishTodoScan r)), db)"
  by (cases "row_at todos_t i db")
    (simp_all add: GetTodo_def select_todo_row first_row_def scanTodoRow_def scan_row_def)

lemma CreateTodo_run:
  assumes "quiet E" "sv_uuid E \<notin> d_id ` set (db_todos db)"
  shows "CreateTodo E t db = (Inr (new_todo E t),
    snd (sql_insert todos_t (todo_insert_row (new_todo E t) (in_UTC (sv_now E 0))) db))"
proof -
  have A: "calm (sv_tx E 0)" using assms(1) by simp
  let ?x = "todo_insert_row (new_todo E t) (in_UTC (sv_now E 0))"
  have "d_id ?x = sv_uuid E" by (simp add: todo_insert_row_def new_todo_def Let_def)
  then have "may_insert todos_t ?x db" using assms(2) by (simp add: may_insert_def)
  then have "\<exists>u. CreateTodo_tx ?x (sv_tx E 0) () (begin_tx db) = (Inr (), u) \<and> \<not> tx_aborted u \<and>
      tx_db u = snd (sql_insert todos_t ?x db)"
    using A by (simp add: CreateTodo_tx_def tx_simps sql_insert_def)
  then show ?thesis
    using RetryTx_commit [of "sv_tx E" "CreateTodo_tx ?x", OF A] by (auto simp: CreateTodo_def Let_def)
qed

text \<open>What the three optional assignments make of the row.\<close>

definition set_field :: "string option \<Rightarrow> (string \<Rightarrow> todo_row \<Rightarrow> todo_row) \<Rightarrow> string \<Rightarrow> todo_row \<Rightarrow> todo_row" where
  "set_field v f now r = (case v of None \<Rightarrow> r | Some x \<Rightarrow> (f x r)\<lparr>d_updated_at := now\<rparr>)"

definition todo_set :: "TodoUpdate \<Rightarrow> string \<Rightarrow> todo_row \<Rightarrow> todo_row" where
  "todo_set upd now r =
     set_field (du_Context upd) (\<lambda>x r. r\<lparr>d_context := x\<rparr>) now
      (set_field (du_Title upd) (\<lambda>x r. r\<lparr>d_title := x\<rparr>) now
        (set_field (du_Status upd) (\<lambda>x r. r\<lparr>d_status := x\<rparr>) now r))"

lemma set_field_simps [simp]:
  "set_field None f now = (\<lambda>r. r)" "set_field (Some x) f now = (\<lambda>r. (f x r)\<lparr>d_updated_at := now\<rparr>)"
  by (simp_all add: set_field_def [abs_def])

lemma set_field_id [simp]: "(\<And>x r. d_id (f x r) = d_id r) \<Longrightarrow> d_id (set_field v f now r) = d_id r"
  by (cases v) simp_all

lemma todo_set_id [simp]: "d_id (todo_set upd now r) = d_id r"
  by (simp add: todo_set_def)

lemma todo_set_field_run:
  assumes "calm A" "\<not> tx_aborted t"
  shows "\<exists>t'. todo_set_field s A i v f t = (Inr (), t') \<and> \<not> tx_aborted t' \<and>
    tx_db t' = snd (sql_update todos_t (\<lambda>r. d_id r = i) (set_field v f (format_RFC3339Nano (in_UTC (at_now A)))) (tx_db t))"
proof (cases v)
  case None
  then show ?thesis using assms by (simp add: todo_set_field_def tx_simps sql_update_def)
next
  case (Some x)
  then show ?thesis
    using assms by (simp add: todo_set_field_def tx_simps sql_update_def)
qed

lemma sql_update_twice:
  assumes "\<And>x. d_id (f x) = d_id x"
  shows "snd (sql_update todos_t (\<lambda>r. d_id r = i) g (snd (sql_update todos_t (\<lambda>r. d_id r = i) f db))) =
    snd (sql_update todos_t (\<lambda>r. d_id r = i) (\<lambda>r. g (f r)) db)"
  using assms by (simp add: sql_update_def comp_def)

lemma UpdateTodo_body:
  assumes "calm A" "i \<in> d_id ` set (db_todos db)"
  shows "\<exists>t. UpdateTodo_tx i upd A () (begin_tx db) = (Inr (), t) \<and> \<not> tx_aborted t \<and>
    tx_db t = snd (sql_update todos_t (\<lambda>r. d_id r = i) (todo_set upd (format_RFC3339Nano (in_UTC (at_now A)))) db)"
proof -
  let ?now = "format_RFC3339Nano (in_UTC (at_now A))"
  let ?t0 = "(begin_tx db)\<lparr>tx_db := db, tx_count := 1\<rparr>"
  have ne: "filter (\<lambda>r. d_id r = i) (db_todos db) \<noteq> []"
    using assms(2) by (auto simp: filter_empty_conv)
  have "\<not> tx_aborted ?t0" by simp
  from todo_set_field_run [OF assms(1) this, of "''update todo status''" i "du_Status upd" "\<lambda>x r. r\<lparr>d_status := x\<rparr>"]
  obtain t1 where t1: "todo_set_field ''update todo status'' A i (du_Status upd) (\<lambda>x r. r\<lparr>d_status := x\<rparr>) ?t0 = (Inr (), t1)"
    "\<not> tx_aborted t1" "tx_db t1 = snd (sql_update todos_t (\<lambda>r. d_id r = i) (set_field (du_Status upd) (\<lambda>x r. r\<lparr>d_status := x\<rparr>) ?now) db)"
    by auto
  from todo_set_field_run [OF assms(1) t1(2), of "''update todo title''" i "du_Title upd" "\<lambda>x r. r\<lparr>d_title := x\<rparr>"]
  obtain t2 where t2: "todo_set_field ''update todo title'' A i (du_Title upd) (\<lambda>x r. r\<lparr>d_title := x\<rparr>) t1 = (Inr (), t2)"
    "\<not> tx_aborted t2" "tx_db t2 = snd (sql_update todos_t (\<lambda>r. d_id r = i) (set_field (du_Title upd) (\<lambda>x r. r\<lparr>d_title := x\<rparr>) ?now) (tx_db t1))"
    by auto
  from todo_set_field_run [OF assms(1) t2(2), of "''update todo context''" i "du_Context upd" "\<lambda>x r. r\<lparr>d_context := x\<rparr>"]
  obtain t3 where t3: "todo_set_field ''update todo context'' A i (du_Context upd) (\<lambda>x r. r\<lparr>d_context := x\<rparr>) t2 = (Inr (), t3)"
    "\<not> tx_aborted t3" "tx_db t3 = snd (sql_update todos_t (\<lambda>r. d_id r = i) (set_field (du_Context upd) (\<lambda>x r. r\<lparr>d_context := x\<rparr>) ?now) (tx_db t2))"
    by auto
  have "UpdateTodo_tx i upd A () (begin_tx db) = (Inr (), t3)"
    using assms(1) ne t1(1) t2(1) t3(1) by (simp add: UpdateTodo_tx_def tx_simps sql_select_def)
  moreover have "tx_db t3 = snd (sql_update todos_t (\<lambda>r. d_id r = i) (todo_set upd ?now) db)"
    by (simp add: t3(3) t2(3) t1(3) sql_update_twice todo_set_def [abs_def])
  ultimately show ?thesis using t3(2) by blast
qed

lemma UpdateTodo_run:
  assumes E: "quiet E" and ok: "db_ok db"
  shows "UpdateTodo E i upd db =
    (case row_at todos_t i db of None \<Rightarrow> (Inl ErrNotFound, db)
     | Some r \<Rightarrow> (Inr (finishTodoScan (todo_set upd (format_RFC3339Nano (in_UTC (at_now (sv_tx E 0)))) r)),
         snd (sql_update todos_t (\<lambda>r. d_id r = i) (todo_set upd (format_RFC3339Nano (in_UTC (at_now (sv_tx E 0))))) db)))"
proof (cases "row_at todos_t i db")
  case None
  have A: "calm (sv_tx E 0)" using E by simp
  then have "\<exists>t. UpdateTodo_tx i upd (sv_tx E 0) () (begin_tx db) = (Inl ErrNotFound, t)"
    using None by (simp add: UpdateTodo_tx_def tx_simps sql_select_def select_todo_row [OF ok])
  then have "RetryTx (sv_tx E) (UpdateTodo_tx i upd) () db = (Inl ErrNotFound, db)"
    using RetryTx_error [of "sv_tx E" "UpdateTodo_tx i upd", OF A] by fastforce
  then show ?thesis using None by (simp add: UpdateTodo_def)
next
  case (Some r)
  have A: "calm (sv_tx E 0)" using E by simp
  let ?db = "snd (sql_update todos_t (\<lambda>r. d_id r = i) (todo_set upd (format_RFC3339Nano (in_UTC (at_now (sv_tx E 0))))) db)"
  have r: "r \<in> set (db_todos db)" "d_id r = i" using todos.row_atD [OF Some] by simp_all
  then have "i \<in> d_id ` set (db_todos db)" by blast
  from UpdateTodo_body [OF A this, of upd]
  have run: "RetryTx (sv_tx E) (UpdateTodo_tx i upd) () db = (Inr (), ?db)"
    using RetryTx_commit [of "sv_tx E" "UpdateTodo_tx i upd", OF A] by fastforce
  have "db_ok ?db" using ok by (simp add: stmt_simps)
  moreover have "row_at todos_t i ?db = Some (todo_set upd (format_RFC3339Nano (in_UTC (at_now (sv_tx E 0)))) r)"
    using todos.row_at_update [of "\<lambda>r. d_id r = i" "todo_set upd (format_RFC3339Nano (in_UTC (at_now (sv_tx E 0))))" i db] Some r(2)
    by simp
  ultimately show ?thesis using run Some E GetTodo_run [OF E, of ?db i] by (simp add: UpdateTodo_def)
qed

text \<open>
  \<open>UpdateTodo\<close> undisturbed: not found without effect, or exactly the fields named by the update are
  replaced and the time of the update recorded, which is what is returned and what a later \<open>GetTodo\<close>
  reads; other todos stay as they are.  An update that names no field succeeds and records nothing.
\<close>

theorem update_todo_spec:
  assumes "quiet E" "quiet E'" "db_ok db" "utc_ok (in_UTC (at_now (sv_tx E 0)))"
  shows "case row_at todos_t i db of None \<Rightarrow> UpdateTodo E i upd db = (Inl ErrNotFound, db)
    | Some r \<Rightarrow> (\<exists>t db'. UpdateTodo E i upd db = (Inr t, db') \<and> GetTodo E' i db' = (Inr t, db') \<and>
        (let s = finishTodoScan r; given = (du_Status upd \<noteq> None \<or> du_Title upd \<noteq> None \<or> du_Context upd \<noteq> None) in
         t = s\<lparr>td_Status := (case du_Status upd of None \<Rightarrow> td_Status s | Some x \<Rightarrow> x),
               td_Title := (case du_Title upd of None \<Rightarrow> td_Title s | Some x \<Rightarrow> x),
               td_Context := (case du_Context upd of None \<Rightarrow> td_Context s | Some x \<Rightarrow> x),
               td_UpdatedAt := (if given then in_UTC (at_now (sv_tx E 0)) else td_UpdatedAt s)\<rparr>) \<and>
        (\<forall>k. k \<noteq> i \<longrightarrow> row_at todos_t k db' = row_at todos_t k db))"
proof (cases "row_at todos_t i db")
  case None
  then show ?thesis using UpdateTodo_run [OF assms(1,3), of i upd] by simp
next
  case (Some r)
  let ?now = "format_RFC3339Nano (in_UTC (at_now (sv_tx E 0)))"
  let ?db = "snd (sql_update todos_t (\<lambda>r. d_id r = i) (todo_set upd ?now) db)"
  have run: "UpdateTodo E i upd db = (Inr (finishTodoScan (todo_set upd ?now r)), ?db)"
    using UpdateTodo_run [OF assms(1,3), of i upd] Some by simp
  have row: "row_at todos_t k ?db = (if k = i then Some (todo_set upd ?now r) else row_at todos_t k db)" for k
    using todos.row_at_update_key [of "todo_set upd ?now" k i db] Some by simp
  have "db_ok ?db" using assms(3) by (simp add: stmt_simps)
  then have get: "GetTodo E' i ?db = (Inr (finishTodoScan (todo_set upd ?now r)), ?db)"
    using GetTodo_run [OF assms(2), of ?db i] row by simp
  have ts: "parse_ts ?now = in_UTC (at_now (sv_tx E 0))" using assms(4) by simp
  have fin: "finishTodoScan (todo_set upd ?now r) = (finishTodoScan r)\<lparr>
      td_Status := (case du_Status upd of None \<Rightarrow> td_Status (finishTodoScan r) | Some x \<Rightarrow> x),
      td_Title := (case du_Title upd of None \<Rightarrow> td_Title (finishTodoScan r) | Some x \<Rightarrow> x),
      td_Context := (case du_Context upd of None \<Rightarrow> td_Context (finishTodoScan r) | Some x \<Rightarrow> x),
      td_UpdatedAt := (if du_Status upd \<noteq> None \<or> du_Title upd \<noteq> None \<or> du_Context upd \<noteq> None
        then in_UTC (at_now (sv_tx E 0)) else td_UpdatedAt (finishTodoScan r))\<rparr>"
    by (cases "du_Status upd"; cases "du_Title upd"; cases "du_Context upd")
      (simp_all add: finishTodoScan_def todo_set_def ts)
  show ?thesis unfolding Some option.case Let_def
    by (rule exI, rule exI, rule conjI, rule run, rule conjI, rule get, rule conjI, rule fin) (simp add: row)
qed


definition demo_todo :: "string \<Rightarrow> string \<Rightarrow> int \<Rightarrow> todo_row" where
  "demo_todo i st n = \<lparr>d_id = i, d_agent_id = ''ann'', d_title = ''step'', d_status = st, d_sort_order = n,
     d_parent_task = [], d_context = [], d_created_at = format_RFC3339Nano (demo_time n),
     d_updated_at = format_RFC3339Nano (demo_time n)\<rparr>"

definition demo_todos :: database where
  "demo_todos = empty_db\<lparr>db_todos := [demo_todo ''a'' TodoStatusPending 0, demo_todo ''b'' TodoStatusDone 1]\<rparr>"

lemma demo_todos_facts:
  "db_ok demo_todos" "row_at todos_t ''b'' demo_todos = Some (demo_todo ''b'' TodoStatusDone 1)"
  "row_at todos_t ''c'' demo_todos = None" "db_todos demo_todos = [demo_todo ''a'' TodoStatusPending 0, demo_todo ''b'' TodoStatusDone 1]"
  "d_id (demo_todo i st n) = i" "d_agent_id (demo_todo i st n) = ''ann''" "d_status (demo_todo i st n) = st"
  by (simp_all add: db_ok_def table_ok_def notes_ok_def demo_todos_def empty_db_def demo_todo_def
      uniq_keys_def List.map_filter_simps row_at_def)

theorem update_todo_spec_witness:
  "\<exists>t db'. UpdateTodo (quiet_senv (demo_time 9) []) ''b'' \<lparr>du_Title = Some ''redo'', du_Status = None, du_Context = None\<rparr> demo_todos = (Inr t, db') \<and>
     td_Title t = ''redo'' \<and> td_Status t = TodoStatusDone \<and> td_UpdatedAt t = demo_time 9"
proof -
  have u: "utc_ok (in_UTC (at_now (sv_tx (quiet_senv (demo_time 9) []) 0)))" by (simp, code_simp)
  from update_todo_spec [where E' = "quiet_senv (demo_time 0) []", OF quiet_senv_simps(2) quiet_senv_simps(2) demo_todos_facts(1) u, where i = "''b''"
      and upd = "\<lparr>du_Title = Some ''redo'', du_Status = None, du_Context = None\<rparr>"]
  show ?thesis unfolding demo_todos_facts(2) option.case
    by (elim exE conjE) (intro exI conjI, assumption,
      simp_all add: Let_def finishTodoScan_def demo_todos_facts in_UTC_def demo_time_def demo_todo_def)
qed

text \<open>The place of a todo in the list of identifiers; of a repeated identifier the last place counts.\<close>

fun place :: "string list \<Rightarrow> string \<Rightarrow> nat option" where
  "place [] x = None"
| "place (i # ids) x = (case place ids x of Some n \<Rightarrow> Some (Suc n) | None \<Rightarrow> if x = i then Some 0 else None)"

lemma place_None: "place ids x = None \<longleftrightarrow> x \<notin> set ids"
  by (induction ids) (auto split: option.splits)

lemma place_nth: "distinct ids \<Longrightarrow> n < length ids \<Longrightarrow> place ids (ids ! n) = Some n"
proof (induction ids arbitrary: n)
  case (Cons i ids)
  then show ?case by (cases n) (auto simp: place_None split: option.splits)
qed simp

lemma distinct_map_order: "distinct (map f (order_asc k xs)) \<longleftrightarrow> distinct (map f xs)"
  by (rule mset_eq_imp_distinct_iff) (simp add: order_asc_def)

lemma sorted_by_place:
  assumes d: "distinct ids" and zs: "distinct (map d_id zs)" "set (map d_id zs) = set ids"
    and "sorted (map d_sort_order zs)" "\<And>x. x \<in> set zs \<Longrightarrow> d_sort_order x = int (the (place ids (d_id x)))"
  shows "map d_id zs = ids"
proof -
  let ?key = "\<lambda>i. the (place ids i)"
  have key: "map ?key ids = [0..<length ids]"
    using place_nth [OF d] by (intro nth_equalityI) simp_all
  then have inj: "inj_on ?key (set ids)" by (metis distinct_map distinct_upt)
  have "map d_sort_order zs = map int (map ?key (map d_id zs))" using assms(5) by simp
  then have "sorted (map int (map ?key (map d_id zs)))" using assms(4) by (simp only:)
  then have "sorted (map ?key (map d_id zs))" by (simp add: sorted_map del: map_map)
  moreover have "distinct (map ?key (map d_id zs))"
    using zs inj by (simp add: distinct_map [of _ "map d_id zs"] del: map_map set_map)
  moreover have "set (map ?key (map d_id zs)) = set (map ?key ids)"
    using zs(2) by (simp only: set_map [of ?key])
  ultimately have "map ?key (map d_id zs) = map ?key ids"
    using key by (intro sorted_distinct_set_unique) simp_all
  moreover have "inj_on ?key (set (map d_id zs) \<union> set ids)" using inj unfolding zs(2) Un_absorb .
  ultimately show ?thesis by (rule map_inj_on)
qed

definition placed :: "string \<Rightarrow> string \<Rightarrow> nat \<Rightarrow> string list \<Rightarrow> todo_row \<Rightarrow> todo_row" where
  "placed a now k ids r = (if d_agent_id r = a
     then (case place ids (d_id r) of None \<Rightarrow> r | Some n \<Rightarrow> r\<lparr>d_sort_order := int (k + n), d_updated_at := now\<rparr>)
     else r)"

lemma placed_simps [simp]:
  "d_id (placed a now k ids r) = d_id r" "d_agent_id (placed a now k ids r) = d_agent_id r"
  "d_status (placed a now k ids r) = d_status r" "d_created_at (placed a now k ids r) = d_created_at r"
  by (simp_all add: placed_def split: option.splits)

definition owns :: "string \<Rightarrow> todo_row list \<Rightarrow> string \<Rightarrow> bool" where
  "owns a t i \<longleftrightarrow> (\<exists>r \<in> set t. d_id r = i \<and> d_agent_id r = a)"

lemma owns_map:
  assumes "\<And>r. d_id (f r) = d_id r" "\<And>r. d_agent_id (f r) = d_agent_id r"
  shows "owns a (map f t) i \<longleftrightarrow> owns a t i"
  using assms by (simp add: owns_def)

lemma reorder_each_run:
  assumes "calm A"
  shows "\<not> tx_aborted t \<Longrightarrow> \<exists>t'. if \<forall>i \<in> set ids. owns a (db_todos (tx_db t)) i
    then reorder_each a now A k ids t = (Inr (), t') \<and> \<not> tx_aborted t' \<and>
      tx_db t' = (tx_db t)\<lparr>db_todos := map (placed a now k ids) (db_todos (tx_db t))\<rparr>
    else reorder_each a now A k ids t = (Inl ErrNotFound, t')"
proof (induction ids arbitrary: t k)
  case Nil
  have "placed a now k [] = (\<lambda>r. r)" by (rule ext) (simp add: placed_def)
  then show ?case using Nil by (simp add: tx_simps)
next
  case (Cons i ids)
  let ?f = "\<lambda>r. if d_id r = i \<and> d_agent_id r = a then r\<lparr>d_sort_order := int k, d_updated_at := now\<rparr> else r"
  let ?u = "t\<lparr>tx_db := (tx_db t)\<lparr>db_todos := map ?f (db_todos (tx_db t))\<rparr>, tx_count := Suc (tx_count t)\<rparr>"
  let ?n = "length (filter (\<lambda>r. d_id r = i \<and> d_agent_id r = a) (db_todos (tx_db t)))"
  have step: "reorder_each a now A k (i # ids) t =
      (if ?n = 0 then (Inl ErrNotFound, ?u) else reorder_each a now A (Suc k) ids ?u)"
    using assms Cons.prems by (simp add: tx_simps sql_update_def)
  have n: "?n = 0 \<longleftrightarrow> \<not> owns a (db_todos (tx_db t)) i"
    by (auto simp: owns_def filter_empty_conv)
  have own: "owns a (db_todos (tx_db ?u)) j \<longleftrightarrow> owns a (db_todos (tx_db t)) j" for j
    using owns_map [of ?f] by simp
  have "placed a now (Suc k) ids (?f r) = placed a now k (i # ids) r" for r
    by (cases "d_agent_id r = a"; cases "place ids (d_id r)"; cases "d_id r = i") (simp_all add: placed_def)
  then have comp: "(tx_db ?u)\<lparr>db_todos := map (placed a now (Suc k) ids) (db_todos (tx_db ?u))\<rparr> =
      (tx_db t)\<lparr>db_todos := map (placed a now k (i # ids)) (db_todos (tx_db t))\<rparr>"
    by simp
  have "\<not> tx_aborted ?u" using Cons.prems by simp
  then obtain t' where t': "if \<forall>i \<in> set ids. owns a (db_todos (tx_db t)) i
      then reorder_each a now A (Suc k) ids ?u = (Inr (), t') \<and> \<not> tx_aborted t' \<and>
        tx_db t' = (tx_db t)\<lparr>db_todos := map (placed a now k (i # ids)) (db_todos (tx_db t))\<rparr>
      else reorder_each a now A (Suc k) ids ?u = (Inl ErrNotFound, t')"
    using Cons.IH [of ?u "Suc k", unfolded own comp] by blast
  show ?case
  proof (cases "owns a (db_todos (tx_db t)) i")
    case True
    then have "(\<forall>j \<in> set (i # ids). owns a (db_todos (tx_db t)) j) \<longleftrightarrow> (\<forall>j \<in> set ids. owns a (db_todos (tx_db t)) j)"
      by simp
    moreover have "reorder_each a now A k (i # ids) t = reorder_each a now A (Suc k) ids ?u"
      unfolding step n using True by (simp only: simp_thms if_False)
    ultimately show ?thesis using t' by (intro exI [of _ t']) (simp only:)
  next
    case False
    then have "\<not> (\<forall>j \<in> set (i # ids). owns a (db_todos (tx_db t)) j)" by simp
    then show ?thesis unfolding step n using False by (intro exI [of _ ?u]) (simp only: if_False if_True simp_thms)
  qed
qed

lemma ReorderTodos_run:
  assumes "quiet E"
  shows "ReorderTodos E a ids db = (if \<forall>i \<in> set ids. owns a (db_todos db) i
    then (Inr (), db\<lparr>db_todos := map (placed a (format_RFC3339Nano (in_UTC (at_now (sv_tx E 0)))) 0 ids) (db_todos db)\<rparr>)
    else (Inl ErrNotFound, db))"
proof -
  have A: "calm (sv_tx E 0)" using assms by simp
  show ?thesis
    using reorder_each_run [OF A, of "begin_tx db" ids a "format_RFC3339Nano (in_UTC (at_now (sv_tx E 0)))" 0]
      RetryTx_commit [of "sv_tx E" "ReorderTodos_tx a ids", OF A]
      RetryTx_error [of "sv_tx E" "ReorderTodos_tx a ids", OF A]
    by (fastforce simp: ReorderTodos_def ReorderTodos_tx_def split: if_splits)
qed

text \<open>The todos of an agent in the order \<open>ListTodos\<close> gives them, before it cuts a page out of them.\<close>

definition todo_order :: "string \<Rightarrow> database \<Rightarrow> todo_row list" where
  "todo_order a db = order_asc d_sort_order (order_asc d_created_at (filter (\<lambda>r. d_agent_id r = a) (db_todos db)))"

lemma ListTodos_page:
  "quiet E \<Longrightarrow> ListTodos E \<lparr>df_AgentID = a, df_Status = [], df_Limit = lmt, df_Offset = off\<rparr> db =
     (Inr (map finishTodoScan (take (if lmt > 0 then nat lmt else 100) (drop (nat off) (todo_order a db)))), db)"
  by (simp add: ListTodos_def query_rows_def calm_access_def quiet_def select_todos_def todo_matches_def [abs_def]
      paginate_def todo_order_def)

lemma placed_order:
  assumes "db_ok db" "\<forall>i \<in> set ids. owns a (db_todos db) i" and d: "distinct ids"
    and db': "db' = db\<lparr>db_todos := map (placed a now 0 ids) (db_todos db)\<rparr>"
  shows "distinct (map d_id (todo_order a db'))"
    and "set (map d_id (todo_order a db')) = {d_id r | r. r \<in> set (db_todos db) \<and> d_agent_id r = a}"
    and "filter (\<lambda>i. i \<in> set ids) (map d_id (todo_order a db')) = ids"
proof -
  let ?mine = "map (placed a now 0 ids) (filter (\<lambda>r. d_agent_id r = a) (db_todos db))"
  let ?zs = "filter (\<lambda>x. d_id x \<in> set ids) (todo_order a db')"
  have zs: "todo_order a db' = order_asc d_sort_order (order_asc d_created_at ?mine)"
    by (simp add: todo_order_def filter_map comp_def db')
  have dist: "distinct (map d_id ?mine)"
    using assms(1) by (simp add: db_ok_def table_ok_def comp_def distinct_map_filter)
  show all: "distinct (map d_id (todo_order a db'))"
    "set (map d_id (todo_order a db')) = {d_id r | r. r \<in> set (db_todos db) \<and> d_agent_id r = a}"
    using dist unfolding zs by (simp_all only: distinct_map_order) (auto simp: image_image)
  have "map d_id ?zs = ids"
  proof (rule sorted_by_place [OF d])
    show "distinct (map d_id ?zs)" using all(1) by (rule distinct_map_filter)
    have "set (map d_id ?zs) = set (map d_id (todo_order a db')) \<inter> set ids" by auto
    then show "set (map d_id ?zs) = set ids" unfolding all(2) using assms(2) by (auto simp: owns_def)
    show "sorted (map d_sort_order ?zs)" by (intro sorted_filter) (simp add: zs order_asc_def)
    show "d_sort_order x = int (the (place ids (d_id x)))" if "x \<in> set ?zs" for x
      using that place_None [of ids] by (auto simp: zs placed_def split: option.splits)
  qed
  then show "filter (\<lambda>i. i \<in> set ids) (map d_id (todo_order a db')) = ids"
    by (simp add: filter_map comp_def)
qed

text \<open>
  C25. \<open>ReorderTodos\<close> undisturbed.  Unless every identifier names a todo of the agent, nothing is changed
  and the answer is not found.  Otherwise the todos named change in nothing but their position and the
  time of their update, and all other rows stay as they are.  If no identifier is repeated, \<open>ListTodos\<close>
  then lists the agent's todos in an order in which those named come as asked for; when they are all the
  agent's todos, that order is the list of identifiers itself.  What a call returns of that order is the
  page it asks for: the first 100, unless it gives a limit or an offset.
\<close>

theorem reorder_then_list_todos:
  assumes "quiet E" "quiet E'" "db_ok db"
  shows "if \<forall>i \<in> set ids. owns a (db_todos db) i
    then (\<exists>db'. ReorderTodos E a ids db = (Inr (), db') \<and>
      (\<forall>k. case row_at todos_t k db of
          None \<Rightarrow> row_at todos_t k db' = None
        | Some r \<Rightarrow> if d_agent_id r = a \<and> k \<in> set ids
            then \<exists>p. row_at todos_t k db' = Some (r\<lparr>d_sort_order := p,
              d_updated_at := format_RFC3339Nano (in_UTC (at_now (sv_tx E 0)))\<rparr>)
            else row_at todos_t k db' = Some r) \<and>
      (distinct ids \<longrightarrow> (\<exists>order. distinct order \<and>
        set order = {d_id r | r. r \<in> set (db_todos db) \<and> d_agent_id r = a} \<and>
        filter (\<lambda>i. i \<in> set ids) order = ids \<and>
        ((\<forall>r \<in> set (db_todos db). d_agent_id r = a \<longrightarrow> d_id r \<in> set ids) \<longrightarrow> order = ids) \<and>
        (\<forall>lmt off. \<exists>ts.
          ListTodos E' \<lparr>df_AgentID = a, df_Status = [], df_Limit = lmt, df_Offset = off\<rparr> db' = (Inr ts, db') \<and>
          map td_ID ts = take (if lmt > 0 then nat lmt else 100) (drop (nat off) order)))))
    else ReorderTodos E a ids db = (Inl ErrNotFound, db)"
proof (cases "\<forall>i \<in> set ids. owns a (db_todos db) i")
  case False
  then show ?thesis using ReorderTodos_run [OF assms(1), of a ids db] by (simp only: if_False)
next
  case True
  define now where "now = format_RFC3339Nano (in_UTC (at_now (sv_tx E 0)))"
  define db' where "db' = db\<lparr>db_todos := map (placed a now 0 ids) (db_todos db)\<rparr>"
  have run: "ReorderTodos E a ids db = (Inr (), db')"
    using ReorderTodos_run [OF assms(1), of a ids db] True by (simp add: now_def db'_def)
  have "row_at todos_t k db' = map_option (placed a now 0 ids) (row_at todos_t k db)" for k
    using todos.row_at_update [of "\<lambda>_. True" "placed a now 0 ids" k db] by (simp add: sql_update_def db'_def)
  then have rows: "case row_at todos_t k db of None \<Rightarrow> row_at todos_t k db' = None
      | Some r \<Rightarrow> if d_agent_id r = a \<and> k \<in> set ids
          then \<exists>p. row_at todos_t k db' = Some (r\<lparr>d_sort_order := p, d_updated_at := now\<rparr>)
          else row_at todos_t k db' = Some r" for k
    using todos.row_atD [of k db] place_None [of ids k]
    by (cases "place ids k") (auto simp: placed_def split: option.split)
  let ?order = "map d_id (todo_order a db')"
  have placed: "distinct ids \<longrightarrow> distinct ?order \<and> set ?order = {d_id r | r. r \<in> set (db_todos db) \<and> d_agent_id r = a} \<and>
      filter (\<lambda>i. i \<in> set ids) ?order = ids"
    using placed_order [OF assms(3) True _ db'_def] by blast
  have complete: "?order = ids"
    if "set ?order = {d_id r | r. r \<in> set (db_todos db) \<and> d_agent_id r = a}" "filter (\<lambda>i. i \<in> set ids) ?order = ids"
      "\<forall>r \<in> set (db_todos db). d_agent_id r = a \<longrightarrow> d_id r \<in> set ids"
  proof -
    have "\<forall>i \<in> set ?order. i \<in> set ids" using that(1,3) by auto
    then show ?thesis using that(2) by (simp only: filter_True)
  qed
  have pages: "\<exists>ts. ListTodos E' \<lparr>df_AgentID = a, df_Status = [], df_Limit = lmt, df_Offset = off\<rparr> db' = (Inr ts, db') \<and>
      map td_ID ts = take (if lmt > 0 then nat lmt else 100) (drop (nat off) ?order)" for lmt off
    by (simp add: ListTodos_page [OF assms(2)] comp_def finishTodoScan_def take_map drop_map)
  have "distinct ids \<longrightarrow> (\<exists>order. distinct order \<and>
      set order = {d_id r | r. r \<in> set (db_todos db) \<and> d_agent_id r = a} \<and>
      filter (\<lambda>i. i \<in> set ids) order = ids \<and>
      ((\<forall>r \<in> set (db_todos db). d_agent_id r = a \<longrightarrow> d_id r \<in> set ids) \<longrightarrow> order = ids) \<and>
      (\<forall>lmt off. \<exists>ts.
        ListTodos E' \<lparr>df_AgentID = a, df_Status = [], df_Limit = lmt, df_Offset = off\<rparr> db' = (Inr ts, db') \<and>
        map td_ID ts = take (if lmt > 0 then nat lmt else 100) (drop (nat off) order)))"
    using placed complete pages by (intro impI exI [of _ ?order]) blast
  then show ?thesis unfolding if_P [OF True] using run rows unfolding now_def by blast
qed

theorem reorder_then_list_todos_witness:
  "\<exists>db' ts. ReorderTodos (quiet_senv (demo_time 9) []) ''ann'' [''b'', ''a''] demo_todos = (Inr (), db') \<and>
     ListTodos (quiet_senv (demo_time 9) []) \<lparr>df_AgentID = ''ann'', df_Status = [], df_Limit = 0, df_Offset = 0\<rparr> db' = (Inr ts, db') \<and>
     map td_ID ts = [''b'', ''a'']"
proof -
  have own: "\<forall>i \<in> set [''b'', ''a'']. owns ''ann'' (db_todos demo_todos) i"
    by (simp add: owns_def demo_todos_facts)
  have all: "distinct [''b'', ''a'']"
    "\<forall>r \<in> set (db_todos demo_todos). d_agent_id r = ''ann'' \<longrightarrow> d_id r \<in> set [''b'', ''a'']"
    by (simp_all add: demo_todos_facts)
  from reorder_then_list_todos [where E' = "quiet_senv (demo_time 9) []" and ids = "[''b'', ''a'']" and a = "''ann''",
      OF quiet_senv_simps(2) quiet_senv_simps(2) demo_todos_facts(1), of "demo_time 9" "[]"]
  obtain db' order where "ReorderTodos (quiet_senv (demo_time 9) []) ''ann'' [''b'', ''a''] demo_todos = (Inr (), db')"
    "order = [''b'', ''a'']"
    "\<forall>lmt off. \<exists>ts. ListTodos (quiet_senv (demo_time 9) []) \<lparr>df_AgentID = ''ann'', df_Status = [], df_Limit = lmt, df_Offset = off\<rparr> db' =
       (Inr ts, db') \<and> map td_ID ts = take (if lmt > 0 then nat lmt else 100) (drop (nat off) order)"
    unfolding if_P [OF own] using all by blast
  moreover from this(3) obtain ts where
    "ListTodos (quiet_senv (demo_time 9) []) \<lparr>df_AgentID = ''ann'', df_Status = [], df_Limit = 0, df_Offset = 0\<rparr> db' = (Inr ts, db')"
    "map td_ID ts = take 100 order" by fastforce
  ultimately show ?thesis by auto
qed

text \<open>
  C34. \<open>PruneDoneTodos\<close> undisturbed returns how many todos it deleted.  No pending todo goes, and none of
  another agent when one is named; of the others those go whose last update is a full second or more
  before the cutoff, and none that was updated a full second or more after it.
\<close>

theorem prune_done_todos_spec:
  assumes "quiet E" "utc_ok cutoff" "cutoff = time_add (in_UTC (sv_now E 0)) (wrap64 (- maxAge))"
  shows "\<exists>n db'. PruneDoneTodos E a maxAge db = (Inr n, db') \<and> length (db_todos db') + n = length (db_todos db) \<and>
    set (db_todos db') \<subseteq> set (db_todos db) \<and>
    (\<forall>r \<in> set (db_todos db). \<forall>u. utc_ok u \<and> d_updated_at r = format_RFC3339Nano u \<longrightarrow>
       (d_status r = TodoStatusPending \<or> (a \<noteq> [] \<and> d_agent_id r \<noteq> a) \<or> instant cutoff + Second \<le> instant u \<longrightarrow>
          r \<in> set (db_todos db')) \<and>
       (d_status r \<noteq> TodoStatusPending \<and> (a = [] \<or> d_agent_id r = a) \<and> instant u + Second \<le> instant cutoff \<longrightarrow>
          r \<notin> set (db_todos db')))"
proof -
  have A: "calm (sv_tx E 0)" using assms(1) by simp
  let ?P = "prunable a (format_RFC3339Nano cutoff)"
  let ?db = "db\<lparr>db_todos := filter (\<lambda>r. \<not> ?P r) (db_todos db)\<rparr>"
  have "\<exists>t. PruneDoneTodos_tx a (format_RFC3339Nano cutoff) (sv_tx E 0) 0 (begin_tx db) =
      (Inr (length (filter ?P (db_todos db))), t) \<and> \<not> tx_aborted t \<and> tx_db t = ?db"
    using A by (simp add: PruneDoneTodos_tx_def tx_simps sql_delete_def)
  then have run: "PruneDoneTodos E a maxAge db = (Inr (length (filter ?P (db_todos db))), ?db)"
    using RetryTx_commit [of "sv_tx E" "PruneDoneTodos_tx a (format_RFC3339Nano cutoff)", OF A] assms(3)
    by (auto simp: PruneDoneTodos_def prune_cutoff_def)
  have len: "length (filter (\<lambda>r. \<not> ?P r) (db_todos db)) + length (filter ?P (db_todos db)) = length (db_todos db)"
    using sum_length_filter_compl [of ?P "db_todos db"] by simp
  have cut: "?P r \<longleftrightarrow> d_status r \<noteq> TodoStatusPending \<and> (a = [] \<or> d_agent_id r = a) \<and> format_RFC3339Nano u < format_RFC3339Nano cutoff"
    if "d_updated_at r = format_RFC3339Nano u" for r u
    using that by (auto simp: prunable_def TodoStatusPending_def)
  have "\<not> format_RFC3339Nano u < format_RFC3339Nano cutoff" if "utc_ok u" "instant cutoff + Second \<le> instant u" for u
    using format_less_second(1) [OF that(1) assms(2)] that(2) by (auto simp: Second_def)
  then show ?thesis
    using run len cut format_less_second(2) [OF _ assms(2)]
    by (intro exI [of _ "length (filter ?P (db_todos db))"] exI [of _ ?db]) auto
qed

theorem prune_done_todos_spec_witness:
  "\<exists>n db'. PruneDoneTodos (quiet_senv (demo_time (9 * Second)) []) ''ann'' Second demo_todos = (Inr n, db') \<and>
     demo_todo ''a'' TodoStatusPending 0 \<in> set (db_todos db') \<and> demo_todo ''b'' TodoStatusDone 1 \<notin> set (db_todos db')"
proof -
  let ?E = "quiet_senv (demo_time (9 * Second)) []"
  let ?c = "demo_time (8 * Second)"
  have u: "utc_ok ?c" "utc_ok (demo_time 0)" "utc_ok (demo_time 1)" by (code_simp, code_simp, code_simp)
  have c: "?c = time_add (in_UTC (sv_now ?E 0)) (wrap64 (- Second))"
    by (simp add: demo_time_def time_add_def in_UTC_def wrap64_id Second_def)
  have up: "d_updated_at (demo_todo i st n) = format_RFC3339Nano (demo_time n)" for i st n
    by (simp add: demo_todo_def)
  have le: "instant (demo_time 1) + Second \<le> instant ?c" by (simp add: demo_time_def Second_def)
  obtain n db' where "PruneDoneTodos ?E ''ann'' Second demo_todos = (Inr n, db')"
    and each: "\<And>r u. r \<in> set (db_todos demo_todos) \<Longrightarrow> utc_ok u \<Longrightarrow> d_updated_at r = format_RFC3339Nano u \<Longrightarrow>
       (d_status r = TodoStatusPending \<longrightarrow> r \<in> set (db_todos db')) \<and>
       (d_status r \<noteq> TodoStatusPending \<and> d_agent_id r = ''ann'' \<and> instant u + Second \<le> instant ?c \<longrightarrow> r \<notin> set (db_todos db'))"
    using prune_done_todos_spec [OF quiet_senv_simps(2) u(1) c, of "''ann''" demo_todos] by blast
  moreover have "demo_todo ''a'' TodoStatusPending 0 \<in> set (db_todos db')"
    using each [of "demo_todo ''a'' TodoStatusPending 0", OF _ u(2) up] by (simp add: demo_todos_facts)
  moreover have "demo_todo ''b'' TodoStatusDone 1 \<notin> set (db_todos db')"
    using each [of "demo_todo ''b'' TodoStatusDone 1", OF _ u(3) up] le
    by (simp add: demo_todos_facts TodoStatusPending_def TodoStatusDone_def)
  ultimately show ?thesis by blast
qed

text \<open>
  \<open>CreateTodo\<close> with a fresh identifier stores a pending todo with the fields given, and \<open>GetTodo\<close> reads
  back what was returned.
\<close>

theorem create_then_get_todo:
  assumes "quiet E" "quiet E'" "db_ok db" "sv_uuid E \<notin> d_id ` set (db_todos db)" "utc_ok (in_UTC (sv_now E 0))"
  shows "\<exists>t db'. CreateTodo E t0 db = (Inr t, db') \<and> td_ID t = sv_uuid E \<and> td_Status t = TodoStatusPending \<and>
    td_Title t = td_Title t0 \<and> td_AgentID t = td_AgentID t0 \<and> td_SortOrder t = td_SortOrder t0 \<and>
    GetTodo E' (sv_uuid E) db' = (Inr t, db')"
proof -
  let ?t = "new_todo E t0"
  let ?x = "todo_insert_row ?t (in_UTC (sv_now E 0))"
  let ?db = "snd (sql_insert todos_t ?x db)"
  have id: "d_id ?x = sv_uuid E" by (simp add: todo_insert_row_def new_todo_def Let_def)
  then have "may_insert todos_t ?x db" using assms(4) by (simp add: may_insert_def)
  then have "row_at todos_t (sv_uuid E) ?db = Some ?x" using todos.row_at_insert [of ?x db] id by simp
  moreover have "finishTodoScan ?x = ?t"
    using assms(5) by (cases t0) (simp add: finishTodoScan_def todo_insert_row_def new_todo_def Let_def)
  moreover have "db_ok ?db" using assms(3) by (simp add: stmt_simps)
  ultimately have "GetTodo E' (sv_uuid E) ?db = (Inr ?t, ?db)" using GetTodo_run [OF assms(2)] by simp
  then show ?thesis
    using CreateTodo_run [OF assms(1,4), of t0]
    by (intro exI [of _ ?t] exI [of _ ?db]) (simp add: new_todo_def Let_def)
qed

definition demo_new_todo :: Todo where
  "demo_new_todo = \<lparr>td_ID = [], td_AgentID = ''ann'', td_Title = ''test'', td_Status = TodoStatusDone, td_SortOrder = 2,
     td_ParentTask = [], td_Context = [], td_CreatedAt = zero_time, td_UpdatedAt = zero_time\<rparr>"

theorem create_then_get_todo_witness:
  "\<exists>t db'. CreateTodo (quiet_senv (demo_time 5) ''c'') demo_new_todo demo_todos = (Inr t, db') \<and>
     td_Title t = ''test'' \<and> td_Status t = TodoStatusPending \<and> GetTodo (quiet_senv (demo_time 6) []) ''c'' db' = (Inr t, db')"
proof -
  have u: "utc_ok (in_UTC (sv_now (quiet_senv (demo_time 5) ''c'') 0))" by (simp, code_simp)
  have f: "sv_uuid (quiet_senv (demo_time 5) ''c'') \<notin> d_id ` set (db_todos demo_todos)"
    by (simp add: demo_todos_facts)
  from create_then_get_todo [where E' = "quiet_senv (demo_time 6) []" and ?t0.0 = demo_new_todo, OF quiet_senv_simps(2) quiet_senv_simps(2) demo_todos_facts(1) f u]
  show ?thesis by (elim exE conjE) (intro exI conjI, assumption, simp_all add: demo_new_todo_def)
qed

end
