(* ===== verification/TodoApi.thy ===== *)
theory TodoApi
  imports Http TodoStore
begin

text \<open>
  \<^verbatim>\<open>internal/handlers/todos.go\<close>.  Todos belong to the agent of the \<^verbatim>\<open>X-Agent-ID\<close> header; update and
  delete read the todo in one call of the store and change it in a second.
\<close>

section \<open>The code\<close>

record todoCreateInput =
  tdc_XAgentID :: string
  tdc_Title :: string
  tdc_ParentTask :: string
  tdc_Context :: string
  tdc_SortOrder :: int

record todoListInput =
  tdl_XAgentID :: string
  tdl_Status :: string
  tdl_Limit :: int
  tdl_Offset :: int

record todoUpdateInput =
  tdu_ID :: string
  tdu_XAgentID :: string
  tdu_Title :: "string option"
  tdu_Status :: "TodoStatus option"
  tdu_Context :: "string option"

record todoDeleteInput =
  tdd_ID :: string
  tdd_XAgentID :: string

record todoReorderInput =
  tdr_XAgentID :: string
  tdr_IDs :: "string list"

definition need_agent :: http_error where
  "need_agent = http_err 422 ''X-Agent-ID header is required''"

definition todo_missing :: "(goerr \<times> http_error) list" where
  "todo_missing = [(ErrNotFound, http_err 404 ''todo not found'')]"

definition todoCreate :: "senv \<Rightarrow> todoCreateInput \<Rightarrow> database \<Rightarrow> Todo reply \<times> database" where
  "todoCreate E inp = guard_reply (tdc_XAgentID inp = []) need_agent
     (\<lambda>db. answers [] (http_err 500 ''failed to create todo'')
       (CreateTodo E \<lparr>td_ID = [], td_AgentID = tdc_XAgentID inp, td_Title = tdc_Title inp, td_Status = [],
          td_SortOrder = tdc_SortOrder inp, td_ParentTask = tdc_ParentTask inp, td_Context = tdc_Context inp,
          td_CreatedAt = zero_time, td_UpdatedAt = zero_time\<rparr> db))"

definition todoList :: "senv \<Rightarrow> todoListInput \<Rightarrow> database \<Rightarrow> Todo list reply \<times> database" where
  "todoList E inp = guard_reply (tdl_XAgentID inp = []) need_agent
     (\<lambda>db. answers [] (http_err 500 ''failed to list todos'')
       (ListTodos E \<lparr>df_AgentID = tdl_XAgentID inp, df_Status = tdl_Status inp, df_Limit = tdl_Limit inp,
          df_Offset = tdl_Offset inp\<rparr> db))"

definition todoGet :: "senv \<Rightarrow> string \<Rightarrow> database \<Rightarrow> Todo reply \<times> database" where
  "todoGet E i db = answers todo_missing (http_err 500 ''failed to get todo'') (GetTodo E i db)"

definition todoUpdate :: "senv \<Rightarrow> senv \<Rightarrow> todoUpdateInput \<Rightarrow> database \<Rightarrow> Todo reply \<times> database" where
  "todoUpdate E1 E2 inp = guard_reply (tdu_XAgentID inp = []) need_agent
     (\<lambda>db. and_then (todoGet E1 (tdu_ID inp) db)
       (\<lambda>existing. guard_reply (td_AgentID existing \<noteq> tdu_XAgentID inp)
           (http_err 403 ''only the todo owner can update this todo'')
         (\<lambda>d. answers todo_missing (http_err 500 ''failed to update todo'')
           (UpdateTodo E2 (tdu_ID inp)
             \<lparr>du_Title = tdu_Title inp, du_Status = tdu_Status inp, du_Context = tdu_Context inp\<rparr> d))))"

definition todoDelete :: "senv \<Rightarrow> senv \<Rightarrow> todoDeleteInput \<Rightarrow> database \<Rightarrow> unit reply \<times> database" where
  "todoDelete E1 E2 inp = guard_reply (tdd_XAgentID inp = []) need_agent
     (\<lambda>db. and_then (todoGet E1 (tdd_ID inp) db)
       (\<lambda>existing. guard_reply (td_AgentID existing \<noteq> tdd_XAgentID inp)
           (http_err 403 ''only the todo owner can delete this todo'')
         (\<lambda>d. answers todo_missing (http_err 500 ''failed to delete todo'') (DeleteTodo E2 (tdd_ID inp) d))))"

definition todoPruneDone :: "senv \<Rightarrow> string \<Rightarrow> database \<Rightarrow> nat reply \<times> database" where
  "todoPruneDone E agent = guard_reply (agent = []) need_agent
     (\<lambda>db. answers [] (http_err 500 ''failed to prune todos'') (PruneDoneTodos E agent 0 db))"

definition todoReorder :: "senv \<Rightarrow> todoReorderInput \<Rightarrow> database \<Rightarrow> unit reply \<times> database" where
  "todoReorder E inp = guard_reply (tdr_XAgentID inp = []) need_agent
     (\<lambda>db. answers [(ErrNotFound, http_err 404 ''one or more todo IDs not found or not owned by agent'')]
       (http_err 500 ''failed to reorder todos'') (ReorderTodos E (tdr_XAgentID inp) (tdr_IDs inp) db))"

section \<open>Who may touch a todo\<close>

text \<open>The todo, if it is still there, is the owner's.\<close>

definition todo_owned :: "string \<Rightarrow> string \<Rightarrow> database \<Rightarrow> bool" where
  "todo_owned i owner db \<longleftrightarrow> (\<forall>r \<in> set (db_todos db). d_id r = i \<longrightarrow> d_agent_id r = owner)"

lemma todoGet_owned:
  assumes "todo_owned i owner (ac_others (sv_access E 0) db)"
  shows "\<exists>res. todoGet E i db = (res, ac_others (sv_access E 0) db) \<and> (\<forall>t. res = Inr t \<longrightarrow> td_AgentID t = owner) \<and>
     (\<forall>h. res = Inl h \<longrightarrow> he_status h = 404 \<or> ac_fate (sv_access E 0) \<noteq> Committed)"
proof -
  let ?d = "ac_others (sv_access E 0) db"
  have own: "d_agent_id r = owner" if "filter (\<lambda>r. d_id r = i) (db_todos ?d) = r # rs" for r rs
  proof -
    have "r \<in> set (filter (\<lambda>r. d_id r = i) (db_todos ?d))" unfolding that by simp
    then show ?thesis using assms by (simp add: todo_owned_def)
  qed
  show ?thesis
    using own
    by (cases "ac_fate (sv_access E 0)"; cases "filter (\<lambda>r. d_id r = i) (db_todos ?d)")
      (auto simp: todoGet_def todo_missing_def GetTodo_def query_row_def Let_def sql_select_def first_row_def
        scanTodoRow_def scan_row_def finishTodoScan_def answers_def answer_Inr http_err_def split: if_splits)
qed

text \<open>A stranger is refused: 403, or 404 when the todo is gone.\<close>

lemma todo_stranger_refused:
  assumes "todo_owned i owner (ac_others (sv_access E1 0) db)" "agent \<noteq> owner" "agent \<noteq> []"
  shows "tdu_ID inp = i \<Longrightarrow> tdu_XAgentID inp = agent \<Longrightarrow>
      \<exists>h. todoUpdate E1 E2 inp db = (Inl h, ac_others (sv_access E1 0) db) \<and>
        (ac_fate (sv_access E1 0) = Committed \<longrightarrow> he_status h \<in> {403, 404})"
    and "\<exists>h. todoDelete E1 E2 \<lparr>tdd_ID = i, tdd_XAgentID = agent\<rparr> db = (Inl h, ac_others (sv_access E1 0) db) \<and>
        (ac_fate (sv_access E1 0) = Committed \<longrightarrow> he_status h \<in> {403, 404})"
proof -
  obtain res where res: "todoGet E1 i db = (res, ac_others (sv_access E1 0) db)"
    "\<forall>t. res = Inr t \<longrightarrow> td_AgentID t = owner"
    "\<forall>h. res = Inl h \<longrightarrow> he_status h = 404 \<or> ac_fate (sv_access E1 0) \<noteq> Committed"
    using todoGet_owned [OF assms(1)] by auto
  show "\<exists>h. todoUpdate E1 E2 inp db = (Inl h, ac_others (sv_access E1 0) db) \<and>
        (ac_fate (sv_access E1 0) = Committed \<longrightarrow> he_status h \<in> {403, 404})"
    if "tdu_ID inp = i" "tdu_XAgentID inp = agent"
    using that res assms(2,3) by (cases res) (auto simp: todoUpdate_def http_err_def)
  show "\<exists>h. todoDelete E1 E2 \<lparr>tdd_ID = i, tdd_XAgentID = agent\<rparr> db = (Inl h, ac_others (sv_access E1 0) db) \<and>
        (ac_fate (sv_access E1 0) = Committed \<longrightarrow> he_status h \<in> {403, 404})"
    using res assms(2,3) by (cases res) (auto simp: todoDelete_def http_err_def)
qed

end
