(* ===== verification/TaskStore.thy ===== *)
theory TaskStore
  imports Access
begin

text \<open>
  \<^verbatim>\<open>internal/store/tasks.go\<close>: tasks, their notes and the status machine.
\<close>

section \<open>Rows\<close>

definition finishTaskScan :: "task_row \<Rightarrow> Task" where
  "finishTaskScan r = \<lparr>ta_ID = t_id r, ta_Title = t_title r, ta_Description = t_description r,
     ta_Status = t_status r, ta_Creator = t_creator r, ta_Assignee = t_assignee r,
     ta_Priority = t_priority r, ta_Tags = scan_strs (t_tags r), ta_Notes = None,
     ta_Session = t_session r, ta_CreatedAt = parse_ts (t_created_at r),
     ta_UpdatedAt = parse_ts (t_updated_at r)\<rparr>"

definition scanTaskRow :: "goerr + task_row \<Rightarrow> goerr + Task" where
  "scanTaskRow res = scan_row ''scan task'' finishTaskScan res"

definition task_insert_row :: "Task \<Rightarrow> gotime \<Rightarrow> task_row" where
  "task_insert_row t now = \<lparr>t_id = ta_ID t, t_title = ta_Title t, t_description = ta_Description t,
     t_status = ta_Status t, t_creator = ta_Creator t, t_assignee = ta_Assignee t,
     t_priority = ta_Priority t, t_tags = strs_column (ta_Tags t), t_session = ta_Session t,
     t_created_at = format_RFC3339Nano now, t_updated_at = format_RFC3339Nano now\<rparr>"

section \<open>Statements on the notes\<close>

text \<open>
  INSERT INTO task_notes: the identifier comes from the sequence (which a refused insert also
  advances, but a failed statement aborts the transaction), the task must exist.  CockroachDB's default
  for a serial column draws from the clock and leaves gaps; the identifiers only break ties in the
  order of the notes, so all that is used of them is that they grow.
\<close>

definition sql_insert_note :: "string \<Rightarrow> string \<Rightarrow> string \<Rightarrow> string \<Rightarrow> (database, unit) stmt" where
  "sql_insert_note task note agent created db =
     (if task \<in> t_id ` set (db_tasks db)
      then (Inr (), db\<lparr>db_task_notes := db_task_notes db @
        [\<lparr>n_id = db_note_seq db, n_task_id = task, n_note = note, n_agent_id = agent, n_created_at = created\<rparr>],
        db_note_seq := db_note_seq db + 1\<rparr>)
      else (Inl (PgError foreign_key_violation), db))"

text \<open>DELETE FROM tasks: ON DELETE CASCADE takes the notes along.\<close>

definition sql_delete_task :: "string \<Rightarrow> (database, nat) stmt" where
  "sql_delete_task i db =
     (case sql_delete tasks_t (\<lambda>r. t_id r = i) db of
        (res, db1) \<Rightarrow> (res, db1\<lparr>db_task_notes := filter (\<lambda>n. n_task_id n \<noteq> i) (db_task_notes db1)\<rparr>))"

text \<open>SELECT note ... ORDER BY created_at ASC, id ASC.\<close>

definition notes_of :: "string \<Rightarrow> database \<Rightarrow> note_row list" where
  "notes_of i db = order_asc (\<lambda>n. n_created_at n) (order_asc n_id
     (filter (\<lambda>n. n_task_id n = i) (db_task_notes db)))"

definition select_notes :: "string \<Rightarrow> (database, note_row list) stmt" where
  "select_notes i db = (Inr (notes_of i db), db)"

section \<open>The code\<close>

definition CreateTask_tx :: "Task \<Rightarrow> gotime \<Rightarrow> (database, unit) tx_fn" where
  "CreateTask_tx t now A u = tx_exec (at_stmt A) (sql_insert tasks_t (task_insert_row t now))"

definition new_task :: "senv \<Rightarrow> Task \<Rightarrow> Task" where
  "new_task E t = (let now = in_UTC (sv_now E 0) in
     t\<lparr>ta_ID := sv_uuid E, ta_Status := TaskStatusOpen, ta_CreatedAt := now, ta_UpdatedAt := now\<rparr>)"

definition CreateTask :: "senv \<Rightarrow> Task \<Rightarrow> database \<Rightarrow> (goerr + Task) \<times> database" where
  "CreateTask E t0 db =
     (let now = in_UTC (sv_now E 0); t = new_task E t0
      in case RetryTx (sv_tx E) (CreateTask_tx t now) () db of
           (Inl e, db') \<Rightarrow> (Inl (Wrapped ''insert task'' e), db')
         | (Inr _, db') \<Rightarrow> (Inr (t\<lparr>ta_Notes := Some []\<rparr>), db'))"

text \<open>\<open>k\<close> is the number of the access, as one method loads the notes of several tasks.\<close>

definition loadTaskNotes :: "senv \<Rightarrow> nat \<Rightarrow> Task \<Rightarrow> database \<Rightarrow> (goerr + Task) \<times> database" where
  "loadTaskNotes E k t db =
     (case query_rows ''load notes'' (sv_access E k) (select_notes (ta_ID t)) db of
        (Inl e, db') \<Rightarrow> (Inl e, db')
      | (Inr rows, db') \<Rightarrow> (Inr (t\<lparr>ta_Notes := Some (map n_note rows)\<rparr>), db'))"

definition GetTask :: "senv \<Rightarrow> string \<Rightarrow> database \<Rightarrow> (goerr + Task) \<times> database" where
  "GetTask E i db =
     (case query_row (sv_access E 0) (sql_select tasks_t (\<lambda>r. t_id r = i)) db of
        (res, db1) \<Rightarrow> (case scanTaskRow res of
            Inl e \<Rightarrow> (Inl e, db1)
          | Inr t \<Rightarrow> loadTaskNotes E 1 t db1))"

definition task_matches :: "TaskFilter \<Rightarrow> task_row \<Rightarrow> bool" where
  "task_matches f r \<longleftrightarrow>
     (tf_Status f \<noteq> [] \<longrightarrow> t_status r = tf_Status f) \<and>
     (tf_Assignee f \<noteq> [] \<longrightarrow> t_assignee r = tf_Assignee f) \<and>
     (tf_Creator f \<noteq> [] \<longrightarrow> t_creator r = tf_Creator f) \<and>
     (tf_SessionKey f \<noteq> [] \<longrightarrow> SessionKey (t_session r) = tf_SessionKey f)"

definition select_tasks :: "TaskFilter \<Rightarrow> (database, task_row list) stmt" where
  "select_tasks f db =
     (Inr (paginate 50 (tf_Limit f) (tf_Offset f)
        (order_desc t_created_at (filter (task_matches f) (db_tasks db)))), db)"

fun load_all_notes :: "senv \<Rightarrow> nat \<Rightarrow> Task list \<Rightarrow> database \<Rightarrow> (goerr + Task list) \<times> database" where
  "load_all_notes E k [] db = (Inr [], db)"
| "load_all_notes E k (t # ts) db =
     (case loadTaskNotes E k t db of
        (Inl e, db1) \<Rightarrow> (Inl e, db1)
      | (Inr t', db1) \<Rightarrow> (case load_all_notes E (Suc k) ts db1 of
            (Inl e, db2) \<Rightarrow> (Inl e, db2) | (Inr ts', db2) \<Rightarrow> (Inr (t' # ts'), db2)))"

definition ListTasks :: "senv \<Rightarrow> TaskFilter \<Rightarrow> database \<Rightarrow> (goerr + Task list) \<times> database" where
  "ListTasks E f db = (case query_rows ''list tasks'' (sv_access E 0) (select_tasks f) db of
       (Inl e, db1) \<Rightarrow> (Inl e, db1)
     | (Inr rows, db1) \<Rightarrow> load_all_notes E 1 (map finishTaskScan rows) db1)"

text \<open>The SET clause of \<open>UpdateTask\<close>: status and assignee as computed, the session columns always.\<close>

definition task_set :: "TaskStatus \<Rightarrow> string \<Rightarrow> SessionContext \<Rightarrow> gotime \<Rightarrow> task_row \<Rightarrow> task_row" where
  "task_set status assignee session now r = r\<lparr>t_status := status, t_assignee := assignee,
     t_session := session, t_updated_at := format_RFC3339Nano now\<rparr>"

definition UpdateTask_tx :: "string \<Rightarrow> TaskUpdate \<Rightarrow> (database, unit) tx_fn" where
  "UpdateTask_tx i upd A u =
     tx_then (tx_try (tx_row (at_stmt A) (sql_select tasks_t (\<lambda>r. t_id r = i))))
     (\<lambda>res. case res of
        Inl e \<Rightarrow> if errors_Is e ErrNoRows then tx_fail ErrNotFound else tx_fail (Wrapped ''fetch task'' e)
      | Inr r \<Rightarrow>
         (let now = in_UTC (at_now A);
              status = (case tu_Status upd of Some s \<Rightarrow> s | None \<Rightarrow> t_status r);
              assignee = (case tu_Assignee upd of Some a \<Rightarrow> a | None \<Rightarrow> t_assignee r)
          in if (case tu_Status upd of
                   Some s \<Rightarrow> s \<noteq> t_status r \<and> \<not> IsValidTransition (t_status r) s
                 | None \<Rightarrow> False) then tx_fail ErrInvalidTransition else
          tx_then (tx_wrap ''update task'' (tx_exec (at_stmt A)
              (sql_update tasks_t (\<lambda>x. t_id x = i) (task_set status assignee (tu_Session upd) now))))
          (\<lambda>_. case tu_Note upd of
              None \<Rightarrow> tx_return ()
            | Some note \<Rightarrow> if note = [] then tx_return () else
                tx_wrap ''insert task note'' (tx_exec (at_stmt A)
                  (sql_insert_note i note (tu_AgentID upd) (format_RFC3339Nano now))))))"

definition UpdateTask :: "senv \<Rightarrow> string \<Rightarrow> TaskUpdate \<Rightarrow> database \<Rightarrow> (goerr + Task) \<times> database" where
  "UpdateTask E i upd db = (case RetryTx (sv_tx E) (UpdateTask_tx i upd) () db of
       (Inl e, db') \<Rightarrow> (Inl e, db') | (Inr _, db') \<Rightarrow> GetTask E i db')"

definition DeleteTask_tx :: "string \<Rightarrow> (database, unit) tx_fn" where
  "DeleteTask_tx i A u =
     tx_then (tx_wrap ''delete task'' (tx_exec (at_stmt A) (sql_delete_task i)))
       (\<lambda>n. if n = 0 then tx_fail ErrNotFound else tx_return ())"

definition DeleteTask :: "senv \<Rightarrow> string \<Rightarrow> database \<Rightarrow> (goerr + unit) \<times> database" where
  "DeleteTask E i db = RetryTx (sv_tx E) (DeleteTask_tx i) () db"

section \<open>The database stays well-formed\<close>

lemma task_select_keeps [simp]:
  "snd (select_tasks f db) = db" "snd (select_notes i db) = db" "snd (sql_select T P db) = db"
  by (simp_all add: select_tasks_def select_notes_def sql_select_def)

lemma db_ok_tasks [stmt_simps]:
  assumes "db_ok db"
  shows "db_ok (snd (sql_insert tasks_t r db))"
    and "(\<And>r. P r \<Longrightarrow> t_id (f r) = t_id r) \<Longrightarrow> db_ok (snd (sql_update tasks_t P f db))"
proof -
  show "db_ok (snd (sql_insert tasks_t r db))"
    using assms tasks.insert_ok [of db r]
    by (auto simp: db_ok_def sql_insert_def notes_ok_def)
  assume key: "\<And>r. P r \<Longrightarrow> t_id (f r) = t_id r"
  have "t_id ` set (map (\<lambda>r. if P r then f r else r) t) = t_id ` set t" for t
    using key by (induction t) auto
  then show "db_ok (snd (sql_update tasks_t P f db))"
    using assms tasks.update_ok [of db P f] key
    by (simp add: db_ok_def sql_update_def notes_ok_def)
qed

lemma db_ok_delete_task [stmt_simps]: "db_ok db \<Longrightarrow> db_ok (snd (sql_delete_task i db))"
  using tasks.delete_ok [of db "\<lambda>r. t_id r = i"] task_notes.delete_ok [of db "\<lambda>n. n_task_id n = i"]
  by (auto simp: db_ok_def sql_delete_task_def sql_delete_def notes_ok_def table_ok_def)

lemma show_int_less_neq: "0 < m \<Longrightarrow> m < n \<Longrightarrow> show_int m \<noteq> show_int n"
  by (simp add: show_int_def show_pos_inject)

lemma db_ok_insert_note [stmt_simps]:
  assumes "db_ok db"
  shows "db_ok (snd (sql_insert_note i note agent created db))"
proof (cases "i \<in> t_id ` set (db_tasks db)")
  case True
  let ?n = "\<lparr>n_id = db_note_seq db, n_task_id = i, n_note = note, n_agent_id = agent, n_created_at = created\<rparr>"
  have n: "\<forall>n \<in> set (db_task_notes db). 0 < n_id n \<and> n_id n < db_note_seq db" "0 < db_note_seq db"
    "\<forall>n \<in> set (db_task_notes db). n_task_id n \<in> t_id ` set (db_tasks db)"
    using assms by (auto simp: db_ok_def notes_ok_def)
  have "show_int (db_note_seq db) \<notin> (\<lambda>r. show_int (n_id r)) ` set (db_task_notes db)"
    using n(1) show_int_less_neq by (metis (no_types, lifting) imageE)
  then have "table_ok task_notes_t (db\<lparr>db_task_notes := db_task_notes db @ [?n], db_note_seq := db_note_seq db + 1\<rparr>)"
    using assms by (simp add: db_ok_def table_ok_def uniq_keys_def List.map_filter_def)
  then show ?thesis
    using assms True n by (simp add: db_ok_def sql_insert_note_def notes_ok_def) force
qed (use assms in \<open>simp add: sql_insert_note_def\<close>)

interpretation create_task: tx_body "CreateTask_tx t now" db_ok for t now
  by (rule tx_bodyI, unfold CreateTask_tx_def, intro tx_pres) (simp_all add: stmt_simps)

interpretation update_task: tx_body "UpdateTask_tx i upd" db_ok for i upd
  by (rule tx_bodyI, unfold UpdateTask_tx_def Let_def, intro tx_pres)
    (simp_all add: stmt_simps task_set_def)

interpretation delete_task: tx_body "DeleteTask_tx i" db_ok for i
  by (rule tx_bodyI, unfold DeleteTask_tx_def, intro tx_pres) (simp_all add: stmt_simps)

lemma loadTaskNotes_keeps:
  "others_keep I E \<Longrightarrow> I db \<Longrightarrow> loadTaskNotes E k t db = (r, d) \<Longrightarrow> I d"
  by (auto simp: loadTaskNotes_def others_keepD [of I E] dest!: query_dbD split: prod.splits sum.splits)

lemma loadTaskNotes_snd: "others_keep I E \<Longrightarrow> I db \<Longrightarrow> I (snd (loadTaskNotes E k t db))"
  using loadTaskNotes_keeps [of I E db k t] by (cases "loadTaskNotes E k t db") auto

lemma load_all_notes_keeps:
  "others_keep I E \<Longrightarrow> I db \<Longrightarrow> I (snd (load_all_notes E k ts db))"
proof (induction E k ts db rule: load_all_notes.induct)
  case (2 E k t ts db)
  then show ?case
    using loadTaskNotes_keeps [of I E db k t] by (fastforce split: prod.splits sum.splits)
qed simp

lemma GetTask_keeps: "others_keep I E \<Longrightarrow> I db \<Longrightarrow> I (snd (GetTask E i db))"
  by (auto simp: GetTask_def others_keepD [of I E] loadTaskNotes_snd [of I E] dest!: query_dbD
      split: prod.splits sum.splits)

lemma ListTasks_keeps: "others_keep I E \<Longrightarrow> I db \<Longrightarrow> I (snd (ListTasks E f db))"
  using load_all_notes_keeps [of I E] others_keepD(2) [of I E db 0]
  by (auto simp: ListTasks_def dest!: query_dbD split: prod.splits sum.splits)

lemma UpdateTask_db_ok:
  "others_keep db_ok E \<Longrightarrow> db_ok db \<Longrightarrow> db_ok (snd (UpdateTask E i upd db))"
  using update_task.RetryTx_inv [of "sv_tx E" db i upd "()"] GetTask_keeps [of db_ok E]
  by (auto simp: UpdateTask_def others_keepD [of db_ok E] split: prod.splits sum.splits)

lemma task_ops_db_ok:
  "others_keep db_ok E \<Longrightarrow> db_ok db \<Longrightarrow> db_ok (snd (CreateTask E t db))"
  "others_keep db_ok E \<Longrightarrow> db_ok db \<Longrightarrow> db_ok (snd (DeleteTask E i db))"
  using create_task.RetryTx_inv [of "sv_tx E" db "new_task E t" "in_UTC (sv_now E 0)" "()"]
    delete_task.RetryTx_inv [of "sv_tx E" db i "()"]
  by (auto simp: CreateTask_def DeleteTask_def Let_def others_keepD [of db_ok E] split: prod.splits sum.splits)

section \<open>How the operations run undisturbed\<close>

lemma db_ok_tables: "db_ok db \<Longrightarrow> table_ok tasks_t db \<and> table_ok task_notes_t db"
  by (simp add: db_ok_def)

lemma select_task:
  "db_ok db \<Longrightarrow> filter (\<lambda>r. t_id r = i) (db_tasks db) =
     (case row_at tasks_t i db of None \<Rightarrow> [] | Some r \<Rightarrow> [r])"
  using tasks.select_row_at [of db i] by (simp add: db_ok_def)

lemma row_at_task_notes [simp]:
  "row_at tasks_t i (db\<lparr>db_task_notes := ns\<rparr>) = row_at tasks_t i db"
  "row_at tasks_t i (db\<lparr>db_note_seq := k\<rparr>) = row_at tasks_t i db"
  by (simp_all add: row_at_def)

definition invalid_move :: "TaskUpdate \<Rightarrow> task_row \<Rightarrow> bool" where
  "invalid_move upd r \<longleftrightarrow> (case tu_Status upd of
     Some s \<Rightarrow> s \<noteq> t_status r \<and> \<not> IsValidTransition (t_status r) s | None \<Rightarrow> False)"

definition updated_task :: "TaskUpdate \<Rightarrow> gotime \<Rightarrow> task_row \<Rightarrow> task_row" where
  "updated_task upd now r = task_set (case tu_Status upd of Some s \<Rightarrow> s | None \<Rightarrow> t_status r)
     (case tu_Assignee upd of Some a \<Rightarrow> a | None \<Rightarrow> t_assignee r) (tu_Session upd) now r"

definition new_note :: "database \<Rightarrow> string \<Rightarrow> TaskUpdate \<Rightarrow> gotime \<Rightarrow> note_row list" where
  "new_note db i upd now = (case tu_Note upd of None \<Rightarrow> []
     | Some note \<Rightarrow> if note = [] then [] else
         [\<lparr>n_id = db_note_seq db, n_task_id = i, n_note = note, n_agent_id = tu_AgentID upd,
           n_created_at = format_RFC3339Nano now\<rparr>])"

definition updated_db :: "string \<Rightarrow> TaskUpdate \<Rightarrow> gotime \<Rightarrow> task_row \<Rightarrow> database \<Rightarrow> database" where
  "updated_db i upd now r db = db\<lparr>
     db_tasks := map (\<lambda>x. if t_id x = i then updated_task upd now r else x) (db_tasks db),
     db_task_notes := db_task_notes db @ new_note db i upd now,
     db_note_seq := db_note_seq db + int (length (new_note db i upd now))\<rparr>"

lemma updated_task_id [simp]: "t_id (updated_task upd now r) = t_id r"
  by (simp add: updated_task_def task_set_def)

lemma UpdateTask_body:
  assumes A: "calm A" and ok: "db_ok db"
  shows "\<exists>t. case row_at tasks_t i db of
      None \<Rightarrow> UpdateTask_tx i upd A () (begin_tx db) = (Inl ErrNotFound, t)
    | Some r \<Rightarrow> if invalid_move upd r
        then UpdateTask_tx i upd A () (begin_tx db) = (Inl ErrInvalidTransition, t)
        else UpdateTask_tx i upd A () (begin_tx db) = (Inr (), t) \<and> \<not> tx_aborted t \<and>
          tx_db t = updated_db i upd (in_UTC (at_now A)) r db"
proof (cases "row_at tasks_t i db")
  case None
  then show ?thesis
    using A ok select_task [of db i]
    by (simp add: UpdateTask_tx_def tx_simps tx_row_def sql_select_def first_row_def)
next
  case (Some r)
  define now where "now = in_UTC (at_now A)"
  let ?st = "case tu_Status upd of Some s \<Rightarrow> s | None \<Rightarrow> t_status r"
  let ?as = "case tu_Assignee upd of Some a \<Rightarrow> a | None \<Rightarrow> t_assignee r"
  have sel: "filter (\<lambda>r. t_id r = i) (db_tasks db) = [r]" using select_task [OF ok, of i] Some by simp
  have r: "r \<in> set (db_tasks db)" "t_id r = i" using tasks.row_atD [OF Some] by simp_all
  let ?db1 = "db\<lparr>db_tasks := map (\<lambda>x. if t_id x = i then updated_task upd now r else x) (db_tasks db)\<rparr>"
  have one: "x = r" if "x \<in> set (db_tasks db)" "t_id x = i" for x
  proof -
    have "x \<in> set (filter (\<lambda>r. t_id r = i) (db_tasks db))" using that by simp
    then show ?thesis unfolding sel by simp
  qed
  have upd: "sql_update tasks_t (\<lambda>x. t_id x = i) (task_set ?st ?as (tu_Session upd) now) db = (Inr 1, ?db1)"
  proof -
    have "map (\<lambda>x. if t_id x = i then task_set ?st ?as (tu_Session upd) now x else x) (db_tasks db) =
        map (\<lambda>x. if t_id x = i then updated_task upd now r else x) (db_tasks db)"
      by (rule map_cong [OF refl]) (use one in \<open>auto simp: updated_task_def\<close>)
    then show ?thesis using sel by (simp add: sql_update_def)
  qed
  have "map t_id (db_tasks ?db1) = map t_id (db_tasks db)" using r(2) by auto
  then have "t_id ` set (db_tasks ?db1) = t_id ` set (db_tasks db)" by (metis list.set_map)
  then have i: "i \<in> t_id ` set (db_tasks ?db1)" using r by auto
  have start: "UpdateTask_tx i upd A () (begin_tx db) =
      (if invalid_move upd r then tx_fail ErrInvalidTransition else
        (\<lambda>_. case tu_Note upd of
              None \<Rightarrow> tx_return ()
            | Some note \<Rightarrow> if note = [] then tx_return () else
                tx_wrap ''insert task note'' (tx_exec (at_stmt A)
                  (sql_insert_note i note (tu_AgentID upd) (format_RFC3339Nano now)))) (1::nat))
        ((begin_tx db)\<lparr>tx_db := (if invalid_move upd r then db else ?db1),
           tx_count := (if invalid_move upd r then 1 else 2)\<rparr>)"
    using A sel upd unfolding now_def [symmetric]
    by (cases "invalid_move upd r")
      (simp_all add: UpdateTask_tx_def tx_simps tx_row_def sql_select_def first_row_def Let_def
        now_def [symmetric] invalid_move_def numeral_2_eq_2)
  show ?thesis
    unfolding start using Some A i
    by (cases "tu_Note upd")
      (auto simp: tx_simps now_def [symmetric] updated_db_def new_note_def sql_insert_note_def)
qed

lemma query_rows_notes:
  "calm_access ac \<Longrightarrow> query_rows s ac (select_notes i) db = (Inr (notes_of i db), db)"
  by (simp add: query_rows_def calm_access_def select_notes_def)

lemma UpdateTask_run:
  assumes E: "quiet E" and ok: "db_ok db"
  shows "UpdateTask E i upd db = (case row_at tasks_t i db of
      None \<Rightarrow> (Inl ErrNotFound, db)
    | Some r \<Rightarrow> if invalid_move upd r then (Inl ErrInvalidTransition, db)
        else (let now = in_UTC (at_now (sv_tx E 0)); db' = updated_db i upd now r db in
          (Inr ((finishTaskScan (updated_task upd now r))\<lparr>ta_Notes := Some (map n_note (notes_of i db'))\<rparr>), db')))"
proof -
  have A: "calm (sv_tx E 0)" using E by simp
  note body = UpdateTask_body [OF A ok, of i upd]
  show ?thesis
  proof (cases "row_at tasks_t i db")
    case None
    then obtain t where "UpdateTask_tx i upd (sv_tx E 0) () (begin_tx db) = (Inl ErrNotFound, t)"
      using body by auto
    then show ?thesis
      using None RetryTx_error [of "sv_tx E" "UpdateTask_tx i upd", OF A] by (simp add: UpdateTask_def)
  next
    case (Some r)
    show ?thesis
    proof (cases "invalid_move upd r")
      case True
      then obtain t where "UpdateTask_tx i upd (sv_tx E 0) () (begin_tx db) = (Inl ErrInvalidTransition, t)"
        using body Some by auto
      then show ?thesis
        using Some True RetryTx_error [of "sv_tx E" "UpdateTask_tx i upd", OF A] by (simp add: UpdateTask_def)
    next
      case False
      define now where "now = in_UTC (at_now (sv_tx E 0))"
      have run: "RetryTx (sv_tx E) (UpdateTask_tx i upd) () db = (Inr (), updated_db i upd now r db)"
        using body Some False RetryTx_commit [of "sv_tx E" "UpdateTask_tx i upd" "()" db, OF A]
        by (auto simp: now_def)
      have r: "r \<in> set (db_tasks db)" "t_id r = i" using tasks.row_atD [OF Some] by simp_all
      have "filter (\<lambda>x. t_id x = i) (map (\<lambda>x. if t_id x = i then updated_task upd now r else x) t) =
          map (\<lambda>x. updated_task upd now r) (filter (\<lambda>x. t_id x = i) t)" for t
        using r(2) by (induction t) auto
      then have "filter (\<lambda>x. t_id x = i) (db_tasks (updated_db i upd now r db)) = [updated_task upd now r]"
        using select_task [OF ok, of i] Some by (simp add: updated_db_def)
      then have "GetTask E i (updated_db i upd now r db) =
          (Inr ((finishTaskScan (updated_task upd now r))\<lparr>ta_Notes := Some (map n_note
             (notes_of i (updated_db i upd now r db)))\<rparr>), updated_db i upd now r db)"
        using E r(2) by (simp add: GetTask_def first_row_def scanTaskRow_def scan_row_def loadTaskNotes_def
            query_rows_notes) (simp add: finishTaskScan_def)
      then show ?thesis
        using run Some False by (simp add: UpdateTask_def Let_def now_def)
    qed
  qed
qed

lemma row_at_updated:
  assumes "row_at tasks_t i db = Some r"
  shows "row_at tasks_t j (updated_db i upd now r db) =
    (if j = i then Some (updated_task upd now r) else row_at tasks_t j db)"
proof -
  have r: "t_id r = i" using tasks.row_atD [OF assms] by simp
  have "row_at tasks_t j (updated_db i upd now r db) =
      map_option (\<lambda>x. if t_id x = i then updated_task upd now r else x) (row_at tasks_t j db)"
    using tasks.row_at_update [of "\<lambda>x. t_id x = i" "\<lambda>_. updated_task upd now r" j db] r
    by (simp add: sql_update_def updated_db_def)
  moreover have "t_id x = j" if "row_at tasks_t j db = Some x" for x
    using tasks.row_atD [OF that] by simp
  ultimately show ?thesis using assms by (cases "row_at tasks_t j db") auto
qed

text \<open>What a run that did not fail has done, whatever the environment: one valid move on the task it read.\<close>

lemma UpdateTask_body_effect:
  assumes ok: "db_ok db" and run: "UpdateTask_tx i upd A u (begin_tx db) = (Inr u', t)"
  shows "\<exists>r. row_at tasks_t i db = Some r \<and> \<not> invalid_move upd r \<and>
    tx_db t = updated_db i upd (in_UTC (at_now A)) r db"
proof -
  obtain res t1 where row: "tx_row (at_stmt A) (sql_select tasks_t (\<lambda>r. t_id r = i)) (begin_tx db) = (res, t1)"
    by fastforce
  then obtain r where r: "res = Inr r"
    using run by (cases res) (auto simp: UpdateTask_tx_def tx_Inr split: if_splits)
  obtain rs where rs: "tx_exec (at_stmt A) (sql_select tasks_t (\<lambda>r. t_id r = i)) (begin_tx db) = (Inr rs, t1)"
    "first_row rs = Inr r"
    using row r by (auto simp: tx_row_def split: prod.splits sum.splits)
  then have t1: "tx_db t1 = db" "rs = filter (\<lambda>r. t_id r = i) (db_tasks db)" "\<not> tx_aborted t1"
    using tx_exec_Inr [OF rs(1)] by (auto simp: sql_select_def)
  then have at: "row_at tasks_t i db = Some r"
    using rs(2) select_task [OF ok, of i] by (auto simp: first_row_def split: option.splits)
  define now where "now = in_UTC (at_now A)"
  let ?st = "case tu_Status upd of Some s \<Rightarrow> s | None \<Rightarrow> t_status r"
  let ?as = "case tu_Assignee upd of Some a \<Rightarrow> a | None \<Rightarrow> t_assignee r"
  have ok_move: "\<not> invalid_move upd r"
    using run row r by (auto simp: UpdateTask_tx_def tx_Inr Let_def invalid_move_def split: if_splits)
  obtain n t2 where upd: "tx_exec (at_stmt A)
      (sql_update tasks_t (\<lambda>x. t_id x = i) (task_set ?st ?as (tu_Session upd) now)) t1 = (Inr n, t2)"
    and rest: "(case tu_Note upd of None \<Rightarrow> tx_return ()
      | Some note \<Rightarrow> if note = [] then tx_return () else tx_wrap ''insert task note'' (tx_exec (at_stmt A)
          (sql_insert_note i note (tu_AgentID upd) (format_RFC3339Nano now)))) t2 = (Inr u', t)"
    using run row r ok_move unfolding invalid_move_def UpdateTask_tx_def Let_def now_def [symmetric]
    by (auto simp: tx_Inr)
  have one: "x = r" if "x \<in> set (db_tasks db)" "t_id x = i" for x
    using that tasks.row_at_mem [of db x] ok at by (auto simp: db_ok_def)
  have eq: "map (\<lambda>x. if t_id x = i then task_set ?st ?as (tu_Session upd) now x else x) (db_tasks db) =
      map (\<lambda>x. if t_id x = i then updated_task upd now r else x) (db_tasks db)"
    by (rule map_cong [OF refl]) (use one in \<open>auto simp: updated_task_def\<close>)
  have "tx_db t2 = db\<lparr>db_tasks := map (\<lambda>x. if t_id x = i then task_set ?st ?as (tu_Session upd) now x else x)
      (db_tasks db)\<rparr>"
    using tx_exec_Inr [OF upd] t1(1) by (auto simp: sql_update_def)
  then have t2: "tx_db t2 = db\<lparr>db_tasks := map (\<lambda>x. if t_id x = i then updated_task upd now r else x) (db_tasks db)\<rparr>"
    unfolding eq .
  have "tx_db t = updated_db i upd now r db"
  proof (cases "new_note db i upd now")
    case Nil
    then show ?thesis
      using rest t2 by (auto simp: updated_db_def new_note_def tx_Inr split: option.splits if_splits)
  next
    case (Cons m ms)
    then obtain nt where nt: "tu_Note upd = Some nt" "nt \<noteq> []"
      by (auto simp: new_note_def split: option.splits if_splits)
    then have "tx_exec (at_stmt A) (sql_insert_note i nt (tu_AgentID upd) (format_RFC3339Nano now)) t2 = (Inr u', t)"
      using rest by (simp add: tx_Inr)
    then show ?thesis
      using tx_exec_Inr t2 nt
      by (fastforce simp: sql_insert_note_def updated_db_def new_note_def split: if_splits)
  qed
  then show ?thesis using at ok_move now_def by auto
qed

text \<open>Notes appear in the order they were added, as long as their times do not run backwards.\<close>

lemma notes_of_updated:
  assumes ok: "db_ok db"
    and le: "\<And>n. n \<in> set (notes_of i db) \<Longrightarrow> n_created_at n \<le> format_RFC3339Nano now"
  shows "map n_note (notes_of i (updated_db i upd now r db)) =
    map n_note (notes_of i db) @ (case tu_Note upd of None \<Rightarrow> [] | Some s \<Rightarrow> if s = [] then [] else [s])"
proof (cases "new_note db i upd now")
  case Nil
  then show ?thesis
    by (auto simp: notes_of_def updated_db_def new_note_def split: option.splits if_splits)
next
  case (Cons n ns)
  then have n: "ns = []" "n_task_id n = i" "n_id n = db_note_seq db" "n_created_at n = format_RFC3339Nano now"
    "tu_Note upd = Some (n_note n)" "n_note n \<noteq> []"
    by (auto simp: new_note_def split: option.splits if_splits)
  let ?xs = "filter (\<lambda>n. n_task_id n = i) (db_task_notes db)"
  have "sort_key n_id (?xs @ [n]) = sort_key n_id ?xs @ [n]"
    by (rule sort_key_snoc) (use ok n(3) in \<open>auto simp: db_ok_def notes_ok_def\<close>)
  moreover have "sort_key n_created_at (sort_key n_id ?xs @ [n]) = sort_key n_created_at (sort_key n_id ?xs) @ [n]"
    by (rule sort_key_snoc) (use le n(4) in \<open>auto simp: notes_of_def order_asc_def\<close>)
  ultimately show ?thesis
    using Cons n by (simp add: notes_of_def order_asc_def updated_db_def)
qed

text \<open>The moves the status machine refuses.\<close>

lemma invalid_move_iff:
  "invalid_move upd r \<longleftrightarrow> (case tu_Status upd of None \<Rightarrow> False | Some s \<Rightarrow> s \<noteq> t_status r \<and> (t_status r, s) \<notin>
     {(''open'', ''claimed''), (''open'', ''cancelled''), (''claimed'', ''open''), (''claimed'', ''in_progress''),
      (''claimed'', ''cancelled''), (''in_progress'', ''done''), (''in_progress'', ''failed''), (''in_progress'', ''open'')})"
  by (auto simp: invalid_move_def IsValidTransition_def validTransitions_def TaskStatus_defs split: option.splits)

section \<open>What tasks promise\<close>

text \<open>
  C22. \<open>UpdateTask\<close>, branch by branch.  An unknown task is reported as not found, and a status move other
  than the eight allowed ones (or none at all) as an invalid transition, both without effect.  Otherwise
  that task gets the given status and assignee, where they are given, the session of the caller and the
  time of the update, and keeps its other columns; a note that is given and not empty becomes a row with
  its text, its author and that time; no other task and no other note changes; and the task returned is
  the one stored, with its notes, the new one last.  For that last part the clock must not run behind the
  times of the notes the task has already.
\<close>

theorem update_task_spec:
  assumes "quiet E" "db_ok db" and now: "now = in_UTC (at_now (sv_tx E 0))"
    and "\<And>n. n \<in> set (notes_of i db) \<Longrightarrow> n_created_at n \<le> format_RFC3339Nano now"
  shows "case row_at tasks_t i db of
      None \<Rightarrow> UpdateTask E i upd db = (Inl ErrNotFound, db)
    | Some r \<Rightarrow>
        if (case tu_Status upd of None \<Rightarrow> False | Some s \<Rightarrow> s \<noteq> t_status r \<and> (t_status r, s) \<notin>
             {(''open'', ''claimed''), (''open'', ''cancelled''), (''claimed'', ''open''), (''claimed'', ''in_progress''),
              (''claimed'', ''cancelled''), (''in_progress'', ''done''), (''in_progress'', ''failed''), (''in_progress'', ''open'')})
        then UpdateTask E i upd db = (Inl ErrInvalidTransition, db)
        else \<exists>db' status assignee.
          status = (case tu_Status upd of None \<Rightarrow> t_status r | Some s \<Rightarrow> s) \<and>
          assignee = (case tu_Assignee upd of None \<Rightarrow> t_assignee r | Some a \<Rightarrow> a) \<and>
          UpdateTask E i upd db = (Inr \<lparr>ta_ID = i, ta_Title = t_title r, ta_Description = t_description r,
            ta_Status = status, ta_Creator = t_creator r, ta_Assignee = assignee, ta_Priority = t_priority r,
            ta_Tags = scan_strs (t_tags r), ta_Notes = Some (map n_note (notes_of i db) @
              (case tu_Note upd of None \<Rightarrow> [] | Some s \<Rightarrow> if s = [] then [] else [s])),
            ta_Session = tu_Session upd, ta_CreatedAt = parse_ts (t_created_at r),
            ta_UpdatedAt = parse_ts (format_RFC3339Nano now)\<rparr>, db') \<and>
          db_ok db' \<and>
          (\<forall>j. row_at tasks_t j db' = (if j = i then Some \<lparr>t_id = i, t_title = t_title r,
            t_description = t_description r, t_status = status, t_creator = t_creator r, t_assignee = assignee,
            t_priority = t_priority r, t_tags = t_tags r, t_session = tu_Session upd,
            t_created_at = t_created_at r, t_updated_at = format_RFC3339Nano now\<rparr> else row_at tasks_t j db)) \<and>
          db_task_notes db' = db_task_notes db @ (case tu_Note upd of
            None \<Rightarrow> []
          | Some s \<Rightarrow> if s = [] then [] else [\<lparr>n_id = db_note_seq db, n_task_id = i, n_note = s,
              n_agent_id = tu_AgentID upd, n_created_at = format_RFC3339Nano now\<rparr>])"
proof (cases "row_at tasks_t i db")
  case None
  then show ?thesis using UpdateTask_run [OF assms(1,2)] by simp
next
  case (Some r)
  let ?status = "case tu_Status upd of None \<Rightarrow> t_status r | Some s \<Rightarrow> s"
  let ?assignee = "case tu_Assignee upd of None \<Rightarrow> t_assignee r | Some a \<Rightarrow> a"
  let ?db = "updated_db i upd now r db"
  have r: "t_id r = i" using tasks.row_atD [OF Some] by simp
  have row: "updated_task upd now r = \<lparr>t_id = i, t_title = t_title r,
      t_description = t_description r, t_status = ?status, t_creator = t_creator r, t_assignee = ?assignee,
      t_priority = t_priority r, t_tags = t_tags r, t_session = tu_Session upd,
      t_created_at = t_created_at r, t_updated_at = format_RFC3339Nano now\<rparr>"
    using r by (simp add: updated_task_def task_set_def split: option.split)
  have "db_ok (snd (UpdateTask E i upd db))"
    using UpdateTask_db_ok [OF quiet_others_keep [OF assms(1)] assms(2)] .
  moreover have "db_task_notes ?db = db_task_notes db @ (case tu_Note upd of None \<Rightarrow> []
      | Some s \<Rightarrow> if s = [] then [] else [\<lparr>n_id = db_note_seq db, n_task_id = i, n_note = s,
          n_agent_id = tu_AgentID upd, n_created_at = format_RFC3339Nano now\<rparr>])"
    by (simp add: updated_db_def new_note_def)
  moreover have "map n_note (notes_of i ?db) = map n_note (notes_of i db) @
      (case tu_Note upd of None \<Rightarrow> [] | Some s \<Rightarrow> if s = [] then [] else [s])"
    by (rule notes_of_updated) (rule assms(2), rule assms(4))
  ultimately show ?thesis
    using Some now row row_at_updated [OF Some, of _ upd now] UpdateTask_run [OF assms(1,2), of i upd] r
    by (auto simp: Let_def invalid_move_iff finishTaskScan_def)
qed

definition demo_task :: "string \<Rightarrow> TaskStatus \<Rightarrow> task_row" where
  "demo_task i st = \<lparr>t_id = i, t_title = ''build'', t_description = [], t_status = st, t_creator = ''ann'',
     t_assignee = [], t_priority = 0, t_tags = JArr [], t_session = no_session,
     t_created_at = format_RFC3339Nano zero_time, t_updated_at = format_RFC3339Nano zero_time\<rparr>"

definition demo_tasks :: database where
  "demo_tasks = empty_db\<lparr>db_tasks := [demo_task ''t1'' TaskStatusOpen, demo_task ''t2'' TaskStatusDone],
     db_task_notes := [\<lparr>n_id = 1, n_task_id = ''t2'', n_note = ''built'', n_agent_id = ''bob'',
       n_created_at = format_RFC3339Nano zero_time\<rparr>], db_note_seq := 2\<rparr>"

lemma demo_tasks_facts:
  "db_ok demo_tasks" "row_at tasks_t ''t1'' demo_tasks = Some (demo_task ''t1'' TaskStatusOpen)"
  "row_at tasks_t ''t2'' demo_tasks = Some (demo_task ''t2'' TaskStatusDone)" "notes_of ''t1'' demo_tasks = []"
  by (simp_all add: db_ok_def table_ok_def notes_ok_def demo_tasks_def demo_task_def empty_db_def
      uniq_keys_def List.map_filter_simps row_at_def notes_of_def order_asc_def)

definition to_status :: "TaskStatus \<Rightarrow> TaskUpdate" where
  "to_status s = \<lparr>tu_Status = Some s, tu_Assignee = Some ''bob'', tu_Note = Some ''mine'', tu_AgentID = ''bob'',
     tu_Session = no_session\<rparr>"

theorem update_task_spec_witness:
  "UpdateTask (quiet_senv (demo_time 0) []) ''t1'' (to_status TaskStatusDone) demo_tasks =
     (Inl ErrInvalidTransition, demo_tasks) \<and>
   map_option t_status (row_at tasks_t ''t1''
     (snd (UpdateTask (quiet_senv (demo_time 0) []) ''t1'' (to_status TaskStatusClaimed) demo_tasks))) =
     Some TaskStatusClaimed"
proof -
  let ?E = "quiet_senv (demo_time 0) []"
  have now: "in_UTC (demo_time 0) = in_UTC (at_now (sv_tx ?E 0))" by simp
  have n: "n \<in> set (notes_of ''t1'' demo_tasks) \<Longrightarrow> n_created_at n \<le> x" for n x
    by (simp add: demo_tasks_facts)
  note spec = update_task_spec [where i = "''t1''", OF quiet_senv_simps(2) demo_tasks_facts(1) now n]
  show ?thesis
    using spec [where upd = "to_status TaskStatusDone"] spec [where upd = "to_status TaskStatusClaimed"]
    by (auto simp: demo_tasks_facts(2) to_status_def demo_task_def TaskStatus_defs)
qed

definition closed_statuses :: "TaskStatus set \<Rightarrow> bool" where
  "closed_statuses S \<longleftrightarrow> (\<forall>a \<in> S. \<forall>b. IsValidTransition a b \<longrightarrow> b \<in> S)"

definition status_in :: "string \<Rightarrow> TaskStatus set \<Rightarrow> database \<Rightarrow> bool" where
  "status_in i S db \<longleftrightarrow> db_ok db \<and> (\<forall>r. row_at tasks_t i db = Some r \<longrightarrow> t_status r \<in> S)"

lemma IsValidTransition_refl: "IsValidTransition s s"
  by (simp add: IsValidTransition_def)

lemma updated_status: "\<not> invalid_move upd r \<Longrightarrow> IsValidTransition (t_status r) (t_status (updated_task upd now r))"
  by (cases "tu_Status upd") (auto simp: invalid_move_def updated_task_def task_set_def IsValidTransition_refl)

lemma status_body:
  assumes "closed_statuses S"
  shows "tx_body (UpdateTask_tx j upd) (status_in i S)"
proof unfold_locales
  fix db A u u' t
  assume inv: "status_in i S db" and run: "UpdateTask_tx j upd A u (begin_tx db) = (Inr u', t)"
    and ab: "\<not> tx_aborted t"
  from inv have ok: "db_ok db" by (simp add: status_in_def)
  obtain r where r: "row_at tasks_t j db = Some r" "\<not> invalid_move upd r"
    "tx_db t = updated_db j upd (in_UTC (at_now A)) r db"
    using UpdateTask_body_effect [OF ok run] by blast
  have "db_ok (tx_db t)" using update_task.body_inv [OF ok run ab] .
  then show "status_in i S (tx_db t)"
    using inv r assms updated_status [OF r(2)]
    by (auto simp: status_in_def closed_statuses_def row_at_updated [OF r(1)])
qed

text \<open>
  The status machine, whatever the environment does.  A set of statuses that no allowed move leaves
  cannot be left by a task through \<open>UpdateTask\<close> on any task, however often the call is retried and
  whatever fails, if the other sessions respect it too.  In particular a finished task stays finished.
\<close>

theorem status_machine_respected:
  assumes "closed_statuses S" "others_keep (status_in i S) E" "status_in i S db"
  shows "status_in i S (snd (UpdateTask E j upd db))"
proof -
  have "status_in i S (snd (RetryTx (sv_tx E) (UpdateTask_tx j upd) () db))"
    using assms(2,3) by (intro tx_body.RetryTx_inv [OF status_body [OF assms(1)]]) (simp_all add: others_keep_def)
  then show ?thesis
    using GetTask_keeps [OF assms(2)] by (auto simp: UpdateTask_def split: prod.splits sum.splits)
qed

lemma finished_closed: "closed_statuses {TaskStatusDone}"
  by (simp add: closed_statuses_def IsValidTransition_def validTransitions_def TaskStatus_defs)

theorem status_machine_respected_witness:
  "map_option t_status (row_at tasks_t ''t2''
     (snd (UpdateTask (quiet_senv (demo_time 0) []) ''t2'' (to_status TaskStatusOpen) demo_tasks))) \<in>
     {None, Some TaskStatusDone}"
proof -
  have "status_in ''t2'' {TaskStatusDone} demo_tasks"
    by (simp add: status_in_def demo_tasks_facts) (simp add: demo_task_def)
  from status_machine_respected [OF finished_closed quiet_others_keep this, OF quiet_senv_simps(2)]
  show ?thesis by (auto simp: status_in_def)
qed

text \<open>
  \<open>DeleteTask\<close> removes exactly the task and all its notes, and says so when there was none.
\<close>

theorem delete_task_cascades:
  assumes "quiet E" "db_ok db"
  shows "if i \<in> t_id ` set (db_tasks db)
    then \<exists>db'. DeleteTask E i db = (Inr (), db') \<and> db_ok db' \<and> notes_of i db' = [] \<and>
      (\<forall>j. row_at tasks_t j db' = (if j = i then None else row_at tasks_t j db)) \<and>
      (\<forall>j. j \<noteq> i \<longrightarrow> notes_of j db' = notes_of j db)
    else DeleteTask E i db = (Inl ErrNotFound, db)"
proof -
  have A: "calm (sv_tx E 0)" using assms(1) by simp
  let ?db = "snd (sql_delete_task i db)"
  have del: "sql_delete_task i db = (Inr (length (filter (\<lambda>r. t_id r = i) (db_tasks db))), ?db)"
    by (simp add: sql_delete_task_def sql_delete_def)
  have rows: "row_at tasks_t j ?db = (if j = i then None else row_at tasks_t j db)" for j
    using tasks.row_at_delete_key [of j i db] by (simp add: sql_delete_task_def sql_delete_def)
  have f: "filter (\<lambda>n. n_task_id n = j) (filter (\<lambda>n. n_task_id n \<noteq> i) ns) =
      (if j = i then [] else filter (\<lambda>n. n_task_id n = j) ns)" for j and ns :: "note_row list"
    by (induction ns) auto
  have nts: "notes_of j ?db = (if j = i then [] else notes_of j db)" for j
    by (simp add: notes_of_def sql_delete_task_def sql_delete_def f order_asc_def del: filter_filter)
  have none: "filter (\<lambda>r. t_id r = i) (db_tasks db) = [] \<longleftrightarrow> i \<notin> t_id ` set (db_tasks db)"
    by (auto simp: filter_empty_conv)
  have "DeleteTask E i db = (if i \<in> t_id ` set (db_tasks db) then (Inr (), ?db) else (Inl ErrNotFound, db))"
    unfolding DeleteTask_def
    by (subst RetryTx_affect [of "sv_tx E" "sql_delete_task i" db _ ?db "DeleteTask_tx i", OF A del]) (auto simp: DeleteTask_tx_def none)
  then show ?thesis using rows nts db_ok_delete_task [OF assms(2)] by simp
qed

theorem delete_task_cascades_witness:
  "notes_of ''t2'' demo_tasks \<noteq> [] \<and> notes_of ''t2'' (snd (DeleteTask (quiet_senv (demo_time 0) []) ''t2'' demo_tasks)) = []"
proof -
  have "''t2'' \<in> t_id ` set (db_tasks demo_tasks)"
    using tasks.row_atD [OF demo_tasks_facts(3)] by (metis imageI t_key_simps(2) t_rows_simps(2))
  moreover have "notes_of ''t2'' demo_tasks \<noteq> []"
    by (simp add: demo_tasks_def notes_of_def order_asc_def empty_db_def)
  ultimately show ?thesis
    using delete_task_cascades [of "quiet_senv (demo_time 0) []" demo_tasks "''t2''", OF quiet_senv_simps(2) demo_tasks_facts(1)]
    by auto
qed

text \<open>
  Creating and reading back: a new task is open and has no notes, whatever status and notes the
  caller put in, and \<open>GetTask\<close> returns it as \<open>CreateTask\<close> did (nil tags come back empty).
\<close>

theorem create_then_get_task:
  assumes "quiet E" "quiet E'" "db_ok db" "sv_uuid E \<notin> t_id ` set (db_tasks db)"
    and "utc_ok (in_UTC (sv_now E 0))"
  shows "\<exists>t db'. CreateTask E t0 db = (Inr t, db') \<and> ta_Status t = TaskStatusOpen \<and> ta_Notes t = Some [] \<and>
    db_ok db' \<and> GetTask E' (ta_ID t) db' = (Inr (t\<lparr>ta_Tags := Some (elems (ta_Tags t0))\<rparr>), db')"
proof -
  have A: "calm (sv_tx E 0)" using assms(1) by simp
  let ?now = "in_UTC (sv_now E 0)" and ?t = "new_task E t0"
  let ?x = "task_insert_row ?t ?now"
  let ?db = "db\<lparr>db_tasks := db_tasks db @ [?x]\<rparr>"
  have id: "t_id ?x = sv_uuid E" "ta_ID ?t = sv_uuid E" by (simp_all add: task_insert_row_def new_task_def Let_def)
  then have "may_insert tasks_t ?x db" using assms(4) by (simp add: may_insert_def)
  then have "CreateTask_tx ?t ?now (sv_tx E 0) () (begin_tx db) =
      (Inr (), (begin_tx db)\<lparr>tx_db := ?db, tx_count := 1\<rparr>)"
    using A by (simp add: CreateTask_tx_def tx_simps sql_insert_def)
  then have run: "CreateTask E t0 db = (Inr (?t\<lparr>ta_Notes := Some []\<rparr>), ?db)"
    using RetryTx_commit [of "sv_tx E" "CreateTask_tx ?t ?now", OF A] by (simp add: CreateTask_def Let_def)
  have "filter (\<lambda>r. t_id r = sv_uuid E) (db_tasks db) = []" using assms(4) by (rule filter_key_none)
  moreover have "notes_of (sv_uuid E) ?db = []"
  proof -
    have "notes_ok db" using assms(3) by (simp add: db_ok_def)
    then have "n_task_id n \<noteq> sv_uuid E" if "n \<in> set (db_task_notes db)" for n
      using assms(4) that unfolding notes_ok_def by metis
    then have "filter (\<lambda>n. n_task_id n = sv_uuid E) (db_task_notes db) = []"
      by (simp add: filter_empty_conv)
    then show ?thesis by (simp add: notes_of_def order_asc_def)
  qed
  moreover have "finishTaskScan ?x = ?t\<lparr>ta_Tags := Some (elems (ta_Tags t0)), ta_Notes := None\<rparr>"
    using assms(5) by (cases t0) (simp add: finishTaskScan_def task_insert_row_def new_task_def Let_def)
  ultimately have "GetTask E' (sv_uuid E) ?db =
      (Inr (?t\<lparr>ta_Tags := Some (elems (ta_Tags t0)), ta_Notes := Some []\<rparr>), ?db)"
    using assms(2) id by (simp add: GetTask_def first_row_def scanTaskRow_def scan_row_def loadTaskNotes_def
        query_rows_notes)
  moreover have "ta_Status ?t = TaskStatusOpen" by (simp add: new_task_def Let_def)
  moreover have "db_ok ?db"
    using task_ops_db_ok(1) [OF quiet_others_keep [OF assms(1)] assms(3), of t0] run by simp
  ultimately show ?thesis using run id by simp
qed

definition demo_new_task :: Task where
  "demo_new_task = \<lparr>ta_ID = [], ta_Title = ''deploy'', ta_Description = [], ta_Status = TaskStatusDone,
     ta_Creator = ''ann'', ta_Assignee = [], ta_Priority = 2, ta_Tags = None, ta_Notes = Some [''x''],
     ta_Session = no_session, ta_CreatedAt = zero_time, ta_UpdatedAt = zero_time\<rparr>"

theorem create_then_get_task_witness:
  "\<exists>t db'. CreateTask (quiet_senv (demo_time 0) ''t3'') demo_new_task demo_tasks = (Inr t, db') \<and>
     ta_Status t = TaskStatusOpen \<and> fst (GetTask (quiet_senv (demo_time 0) []) (ta_ID t) db') =
       Inr (t\<lparr>ta_Tags := Some []\<rparr>)"
proof -
  have u: "utc_ok (in_UTC (sv_now (quiet_senv (demo_time 0) ''t3'') 0))" by (simp, code_simp)
  have "sv_uuid (quiet_senv (demo_time 0) ''t3'') \<notin> t_id ` set (db_tasks demo_tasks)"
    by (simp add: demo_tasks_def demo_task_def)
  from create_then_get_task [of _ "quiet_senv (demo_time 0) []", OF quiet_senv_simps(2) quiet_senv_simps(2)
      demo_tasks_facts(1) this u, of demo_new_task]
  show ?thesis by (auto simp: demo_new_task_def)
qed

text \<open>Loading the notes of a list undisturbed changes nothing else about its tasks.\<close>

lemma load_all_notes_quiet:
  "quiet E \<Longrightarrow> \<exists>ts'. load_all_notes E k ts db = (Inr ts', db) \<and> length ts' = length ts \<and>
     (\<forall>j < length ts. ta_ID (ts' ! j) = ta_ID (ts ! j) \<and> ta_Title (ts' ! j) = ta_Title (ts ! j) \<and>
        ta_Status (ts' ! j) = ta_Status (ts ! j))"
proof (induction ts arbitrary: k)
  case (Cons t ts)
  obtain ts' where ts': "load_all_notes E (Suc k) ts db = (Inr ts', db)" "length ts' = length ts"
    "\<forall>j < length ts. ta_ID (ts' ! j) = ta_ID (ts ! j) \<and> ta_Title (ts' ! j) = ta_Title (ts ! j) \<and>
        ta_Status (ts' ! j) = ta_Status (ts ! j)"
    using Cons.IH [OF Cons.prems, of "Suc k"] by auto
  obtain t' where t': "loadTaskNotes E k t db = (Inr t', db)" "ta_ID t' = ta_ID t" "ta_Title t' = ta_Title t"
    "ta_Status t' = ta_Status t"
    using Cons.prems by (auto simp: loadTaskNotes_def query_rows_def select_notes_def calm_access_def quiet_def)
  show ?case
    using ts' t' by (intro exI [of _ "t' # ts'"]) (auto simp: nth_Cons split: nat.split)
qed simp

lemma ListTasks_statuses:
  assumes "quiet E"
  shows "\<exists>ts. ListTasks E f db = (Inr ts, db) \<and> map ta_Status ts = map t_status (paginate 50 (tf_Limit f) (tf_Offset f)
    (order_desc t_created_at (filter (task_matches f) (db_tasks db))))"
proof -
  let ?rows = "paginate 50 (tf_Limit f) (tf_Offset f) (order_desc t_created_at (filter (task_matches f) (db_tasks db)))"
  obtain ts where "load_all_notes E 1 (map finishTaskScan ?rows) db = (Inr ts, db)" "length ts = length ?rows"
    "\<forall>j < length ?rows. ta_Status (ts ! j) = t_status (?rows ! j)"
    using load_all_notes_quiet [OF assms, of 1 "map finishTaskScan ?rows" db] by (auto simp: finishTaskScan_def)
  then show ?thesis
    using assms by (intro exI [of _ ts] conjI nth_equalityI)
      (simp_all add: ListTasks_def query_rows_def select_tasks_def calm_access_def quiet_def)
qed

end
