(* ===== verification/SqlLike.thy ===== *)
theory SqlLike
  imports Prelude
begin

text \<open>
  The patterns the list queries build with LIKE: what they match, and that a text free of special
  characters is matched as itself, at the beginning of a value or anywhere in it.
\<close>

text \<open>
  SQL's LIKE on UTF-8 text: \<^verbatim>\<open>%\<close> stands for any text, \<^verbatim>\<open>_\<close> for one character, a backslash takes the
  special meaning from the character after it.
\<close>

definition continuation_byte :: "char \<Rightarrow> bool" where
  "continuation_byte c \<longleftrightarrow> 128 \<le> (of_char c :: int) \<and> (of_char c :: int) < 192"

fun sql_like :: "string \<Rightarrow> string \<Rightarrow> bool" where
  "sql_like [] s = (s = [])"
| "sql_like (p # ps) s =
     (if p = CHR ''%'' then sql_like ps s \<or> (case s of [] \<Rightarrow> False | c # cs \<Rightarrow> sql_like (p # ps) cs)
      else if p = CHR ''_'' then
        (case s of [] \<Rightarrow> False | c # cs \<Rightarrow> sql_like ps (dropWhile continuation_byte cs))
      else if p = CHR 0x5C then
        (case ps of [] \<Rightarrow> False
         | q # qs \<Rightarrow> (case s of [] \<Rightarrow> False | c # cs \<Rightarrow> c = q \<and> sql_like qs cs))
      else (case s of [] \<Rightarrow> False | c # cs \<Rightarrow> c = p \<and> sql_like ps cs))"

text \<open>The characters LIKE gives a meaning to.\<close>

definition like_plain :: "string \<Rightarrow> bool" where
  "like_plain p \<longleftrightarrow> CHR ''%'' \<notin> set p \<and> CHR ''_'' \<notin> set p \<and> CHR 0x5C \<notin> set p"

lemma sql_like_any [simp]: "sql_like ''%'' s"
  by (induction s) simp_all

lemma sql_like_prefix: "like_plain p \<Longrightarrow> sql_like (p @ ''%'') s \<longleftrightarrow> take (length p) s = p"
proof (induction p arbitrary: s)
  case (Cons c p)
  then show ?case by (cases s) (auto simp: like_plain_def)
next
  case Nil
  show ?case by (simp only: append_Nil sql_like_any list.size take_0 simp_thms)
qed

lemma sql_like_infix: "like_plain p \<Longrightarrow> sql_like (''%'' @ p @ ''%'') s \<longleftrightarrow> (\<exists>u v. s = u @ p @ v)"
proof (induction s)
  case Nil
  then show ?case using sql_like_prefix [of p "[]"] by (cases p) auto
next
  case (Cons c cs)
  have "sql_like (''%'' @ p @ ''%'') (c # cs) \<longleftrightarrow> sql_like (p @ ''%'') (c # cs) \<or> sql_like (''%'' @ p @ ''%'') cs"
    by simp
  also have "\<dots> \<longleftrightarrow> take (length p) (c # cs) = p \<or> (\<exists>u v. cs = u @ p @ v)"
    using Cons sql_like_prefix [of p "c # cs"] by simp
  also have "\<dots> \<longleftrightarrow> (\<exists>u v. c # cs = u @ p @ v)"
    by (metis append_Cons append_eq_conv_conj append_Nil append_take_drop_id list.inject neq_Nil_conv)
  finally show ?case .
qed

end
