(* ===== verification/MemoryStore.thy ===== *)
theory MemoryStore
  imports Access SqlLike
begin

text \<open>
  \<^verbatim>\<open>internal/store/memory.go\<close>: the key-value memory with optimistic concurrency by version number.
\<close>

section \<open>Rows and patterns\<close>

definition finishMemoryScan :: "memory_row \<Rightarrow> MemoryEntry" where
  "finishMemoryScan r = \<lparr>me_Key = m_key r, me_Value = m_value r, me_AgentID = m_agent_id r,
     me_Tags = scan_strs (m_tags r), me_Version = m_version r, me_Session = m_session r,
     me_CreatedAt = parse_ts (m_created_at r), me_UpdatedAt = parse_ts (m_updated_at r)\<rparr>"

definition scanMemoryRow :: "goerr + memory_row \<Rightarrow> goerr + MemoryEntry" where
  "scanMemoryRow res = scan_row ''scan memory'' finishMemoryScan res"

text \<open>\<^verbatim>\<open>tags @> jsonb_build_array(t)\<close>.\<close>

fun json_has_string :: "json \<Rightarrow> string \<Rightarrow> bool" where
  "json_has_string (JArr js) t = List.member js (JStr t)"
| "json_has_string _ t = False"

section \<open>The code\<close>

definition memory_insert_row :: "MemoryEntry \<Rightarrow> json \<Rightarrow> gotime \<Rightarrow> gotime \<Rightarrow> memory_row" where
  "memory_insert_row entry tagsJSON createdAt now = \<lparr>m_key = me_Key entry, m_value = me_Value entry,
     m_agent_id = me_AgentID entry, m_tags = tagsJSON, m_version = 1, m_session = me_Session entry,
     m_created_at = format_RFC3339Nano createdAt, m_updated_at = format_RFC3339Nano now\<rparr>"

definition memory_set :: "MemoryEntry \<Rightarrow> json \<Rightarrow> gotime \<Rightarrow> memory_row \<Rightarrow> memory_row" where
  "memory_set entry tagsJSON now r = r\<lparr>m_value := me_Value entry, m_agent_id := me_AgentID entry,
     m_tags := tagsJSON, m_version := m_version r + 1, m_session := me_Session entry,
     m_updated_at := format_RFC3339Nano now\<rparr>"

text \<open>The closure assigns to the entry it captured: its version and times change before COMMIT.\<close>

definition UpsertMemory_tx :: "json \<Rightarrow> gotime \<Rightarrow> (database, MemoryEntry) tx_fn" where
  "UpsertMemory_tx tagsJSON now A entry =
     tx_then (tx_try (tx_row (at_stmt A) (sql_select memory_t (\<lambda>r. m_key r = me_Key entry))))
     (\<lambda>res. case res of
        Inl e \<Rightarrow>
          if errors_Is e ErrNoRows then
            (let createdAt = (if IsZero (me_CreatedAt entry) then now else me_CreatedAt entry) in
             tx_then (tx_wrap ''insert memory'' (tx_exec (at_stmt A)
                 (sql_insert memory_t (memory_insert_row entry tagsJSON createdAt now))))
               (\<lambda>_. tx_return (entry\<lparr>me_Version := 1, me_CreatedAt := createdAt, me_UpdatedAt := now\<rparr>)))
          else tx_fail (Wrapped ''query memory'' e)
      | Inr existing \<Rightarrow>
          if me_Version entry > 0 \<and> m_version existing \<noteq> me_Version entry then tx_fail ErrConflict
          else tx_then (tx_wrap ''update memory'' (tx_exec (at_stmt A)
                 (sql_update memory_t (\<lambda>r. m_key r = me_Key entry) (memory_set entry tagsJSON now))))
               (\<lambda>_. tx_return (entry\<lparr>me_Version := m_version existing + 1,
                  me_CreatedAt := parse_ts (m_created_at existing), me_UpdatedAt := now\<rparr>)))"

definition UpsertMemory :: "senv \<Rightarrow> MemoryEntry \<Rightarrow> database \<Rightarrow> (goerr + MemoryEntry) \<times> database" where
  "UpsertMemory E entry0 db =
     (let now = in_UTC (sv_now E 0);
          entry = (case me_Tags entry0 of None \<Rightarrow> entry0\<lparr>me_Tags := Some []\<rparr> | Some _ \<Rightarrow> entry0)
      in RetryTx (sv_tx E) (UpsertMemory_tx (marshal_strs (me_Tags entry)) now) entry db)"

definition GetMemory :: "senv \<Rightarrow> string \<Rightarrow> database \<Rightarrow> (goerr + MemoryEntry) \<times> database" where
  "GetMemory E key db =
     (case query_row (sv_access E 0) (sql_select memory_t (\<lambda>r. m_key r = key)) db of
        (res, db') \<Rightarrow> (scanMemoryRow res, db'))"

definition memory_matches :: "MemoryFilter \<Rightarrow> memory_row \<Rightarrow> bool" where
  "memory_matches f r \<longleftrightarrow>
     (mf_Tag f \<noteq> [] \<longrightarrow> json_has_string (m_tags r) (mf_Tag f)) \<and>
     (mf_Agent f \<noteq> [] \<longrightarrow> m_agent_id r = mf_Agent f) \<and>
     (mf_Prefix f \<noteq> [] \<longrightarrow> sql_like (mf_Prefix f @ ''%'') (m_key r)) \<and>
     (mf_SessionKey f \<noteq> [] \<longrightarrow> SessionKey (m_session r) = mf_SessionKey f)"

definition select_memory :: "MemoryFilter \<Rightarrow> (database, memory_row list) stmt" where
  "select_memory f db =
     (Inr (paginate 50 (mf_Limit f) (mf_Offset f)
        (order_desc m_updated_at (filter (memory_matches f) (db_memory db)))), db)"

definition ListMemory :: "senv \<Rightarrow> MemoryFilter \<Rightarrow> database \<Rightarrow> (goerr + MemoryEntry list) \<times> database" where
  "ListMemory E f db = (case query_rows ''list memory'' (sv_access E 0) (select_memory f) db of
       (Inl e, db') \<Rightarrow> (Inl e, db')
     | (Inr rows, db') \<Rightarrow> (Inr (map finishMemoryScan rows), db'))"

definition DeleteMemory_tx :: "string \<Rightarrow> (database, unit) tx_fn" where
  "DeleteMemory_tx key A u =
     tx_then (tx_wrap ''delete memory'' (tx_exec (at_stmt A) (sql_delete memory_t (\<lambda>r. m_key r = key))))
       (\<lambda>n. if n = 0 then tx_fail ErrNotFound else tx_return ())"

definition DeleteMemory :: "senv \<Rightarrow> string \<Rightarrow> database \<Rightarrow> (goerr + unit) \<times> database" where
  "DeleteMemory E key db = RetryTx (sv_tx E) (DeleteMemory_tx key) () db"

section \<open>The database stays well-formed\<close>

lemma memory_select_keeps [simp]:
  "snd (select_memory f db) = db" "snd (sql_select T P db) = db"
  by (simp_all add: select_memory_def sql_select_def)

lemma memory_set_simps [simp]:
  "m_key (memory_set e j now r) = m_key r" "m_version (memory_set e j now r) = m_version r + 1"
  "m_created_at (memory_set e j now r) = m_created_at r" "m_value (memory_set e j now r) = me_Value e"
  "m_key (memory_insert_row e j c now) = me_Key e" "m_version (memory_insert_row e j c now) = 1"
  "m_value (memory_insert_row e j c now) = me_Value e"
  by (simp_all add: memory_set_def memory_insert_row_def)

interpretation upsert_memory: tx_body "UpsertMemory_tx j now" db_ok for j now
  by (rule tx_bodyI, unfold UpsertMemory_tx_def Let_def, intro tx_pres) (simp_all add: stmt_simps)

interpretation delete_memory: tx_body "DeleteMemory_tx key" db_ok for key
  by (rule tx_bodyI, unfold DeleteMemory_tx_def, intro tx_pres) (simp_all add: stmt_simps)

lemma memory_ops_db_ok:
  assumes "others_keep db_ok E" "db_ok db"
  shows "db_ok (snd (UpsertMemory E e db))" "db_ok (snd (DeleteMemory E key db))"
    and "db_ok (snd (GetMemory E key db))" "db_ok (snd (ListMemory E f db))"
  using assms upsert_memory.RetryTx_inv [of "sv_tx E" db] delete_memory.RetryTx_inv [of "sv_tx E" db]
  by (auto simp: UpsertMemory_def DeleteMemory_def GetMemory_def ListMemory_def Let_def others_keepD [of db_ok E]
      dest!: query_dbD split: prod.splits sum.splits)

section \<open>How the operations run undisturbed\<close>

lemma select_memory_row:
  "db_ok db \<Longrightarrow> filter (\<lambda>r. m_key r = key) (db_memory db) =
     (case row_at memory_t key db of None \<Rightarrow> [] | Some r \<Rightarrow> [r])"
  using memory.select_row_at [of db key] by (simp add: db_ok_def)

definition with_tags :: "MemoryEntry \<Rightarrow> MemoryEntry" where
  "with_tags e = (case me_Tags e of None \<Rightarrow> e\<lparr>me_Tags := Some []\<rparr> | Some _ \<Rightarrow> e)"

lemma with_tags_simps [simp]:
  "me_Key (with_tags e) = me_Key e" "me_Version (with_tags e) = me_Version e"
  "me_CreatedAt (with_tags e) = me_CreatedAt e" "me_Tags (with_tags e) = Some (elems (me_Tags e))"
  "me_Value (with_tags e) = me_Value e"
  by (simp_all add: with_tags_def split: option.splits)

definition created_at :: "MemoryEntry \<Rightarrow> gotime \<Rightarrow> gotime" where
  "created_at e now = (if IsZero (me_CreatedAt e) then now else me_CreatedAt e)"

text \<open>The outcome on a database: the entry returned and the database left, or a conflict.\<close>

definition upsert_outcome :: "json \<Rightarrow> gotime \<Rightarrow> MemoryEntry \<Rightarrow> database \<Rightarrow> (MemoryEntry \<times> database) option" where
  "upsert_outcome j now e db = (case row_at memory_t (me_Key e) db of
     None \<Rightarrow> Some (e\<lparr>me_Version := 1, me_CreatedAt := created_at e now, me_UpdatedAt := now\<rparr>,
       db\<lparr>db_memory := db_memory db @ [memory_insert_row e j (created_at e now) now]\<rparr>)
   | Some r \<Rightarrow> if me_Version e > 0 \<and> m_version r \<noteq> me_Version e then None
       else Some (e\<lparr>me_Version := m_version r + 1, me_CreatedAt := parse_ts (m_created_at r), me_UpdatedAt := now\<rparr>,
         db\<lparr>db_memory := map (\<lambda>x. if m_key x = me_Key e then memory_set e j now x else x) (db_memory db)\<rparr>))"

lemma UpsertMemory_body:
  assumes A: "calm A" and ok: "db_ok db"
  shows "\<exists>t. case upsert_outcome j now e db of
      None \<Rightarrow> UpsertMemory_tx j now A e (begin_tx db) = (Inl ErrConflict, t)
    | Some (e', db') \<Rightarrow> UpsertMemory_tx j now A e (begin_tx db) = (Inr e', t) \<and> \<not> tx_aborted t \<and> tx_db t = db'"
proof (cases "row_at memory_t (me_Key e) db")
  case None
  have "may_insert memory_t (memory_insert_row e j (created_at e now) now) db"
    using None memory.row_at_None [of "me_Key e" db] by (simp add: may_insert_def)
  then show ?thesis
    using None A select_memory_row [OF ok, of "me_Key e"] unfolding created_at_def
    by (simp add: UpsertMemory_tx_def tx_simps tx_row_def sql_select_def first_row_def Let_def
        upsert_outcome_def created_at_def sql_insert_def)
next
  case (Some r)
  then show ?thesis
    using A select_memory_row [OF ok, of "me_Key e"]
    by (simp add: UpsertMemory_tx_def tx_simps tx_row_def sql_select_def first_row_def
        upsert_outcome_def sql_update_def)
qed

lemma UpsertMemory_run:
  assumes E: "quiet E" and ok: "db_ok db"
  shows "UpsertMemory E e db =
    (case upsert_outcome (strs_column (me_Tags e)) (in_UTC (sv_now E 0)) (with_tags e) db of
       None \<Rightarrow> (Inl ErrConflict, db) | Some (e', db') \<Rightarrow> (Inr e', db'))"
proof -
  have A: "calm (sv_tx E 0)" using E by simp
  have j: "marshal_strs (Some (elems (me_Tags e))) = strs_column (me_Tags e)"
    by (cases "me_Tags e") (simp_all add: strs_column_def marshal_strs_def)
  have def: "UpsertMemory E e db = RetryTx (sv_tx E)
      (UpsertMemory_tx (strs_column (me_Tags e)) (in_UTC (sv_now E 0))) (with_tags e) db"
    by (simp add: UpsertMemory_def Let_def with_tags_def [symmetric] j)
  let ?fn = "UpsertMemory_tx (strs_column (me_Tags e)) (in_UTC (sv_now E 0))"
  note body = UpsertMemory_body [OF A ok, of "strs_column (me_Tags e)" "in_UTC (sv_now E 0)" "with_tags e"]
  show ?thesis
    unfolding def using body RetryTx_error [of "sv_tx E" ?fn, OF A] RetryTx_commit [of "sv_tx E" ?fn, OF A]
    by (fastforce split: option.splits)
qed

lemma memory_row_upserted:
  assumes "db_ok db" "upsert_outcome j now e db = Some (e', db')"
  shows "row_at memory_t k db' = (if k = me_Key e
    then Some (case row_at memory_t k db of None \<Rightarrow> memory_insert_row e j (created_at e now) now
               | Some r \<Rightarrow> memory_set e j now r)
    else row_at memory_t k db)"
proof (cases "row_at memory_t (me_Key e) db")
  case None
  let ?x = "memory_insert_row e j (created_at e now) now"
  have "may_insert memory_t ?x db"
    using None memory.row_at_None [of "me_Key e" db] by (simp add: may_insert_def)
  then show ?thesis
    using memory.row_at_insert [of ?x db k] None assms(2)
    by (auto simp: upsert_outcome_def sql_insert_def)
next
  case (Some r)
  then have db': "db' = snd (sql_update memory_t (\<lambda>x. m_key x = me_Key e) (memory_set e j now) db)"
    using assms(2) by (auto simp: upsert_outcome_def sql_update_def split: if_splits)
  have "row_at memory_t k db' = map_option (\<lambda>x. if m_key x = me_Key e then memory_set e j now x else x)
      (row_at memory_t k db)"
    unfolding db' by (rule memory.row_at_update) simp
  moreover have "m_key x = k" if "row_at memory_t k db = Some x" for x
    using memory.row_atD [OF that] by simp
  ultimately show ?thesis using Some by (cases "row_at memory_t k db") auto
qed

section \<open>What the memory promises\<close>

definition demo_entry :: "int \<Rightarrow> string \<Rightarrow> MemoryEntry" where
  "demo_entry v val = \<lparr>me_Key = ''plan'', me_Value = val, me_AgentID = ''ann'', me_Tags = None, me_Version = v,
     me_Session = no_session, me_CreatedAt = zero_time, me_UpdatedAt = zero_time\<rparr>"

definition demo_memory :: database where
  "demo_memory = empty_db\<lparr>db_memory := [memory_set (demo_entry 0 ''draft'') (JArr []) (demo_time 0)
     (memory_insert_row (demo_entry 0 ''idea'') (JArr []) (demo_time 0) (demo_time 0))]\<rparr>"

lemma demo_memory_facts:
  "db_ok demo_memory"
  "row_at memory_t ''plan'' demo_memory = Some (memory_set (demo_entry 0 ''draft'') (JArr []) (demo_time 0)
     (memory_insert_row (demo_entry 0 ''idea'') (JArr []) (demo_time 0) (demo_time 0)))"
  by (simp_all add: db_ok_def table_ok_def notes_ok_def demo_memory_def empty_db_def demo_entry_def
      uniq_keys_def List.map_filter_simps row_at_def)

lemma scan_inserted:
  "utc_ok now \<Longrightarrow> col_time c \<Longrightarrow>
   finishMemoryScan (memory_insert_row (with_tags e) (strs_column (me_Tags e)) c now) =
     (with_tags e)\<lparr>me_Version := 1, me_CreatedAt := c, me_UpdatedAt := now\<rparr>"
  by (cases e) (simp add: finishMemoryScan_def memory_insert_row_def with_tags_def split: option.splits)

lemma scan_updated:
  "utc_ok now \<Longrightarrow> m_key r = me_Key e \<Longrightarrow>
   finishMemoryScan (memory_set (with_tags e) (strs_column (me_Tags e)) now r) =
     (with_tags e)\<lparr>me_Version := m_version r + 1, me_CreatedAt := parse_ts (m_created_at r), me_UpdatedAt := now\<rparr>"
  by (cases e) (simp add: finishMemoryScan_def memory_set_def with_tags_def split: option.splits)

lemma upsert_read_back:
  assumes "quiet E" "quiet E'" "db_ok db" "utc_ok now" "col_time (created_at e now)"
    and "now = in_UTC (sv_now E 0)" "j = strs_column (me_Tags e)"
    and out: "upsert_outcome j now (with_tags e) db = Some (e', db')"
  shows "UpsertMemory E e db = (Inr e', db')" "GetMemory E' (me_Key e) db' = (Inr e', db')"
    and "k \<noteq> me_Key e \<Longrightarrow> row_at memory_t k db' = row_at memory_t k db"
proof -
  have ct: "created_at (with_tags e) now = created_at e now" by (simp add: created_at_def)
  show run: "UpsertMemory E e db = (Inr e', db')"
    using UpsertMemory_run [OF assms(1,3), of e] assms(6,7) out by simp
  have "db_ok db'"
    using memory_ops_db_ok(1) [OF quiet_others_keep [OF assms(1)] assms(3), of e] run by simp
  then have "GetMemory E' (me_Key e) db' =
      (Inr (finishMemoryScan (case row_at memory_t (me_Key e) db of
         None \<Rightarrow> memory_insert_row (with_tags e) j (created_at e now) now
       | Some r \<Rightarrow> memory_set (with_tags e) j now r)), db')"
    using memory_row_upserted [OF assms(3) out, of "me_Key e", unfolded ct] select_memory_row [of db' "me_Key e"] assms(2)
    by (simp add: GetMemory_def first_row_def scanMemoryRow_def scan_row_def)
  moreover have "m_key r = me_Key e" if "row_at memory_t (me_Key e) db = Some r" for r
    using memory.row_atD [OF that] by simp
  ultimately show "GetMemory E' (me_Key e) db' = (Inr e', db')"
    using out scan_inserted [OF assms(4,5)] scan_updated [OF assms(4), of _ e] assms(7)
    by (cases "row_at memory_t (me_Key e) db") (simp_all add: upsert_outcome_def ct split: if_splits)
  show "k \<noteq> me_Key e \<Longrightarrow> row_at memory_t k db' = row_at memory_t k db"
    using memory_row_upserted [OF assms(3) out, of k] by simp
qed

text \<open>
  C28. \<open>UpsertMemory\<close> undisturbed.  A new key is stored with version 1.  An existing key is overwritten and
  its version raised by one, keeping its creation time, unless the caller named another version than
  the stored one: then it is a conflict without effect.  What is returned is what \<open>GetMemory\<close> reads
  afterwards, and no other key is touched.
\<close>

theorem upsert_then_get_memory:
  assumes "quiet E" "quiet E'" "db_ok db" "utc_ok (in_UTC (sv_now E 0))"
    and "col_time (created_at e (in_UTC (sv_now E 0)))"
  shows "case row_at memory_t (me_Key e) db of
      Some r \<Rightarrow> if me_Version e > 0 \<and> m_version r \<noteq> me_Version e then UpsertMemory E e db = (Inl ErrConflict, db)
        else \<exists>e' db'. UpsertMemory E e db = (Inr e', db') \<and> me_Version e' = m_version r + 1 \<and>
          me_CreatedAt e' = parse_ts (m_created_at r) \<and> me_Value e' = me_Value e \<and>
          GetMemory E' (me_Key e) db' = (Inr e', db') \<and>
          (\<forall>k. k \<noteq> me_Key e \<longrightarrow> row_at memory_t k db' = row_at memory_t k db)
    | None \<Rightarrow> \<exists>e' db'. UpsertMemory E e db = (Inr e', db') \<and> me_Version e' = 1 \<and> me_Value e' = me_Value e \<and>
          GetMemory E' (me_Key e) db' = (Inr e', db') \<and>
          (\<forall>k. k \<noteq> me_Key e \<longrightarrow> row_at memory_t k db' = row_at memory_t k db)"
proof -
  define now where "now = in_UTC (sv_now E 0)"
  define j where "j = strs_column (me_Tags e)"
  note run = UpsertMemory_run [OF assms(1,3), of e, folded now_def j_def]
  note again = upsert_read_back [OF assms(1-3) assms(4,5) [folded now_def] now_def j_def]
  show ?thesis
  proof (cases "row_at memory_t (me_Key e) db")
    case None
    then obtain e' db' where "upsert_outcome j now (with_tags e) db = Some (e', db')"
      "me_Version e' = 1" "me_Value e' = me_Value e"
      by (simp add: upsert_outcome_def)
    with None again show ?thesis by auto
  next
    case (Some r)
    show ?thesis
    proof (cases "me_Version e > 0 \<and> m_version r \<noteq> me_Version e")
      case True
      then show ?thesis using run Some by (simp add: upsert_outcome_def)
    next
      case False
      then obtain e' db' where "upsert_outcome j now (with_tags e) db = Some (e', db')"
        "me_Version e' = m_version r + 1" "me_CreatedAt e' = parse_ts (m_created_at r)" "me_Value e' = me_Value e"
        using Some by (simp add: upsert_outcome_def)
      with Some False again show ?thesis by auto
    qed
  qed
qed

theorem upsert_then_get_memory_witness:
  "UpsertMemory (quiet_senv (demo_time 0) []) (demo_entry 1 ''late'') demo_memory = (Inl ErrConflict, demo_memory) \<and>
   (\<exists>e' db'. UpsertMemory (quiet_senv (demo_time 0) []) (demo_entry 2 ''good'') demo_memory = (Inr e', db') \<and>
      me_Version e' = 3 \<and> fst (GetMemory (quiet_senv (demo_time 0) []) ''plan'' db') = Inr e')"
proof -
  let ?E = "quiet_senv (demo_time 0) []"
  have u: "utc_ok (in_UTC (sv_now ?E 0))" by (simp, code_simp)
  have c: "col_time (created_at (demo_entry v val) (in_UTC (sv_now ?E 0)))" for v val
    using u by (simp add: created_at_def demo_entry_def zero_time_def IsZero_def)
  note spec = upsert_then_get_memory [OF quiet_senv_simps(2) quiet_senv_simps(2) demo_memory_facts(1) u c]
  have k: "me_Key (demo_entry v val) = ''plan''" "me_Version (demo_entry v val) = v" for v val
    by (simp_all add: demo_entry_def)
  show ?thesis
    using spec [of 1 "''late''" "demo_time 0" "[]"] spec [of 2 "''good''" "demo_time 0" "[]"]
    by (auto simp: k demo_memory_facts(2))
qed

text \<open>What a run of the closure that did not fail has done, whatever the environment.\<close>

lemma UpsertMemory_body_effect:
  assumes ok: "db_ok db" and run: "UpsertMemory_tx j now A e (begin_tx db) = (Inr e', t)"
  shows "upsert_outcome j now e db = Some (e', tx_db t) \<and> \<not> tx_aborted t"
proof -
  obtain res t1 where row: "tx_row (at_stmt A) (sql_select memory_t (\<lambda>r. m_key r = me_Key e)) (begin_tx db) = (res, t1)"
    by fastforce
  show ?thesis
  proof (cases "tx_exec (at_stmt A) (sql_select memory_t (\<lambda>r. m_key r = me_Key e)) (begin_tx db)")
    case (Pair sel u)
    show ?thesis
    proof (cases sel)
      case (Inr rs)
      then have u: "tx_db u = db" "rs = filter (\<lambda>r. m_key r = me_Key e) (db_memory db)"
        using tx_exec_Inr Pair by (fastforce simp: sql_select_def)+
      have r: "res = first_row rs" "t1 = u" using row Pair Inr by (simp_all add: tx_row_def)
      show ?thesis
      proof (cases "row_at memory_t (me_Key e) db")
        case None
        then have "res = Inl ErrNoRows" using r u select_memory_row [OF ok, of "me_Key e"] by (simp add: first_row_def)
        then obtain y v where ex: "tx_exec (at_stmt A)
            (sql_insert memory_t (memory_insert_row e j (created_at e now) now)) t1 = (Inr y, v)"
          "t = v" "e' = e\<lparr>me_Version := 1, me_CreatedAt := created_at e now, me_UpdatedAt := now\<rparr>"
          using run row by (auto simp: UpsertMemory_tx_def tx_Inr Let_def created_at_def)
        then show ?thesis
          using tx_exec_Inr [OF ex(1)] None u r by (auto simp: upsert_outcome_def sql_insert_def split: if_splits)
      next
        case (Some x)
        then have "res = Inr x" using r u select_memory_row [OF ok, of "me_Key e"] by (simp add: first_row_def)
        then obtain y v where ex: "tx_exec (at_stmt A)
            (sql_update memory_t (\<lambda>r. m_key r = me_Key e) (memory_set e j now)) t1 = (Inr y, v)"
          "t = v" "e' = e\<lparr>me_Version := m_version x + 1, me_CreatedAt := parse_ts (m_created_at x), me_UpdatedAt := now\<rparr>"
          "\<not> (me_Version e > 0 \<and> m_version x \<noteq> me_Version e)"
          using run row by (auto simp: UpsertMemory_tx_def tx_Inr split: if_splits)
        then show ?thesis
          using tx_exec_Inr [OF ex(1)] Some u r by (auto simp: upsert_outcome_def sql_update_def)
      qed
    next
      case (Inl er)
      then have r: "res = Inl er" "t1 = u" using row Pair by (simp_all add: tx_row_def)
      have ab: "tx_aborted u" using Pair Inl by (auto simp: tx_exec_def sql_select_def split: option.splits if_splits)
      show ?thesis
        using run row r ab tx_exec_Inr [of "at_stmt A" _ u]
        by (fastforce simp: UpsertMemory_tx_def tx_Inr Let_def split: if_splits)
    qed
  qed
qed

text \<open>
  C23. The optimistic lock, as long as no COMMIT fails.  Statements may fail and the closure may be
  retried, other sessions may write in between; when the call succeeds with a version named by the
  caller, the row it replaced had exactly that version (or there was no row, and the entry is new).
\<close>

theorem optimistic_lock_sound:
  assumes "others_keep db_ok E" "db_ok db" "\<And>k. at_commit (sv_tx E k) = Committed"
    and run: "UpsertMemory E e db = (Inr e', db')"
  shows "\<exists>db1. others_reach (sv_tx E) db db1 \<and>
    (case row_at memory_t (me_Key e) db1 of
       None \<Rightarrow> me_Version e' = 1
     | Some r \<Rightarrow> me_Version e' = m_version r + 1 \<and> (me_Version e > 0 \<longrightarrow> m_version r = me_Version e)) \<and>
    (\<forall>k. k \<noteq> me_Key e \<longrightarrow> row_at memory_t k db' = row_at memory_t k db1)"
proof -
  define now where "now = in_UTC (sv_now E 0)"
  define fn where "fn = UpsertMemory_tx (marshal_strs (Some (elems (me_Tags e)))) now"
  let ?I = "\<lambda>c d. c = with_tags e \<and> db_ok d \<and> others_reach (sv_tx E) db d"
  let ?Q = "\<lambda>e' db'. \<exists>db1 j. others_reach (sv_tx E) db db1 \<and> db_ok db1 \<and>
      upsert_outcome j now (with_tags e) db1 = Some (e', db')"
  have run': "RetryTx (sv_tx E) fn (with_tags e) db = (Inr e', db')"
    using run by (simp add: UpsertMemory_def Let_def with_tags_def [symmetric] fn_def now_def)
  have effect: "upsert_outcome (marshal_strs (Some (elems (me_Tags e)))) now c d = Some (c', tx_db t) \<and> \<not> tx_aborted t"
    if "db_ok d" "fn (sv_tx E k) c (begin_tx d) = (Inr c', t)" for c c' d t k
    using UpsertMemory_body_effect [OF that(1)] that(2) unfolding fn_def by blast
  have "case (Inr e' :: goerr + MemoryEntry) of Inl er \<Rightarrow> \<exists>c. ?I c db' | Inr c' \<Rightarrow> ?Q c' db'"
  proof (rule RetryTx_rule [where I = ?I and Q = ?Q and fn = fn and env = "sv_tx E", OF _ _ _ _ _ run'])
    show "?I (with_tags e) db" using assms(2) by (auto intro: or_refl)
  next
    fix k c d assume "?I c d"
    then show "?I c (at_others (sv_tx E k) d)"
      using others_keepD(1) [OF assms(1)] by (auto intro: or_step)
  next
    fix k c d c' t assume "?I c d" "fn (sv_tx E k) c (begin_tx d) = (Inr c', t)"
      "tx_aborted t \<or> (\<exists>e. at_commit (sv_tx E k) = NotCommitted e)"
    then show "?I c' d" using effect assms(3) by fastforce
  next
    fix k c d c' t er assume "at_commit (sv_tx E k) = MaybeCommitted er"
    then show "?I c' (tx_db t)" using assms(3) by simp
  next
    fix k c d c' t assume "?I c d" "fn (sv_tx E k) c (begin_tx d) = (Inr c', t)"
    then show "?Q c' (tx_db t)" using effect by blast
  qed
  then obtain db1 j where q: "others_reach (sv_tx E) db db1" "db_ok db1"
    "upsert_outcome j now (with_tags e) db1 = Some (e', db')" by auto
  have "row_at memory_t k db' = row_at memory_t k db1" if "k \<noteq> me_Key e" for k
    using memory_row_upserted [OF q(2,3), of k] that by simp
  moreover have "case row_at memory_t (me_Key e) db1 of None \<Rightarrow> me_Version e' = 1
      | Some r \<Rightarrow> me_Version e' = m_version r + 1 \<and> (me_Version e > 0 \<longrightarrow> m_version r = me_Version e)"
    using q(3) by (auto simp: upsert_outcome_def split: option.splits if_splits)
  ultimately show ?thesis using q(1) by blast
qed

theorem optimistic_lock_sound_witness:
  "\<exists>e' db' db1. UpsertMemory (quiet_senv (demo_time 0) []) (demo_entry 2 ''good'') demo_memory = (Inr e', db') \<and>
     (case row_at memory_t ''plan'' db1 of None \<Rightarrow> me_Version e' = 1
      | Some r \<Rightarrow> me_Version e' = m_version r + 1 \<and> m_version r = 2)"
proof -
  let ?E = "quiet_senv (demo_time 0) []"
  have k: "me_Key (demo_entry 2 ''good'') = ''plan''" "me_Version (demo_entry 2 ''good'') = 2"
    by (simp_all add: demo_entry_def)
  obtain e' db' where run: "UpsertMemory ?E (demo_entry 2 ''good'') demo_memory = (Inr e', db')"
    using UpsertMemory_run [OF _ demo_memory_facts(1), of ?E "demo_entry 2 ''good''"] demo_memory_facts(2)
    by (simp add: upsert_outcome_def k)
  have com: "at_commit (sv_tx ?E j) = Committed" for j by (simp add: calm_attempt_def)
  obtain db1 where "case row_at memory_t (me_Key (demo_entry 2 ''good'')) db1 of None \<Rightarrow> me_Version e' = 1
      | Some r \<Rightarrow> me_Version e' = m_version r + 1 \<and>
          (me_Version (demo_entry 2 ''good'') > 0 \<longrightarrow> m_version r = me_Version (demo_entry 2 ''good''))"
    using optimistic_lock_sound [OF quiet_others_keep [OF quiet_senv_simps(2)] demo_memory_facts(1) com run]
    by blast
  then have "case row_at memory_t ''plan'' db1 of None \<Rightarrow> me_Version e' = 1
      | Some r \<Rightarrow> me_Version e' = m_version r + 1 \<and> m_version r = 2"
    by (cases "row_at memory_t ''plan'' db1") (simp_all add: k)
  then show ?thesis using run by blast
qed

text \<open>
  An environment whose first COMMIT is refused with a serialization failure, after which another
  session does \<open>w\<close> before the closure runs again.
\<close>

definition overtaken :: "(database \<Rightarrow> database) \<Rightarrow> senv \<Rightarrow> senv" where
  "overtaken w E = E\<lparr>sv_tx := \<lambda>k. if k = 0
     then (sv_tx E 0)\<lparr>at_commit := NotCommitted (PgError crdbRetryCode), at_ctx := None\<rparr>
     else (sv_tx E k)\<lparr>at_others := w\<rparr>\<rparr>"

lemma UpsertMemory_tx_stmt:
  assumes "at_stmt A = at_stmt B"
  shows "UpsertMemory_tx j now A = UpsertMemory_tx j now B"
  by (rule ext) (unfold UpsertMemory_tx_def assms, rule refl)

lemma overtaken_simps [simp]:
  "at_begin (sv_tx (overtaken w E) k) = at_begin (sv_tx E k)"
  "at_stmt (sv_tx (overtaken w E) k) = at_stmt (sv_tx E k)"
  "at_others (sv_tx (overtaken w E) 0) = at_others (sv_tx E 0)"
  "at_others (sv_tx (overtaken w E) (Suc k)) = w"
  "at_ctx (sv_tx (overtaken w E) 0) = None"
  "at_commit (sv_tx (overtaken w E) 0) = NotCommitted (PgError crdbRetryCode)"
  "at_commit (sv_tx (overtaken w E) (Suc k)) = at_commit (sv_tx E (Suc k))"
  "sv_now (overtaken w E) = sv_now E"
  by (simp_all add: overtaken_def)

lemma UpsertMemory_overtaken:
  assumes E: "quiet E" and ok: "db_ok db" "db_ok (w db)"
    and out: "upsert_outcome (strs_column (me_Tags e)) (in_UTC (sv_now E 0)) (with_tags e) db = Some (e1, db1)"
  shows "UpsertMemory (overtaken w E) e db =
    (case upsert_outcome (strs_column (me_Tags e)) (in_UTC (sv_now E 0)) e1 (w db) of
       None \<Rightarrow> (Inl ErrConflict, w db) | Some (e', db') \<Rightarrow> (Inr e', db'))"
proof -
  let ?fn = "UpsertMemory_tx (strs_column (me_Tags e)) (in_UTC (sv_now E 0))"
  let ?env = "sv_tx (overtaken w E)"
  have A: "calm (sv_tx E k)" for k using E by simp
  note env = calm_simps(2,4) [OF A] calm_simps(1) [OF A]
  have fn: "?fn (?env k) = ?fn (sv_tx E k)" for k
    by (rule UpsertMemory_tx_stmt) simp
  have j: "marshal_strs (Some (elems (me_Tags e))) = strs_column (me_Tags e)"
    by (cases "me_Tags e") (simp_all add: strs_column_def marshal_strs_def)
  have def: "UpsertMemory (overtaken w E) e db = retry_from ?env ?fn 0 (with_tags e) db"
    by (simp add: UpsertMemory_def Let_def with_tags_def [symmetric] j RetryTx_def)
  obtain t where t: "?fn (?env 0) (with_tags e) (begin_tx db) = (Inr e1, t)" "\<not> tx_aborted t"
    using UpsertMemory_body [OF A [of 0] ok(1), of "strs_column (me_Tags e)" "in_UTC (sv_now E 0)" "with_tags e"] out
    unfolding fn by auto
  have "UpsertMemory (overtaken w E) e db = retry_from ?env ?fn (Suc 0) e1 db"
    unfolding def using retry_from_again [of 0 ?env "PgError crdbRetryCode" ?fn "with_tags e" db e1 t] t env
    by (simp add: maxRetries_def)
  moreover have "retry_from ?env ?fn (Suc 0) e1 db =
      (case upsert_outcome (strs_column (me_Tags e)) (in_UTC (sv_now E 0)) e1 (w db) of
         None \<Rightarrow> (Inl ErrConflict, w db) | Some (e', db') \<Rightarrow> (Inr e', db'))"
    using UpsertMemory_body [OF A [of "Suc 0"] ok(2), of "strs_column (me_Tags e)" "in_UTC (sv_now E 0)" e1]
      retry_from_last [of "Suc 0" ?env ?fn e1 db] env
    unfolding fn by (fastforce simp: maxRetries_def split: option.splits)
  ultimately show ?thesis by simp
qed

text \<open>
  C38. The optimistic lock does not survive a refused COMMIT.  The closure has assigned the new version
  to the caller's entry by then, so the retry compares the stored version with the one it computed
  itself: if in between another session has written the key, which raises the version to just that
  value, the write of the other session is overwritten and the caller told success, where the same
  call after that write is a conflict.
\<close>

theorem upsert_overwrites_newer:
  assumes "quiet E" "quiet E2" "db_ok db" "row_at memory_t (me_Key e) db = Some r"
    and "0 < me_Version e" "m_version r = me_Version e" "me_Key e2 = me_Key e"
    and "UpsertMemory E2 e2 db = (Inr e2', db2)"
  shows "me_Version e2' = me_Version e + 1 \<and> UpsertMemory E e db2 = (Inl ErrConflict, db2) \<and>
    (\<exists>e' db'. UpsertMemory (overtaken (\<lambda>d. snd (UpsertMemory E2 e2 d)) E) e db = (Inr e', db') \<and>
       me_Version e' = me_Version e + 2 \<and> (\<exists>x. row_at memory_t (me_Key e) db' = Some x \<and> m_value x = me_Value e))"
proof -
  let ?o = "upsert_outcome (strs_column (me_Tags e)) (in_UTC (sv_now E 0))"
  have out2: "upsert_outcome (strs_column (me_Tags e2)) (in_UTC (sv_now E2 0)) (with_tags e2) db = Some (e2', db2)"
    using UpsertMemory_run [OF assms(2,3), of e2] assms(8) by (auto split: option.splits prod.splits)
  then have v2: "me_Version e2' = me_Version e + 1"
    using assms(4,6,7) by (auto simp: upsert_outcome_def split: if_splits)
  have ok2: "db_ok db2"
    using memory_ops_db_ok(1) [OF quiet_others_keep [OF assms(2)] assms(3), of e2] assms(8) by simp
  obtain x where x: "row_at memory_t (me_Key e) db2 = Some x" "m_version x = me_Version e + 1"
    using memory_row_upserted [OF assms(3) out2, of "me_Key e"] assms(4,6,7) by simp
  have conflict: "UpsertMemory E e db2 = (Inl ErrConflict, db2)"
    using UpsertMemory_run [OF assms(1) ok2, of e] x assms(5) by (simp add: upsert_outcome_def)
  obtain e1 db1 where out1: "?o (with_tags e) db = Some (e1, db1)"
    "me_Version e1 = me_Version e + 1" "me_Key e1 = me_Key e" "me_Value e1 = me_Value e"
    using assms(4,5,6) by (simp add: upsert_outcome_def)
  obtain e' db' where out': "?o e1 db2 = Some (e', db')" "me_Version e' = me_Version e + 2"
    using x out1 by (simp add: upsert_outcome_def)
  have "UpsertMemory (overtaken (\<lambda>d. snd (UpsertMemory E2 e2 d)) E) e db = (Inr e', db')"
    using UpsertMemory_overtaken [OF assms(1,3) _ out1(1), of "\<lambda>d. snd (UpsertMemory E2 e2 d)"] assms(8) ok2 out'(1)
    by simp
  moreover have "row_at memory_t (me_Key e) db' = Some (memory_set e1 (strs_column (me_Tags e)) (in_UTC (sv_now E 0)) x)"
    using memory_row_upserted [OF ok2 out'(1), of "me_Key e"] out1(3) x by simp
  ultimately show ?thesis using v2 conflict out'(2) out1(4) by simp
qed

theorem upsert_overwrites_newer_witness:
  "\<exists>e' db'. UpsertMemory (overtaken (\<lambda>d. snd (UpsertMemory (quiet_senv (demo_time 5) []) (demo_entry 0 ''theirs'') d))
       (quiet_senv (demo_time 0) [])) (demo_entry 2 ''mine'') demo_memory = (Inr e', db') \<and> me_Version e' = 4"
proof -
  let ?E = "quiet_senv (demo_time 0) []" and ?E2 = "quiet_senv (demo_time 5) []"
  have k: "me_Key (demo_entry v val) = ''plan''" "me_Version (demo_entry v val) = v" for v val
    by (simp_all add: demo_entry_def)
  obtain e2' db2 where run: "UpsertMemory ?E2 (demo_entry 0 ''theirs'') demo_memory = (Inr e2', db2)"
    using UpsertMemory_run [OF _ demo_memory_facts(1), of ?E2 "demo_entry 0 ''theirs''"] demo_memory_facts(2)
    by (simp add: upsert_outcome_def k)
  have row: "row_at memory_t (me_Key (demo_entry 2 ''mine'')) demo_memory =
      Some (memory_set (demo_entry 0 ''draft'') (JArr []) (demo_time 0)
        (memory_insert_row (demo_entry 0 ''idea'') (JArr []) (demo_time 0) (demo_time 0)))"
    using demo_memory_facts(2) by (simp add: k)
  from upsert_overwrites_newer [OF quiet_senv_simps(2) quiet_senv_simps(2) demo_memory_facts(1) row _ _ _ run,
      of "demo_time 0" "[]"]
  show ?thesis by (simp add: k) blast
qed

text \<open>
  A refused COMMIT alone makes the update of an existing key fail: with nobody else at work, the
  retry meets the stored version, compares it with the one its first run computed and
  reports a conflict, also for a caller that asked for an unconditional write (version 0).
\<close>

theorem upsert_conflicts_with_itself:
  assumes "quiet E" "db_ok db" "row_at memory_t (me_Key e) db = Some r" "0 \<le> m_version r"
    and "me_Version e = 0 \<or> me_Version e = m_version r"
  shows "UpsertMemory (overtaken id E) e db = (Inl ErrConflict, db)"
proof -
  obtain e1 db1 where out1: "upsert_outcome (strs_column (me_Tags e)) (in_UTC (sv_now E 0)) (with_tags e) db = Some (e1, db1)"
    "me_Version e1 = m_version r + 1" "me_Key e1 = me_Key e"
    using assms(3,5) by (auto simp: upsert_outcome_def)
  then show ?thesis
    using UpsertMemory_overtaken [OF assms(1,2) _ out1(1), of id] assms(2,3,4) by (simp add: upsert_outcome_def)
qed

theorem upsert_conflicts_with_itself_witness:
  "UpsertMemory (overtaken id (quiet_senv (demo_time 0) [])) (demo_entry 0 ''mine'') demo_memory = (Inl ErrConflict, demo_memory)"
  using upsert_conflicts_with_itself [OF quiet_senv_simps(2) demo_memory_facts(1), where e = "demo_entry 0 ''mine''"]
    demo_memory_facts(2) by (simp add: demo_entry_def)

definition prefix_filter :: "string \<Rightarrow> MemoryFilter" where
  "prefix_filter p = \<lparr>mf_Tag = [], mf_Agent = [], mf_Prefix = p, mf_SessionKey = [], mf_Limit = 0, mf_Offset = 0\<rparr>"

text \<open>
  \<open>ListMemory\<close> undisturbed.  The entries are those of the rows that pass every filter given, the
  latest text of updated_at first, at most 50 or the requested number.  A prefix free of the
  characters LIKE interprets selects exactly the keys that start with it.
\<close>

theorem list_memory_spec:
  assumes "quiet E"
  shows "\<exists>rows. ListMemory E f db = (Inr (map finishMemoryScan rows), db) \<and>
    listing (memory_matches f) (if mf_Limit f > 0 then nat (mf_Limit f) else 50) (mf_Offset f) (db_memory db) rows \<and>
    sorted (rev (map m_updated_at rows)) \<and>
    (like_plain (mf_Prefix f) \<longrightarrow> (\<forall>r \<in> set rows. take (length (mf_Prefix f)) (m_key r) = mf_Prefix f))"
proof -
  define rows where "rows = paginate 50 (mf_Limit f) (mf_Offset f)
    (order_desc m_updated_at (filter (memory_matches f) (db_memory db)))"
  have run: "ListMemory E f db = (Inr (map finishMemoryScan rows), db)"
    using assms by (simp add: ListMemory_def query_rows_def calm_access_def quiet_def select_memory_def rows_def)
  have l: "listing (memory_matches f) (if mf_Limit f > 0 then nat (mf_Limit f) else 50) (mf_Offset f) (db_memory db) rows"
    unfolding rows_def by (rule listing_order)
  have "take (length (mf_Prefix f)) (m_key r) = mf_Prefix f" if "like_plain (mf_Prefix f)" "r \<in> set rows" for r
    using l that sql_like_prefix [of "mf_Prefix f" "m_key r"]
    by (cases "mf_Prefix f = []") (auto simp: memory_matches_def listing_def)
  then show ?thesis using run l sorted_paginate_desc [of m_updated_at] unfolding rows_def by blast
qed

theorem list_memory_spec_witness:
  "\<exists>rows. ListMemory (quiet_senv (demo_time 0) []) (prefix_filter ''pl'') demo_memory = (Inr (map finishMemoryScan rows), demo_memory) \<and>
     length rows \<le> 50 \<and> (\<forall>r \<in> set rows. take 2 (m_key r) = ''pl'')"
proof -
  have f: "mf_Limit (prefix_filter p) = 0" "mf_Prefix (prefix_filter p) = p" for p by (simp_all add: prefix_filter_def)
  have pl: "like_plain ''pl''" by (simp add: like_plain_def)
  obtain rows where r: "ListMemory (quiet_senv (demo_time 0) []) (prefix_filter ''pl'') demo_memory = (Inr (map finishMemoryScan rows), demo_memory)"
    "listing (memory_matches (prefix_filter ''pl'')) 50 (mf_Offset (prefix_filter ''pl'')) (db_memory demo_memory) rows"
    "\<forall>r \<in> set rows. take (length ''pl'') (m_key r) = ''pl''"
    using list_memory_spec [OF quiet_senv_simps(2), of "demo_time 0" "[]" "prefix_filter ''pl''" demo_memory, unfolded f] pl
    by auto

  show ?thesis using r by (intro exI [of _ rows]) (simp add: listing_def eval_nat_numeral)
qed

text \<open>
  The prefix is not escaped.  Keys may well contain underscores, and then LIKE takes them for any
  character: the prefix \<open>user_\<close> also lists the key \<open>userA\<close>.  A prefix that ends in a backslash matches
  no key that starts with it unless a percent sign follows.
\<close>

theorem prefix_is_a_pattern:
  "memory_matches (prefix_filter ''user_'') (r\<lparr>m_key := ''userA''\<rparr>) \<and>
   \<not> memory_matches (prefix_filter [CHR 0x5C]) (r\<lparr>m_key := CHR 0x5C # k\<rparr>) \<and>
   memory_matches (prefix_filter [CHR 0x5C]) (r\<lparr>m_key := ''%''\<rparr>)"
  by (simp add: memory_matches_def prefix_filter_def)

end
