(* ===== verification/TaskApi.thy ===== *)
theory TaskApi
  imports Http TaskStore MemoryStore
begin

text \<open>
  \<^verbatim>\<open>internal/handlers/tasks.go\<close> and \<^verbatim>\<open>internal/handlers/memory.go\<close>.  The store's lists stand for Go
  slices that are never nil in the response, so the replacement of nil by an empty slice is the
  identity here.
\<close>

section \<open>Tasks\<close>

record taskCreateInput =
  tkc_XAgentID :: string
  tkc_Title :: string
  tkc_Description :: string
  tkc_Priority :: int
  tkc_Tags :: "string slice"

record taskUpdateInput =
  tku_ID :: string
  tku_XAgentID :: string
  tku_Status :: "TaskStatus option"
  tku_Assignee :: "string option"
  tku_Note :: "string option"

definition task_missing :: "goerr \<times> http_error" where
  "task_missing = (ErrNotFound, http_err 404 ''task not found'')"

definition taskCreate :: "senv \<Rightarrow> Context \<Rightarrow> taskCreateInput \<Rightarrow> database \<Rightarrow> Task reply \<times> database" where
  "taskCreate E ctx inp db = answers [] (http_err 500 ''failed to create task'')
     (CreateTask E \<lparr>ta_ID = [], ta_Title = tkc_Title inp, ta_Description = tkc_Description inp, ta_Status = [],
        ta_Creator = tkc_XAgentID inp, ta_Assignee = [], ta_Priority = tkc_Priority inp, ta_Tags = tkc_Tags inp,
        ta_Notes = None, ta_Session = SessionFromCtx ctx, ta_CreatedAt = zero_time, ta_UpdatedAt = zero_time\<rparr> db)"

definition taskGet :: "senv \<Rightarrow> string \<Rightarrow> database \<Rightarrow> Task reply \<times> database" where
  "taskGet E i db = answers [task_missing] (http_err 500 ''failed to get task'') (GetTask E i db)"

definition taskList :: "senv \<Rightarrow> TaskFilter \<Rightarrow> database \<Rightarrow> Task list reply \<times> database" where
  "taskList E f db = answers [] (http_err 500 ''failed to list tasks'') (ListTasks E f db)"

definition taskUpdate :: "senv \<Rightarrow> Context \<Rightarrow> taskUpdateInput \<Rightarrow> database \<Rightarrow> Task reply \<times> database" where
  "taskUpdate E ctx inp db = answers
     [task_missing, (ErrInvalidTransition, http_err 422 ''the requested status transition is not allowed'')]
     (http_err 500 ''failed to update task'')
     (UpdateTask E (tku_ID inp) \<lparr>tu_Status = tku_Status inp, tu_Assignee = tku_Assignee inp, tu_Note = tku_Note inp,
        tu_AgentID = tku_XAgentID inp, tu_Session = SessionFromCtx ctx\<rparr> db)"

definition taskDelete :: "senv \<Rightarrow> string \<Rightarrow> database \<Rightarrow> unit reply \<times> database" where
  "taskDelete E i db = answers [task_missing] (http_err 500 ''failed to delete task'') (DeleteTask E i db)"

section \<open>Memory\<close>

record memoryUpsertInput =
  mui_XAgentID :: string
  mui_Key :: string
  mui_Value :: string
  mui_Tags :: "string slice"
  mui_Version :: int

definition memory_missing :: "goerr \<times> http_error" where
  "memory_missing = (ErrNotFound, http_err 404 ''memory entry not found'')"

definition memoryUpsert :: "senv \<Rightarrow> Context \<Rightarrow> memoryUpsertInput \<Rightarrow> database \<Rightarrow> MemoryEntry reply \<times> database" where
  "memoryUpsert E ctx inp db = answers [(ErrConflict, http_err 409 ''version conflict: stale data'')]
     (http_err 500 ''failed to upsert memory'')
     (UpsertMemory E \<lparr>me_Key = mui_Key inp, me_Value = mui_Value inp, me_AgentID = mui_XAgentID inp,
        me_Tags = mui_Tags inp, me_Version = mui_Version inp, me_Session = SessionFromCtx ctx,
        me_CreatedAt = zero_time, me_UpdatedAt = zero_time\<rparr> db)"

definition memoryGet :: "senv \<Rightarrow> string \<Rightarrow> database \<Rightarrow> MemoryEntry reply \<times> database" where
  "memoryGet E k db = answers [memory_missing] (http_err 500 ''failed to get memory'') (GetMemory E k db)"

definition memoryList :: "senv \<Rightarrow> MemoryFilter \<Rightarrow> database \<Rightarrow> MemoryEntry list reply \<times> database" where
  "memoryList E f db = answers [] (http_err 500 ''failed to list memory'') (ListMemory E f db)"

definition memoryDelete :: "senv \<Rightarrow> string \<Rightarrow> database \<Rightarrow> unit reply \<times> database" where
  "memoryDelete E k db = answers [memory_missing] (http_err 500 ''failed to delete memory'') (DeleteMemory E k db)"

end
