(* ===== verification/AgentStore.thy ===== *)
theory AgentStore
  imports Access
begin

text \<open>
  \<^verbatim>\<open>internal/store/agents.go\<close> and the agent part of \<^verbatim>\<open>internal/store/scan.go\<close>: heartbeats, presence and
  the tokens of agents.  The text form of a token is \<^verbatim>\<open>base64.StdEncoding\<close> of its bytes.
\<close>

section \<open>Base64\<close>

definition b64 :: "int \<Rightarrow> char" where
  "b64 n = char_of (if n < 26 then 65 + n else if n < 52 then 71 + n else if n < 62 then n - 4
     else if n = 62 then 43 else 47)"

fun base64_Encode :: "int list \<Rightarrow> string" where
  "base64_Encode [] = []"
| "base64_Encode [a] = [b64 (a div 4), b64 (a mod 4 * 16), CHR ''='', CHR ''='']"
| "base64_Encode [a, b] = [b64 (a div 4), b64 (a mod 4 * 16 + b div 16), b64 (b mod 16 * 4), CHR ''='']"
| "base64_Encode (a # b # c # bs) =
     [b64 (a div 4), b64 (a mod 4 * 16 + b div 16), b64 (b mod 16 * 4 + c div 64), b64 (c mod 64)] @ base64_Encode bs"

section \<open>The code\<close>

definition offlineThreshold :: duration where "offlineThreshold = 5 * Minute"

text \<open>\<open>now\<close> is the reading of the clock in \<^verbatim>\<open>time.Since\<close>.\<close>

definition finishAgentScan :: "gotime \<Rightarrow> Agent \<Rightarrow> json \<Rightarrow> string \<Rightarrow> string \<Rightarrow> Agent" where
  "finishAgentScan now a caps hb reg =
     (let a1 = a\<lparr>ag_Capabilities := scan_strs caps, ag_LastHeartbeat := parse_ts hb, ag_RegisteredAt := parse_ts reg\<rparr> in
      if time_sub now (ag_LastHeartbeat a1) > offlineThreshold \<and> ag_Status a1 \<noteq> AgentStatusOffline
      then a1\<lparr>ag_Status := AgentStatusOffline\<rparr> else a1)"

definition agent_of_row :: "gotime \<Rightarrow> agent_row \<Rightarrow> Agent" where
  "agent_of_row now r = finishAgentScan now
     \<lparr>ag_ID = a_id r, ag_Name = a_name r, ag_Status = a_status r, ag_Activity = a_activity r,
      ag_Capabilities = None, ag_LastHeartbeat = zero_time, ag_RegisteredAt = zero_time,
      ag_HiveLocalVersion = a_hive_local_version r, ag_HivePluginVersion = a_hive_plugin_version r,
      ag_Token = (case a_token r of None \<Rightarrow> [] | Some t \<Rightarrow> t)\<rparr>
     (a_capabilities r) (a_last_heartbeat r) (a_registered_at r)"

definition scanAgentRow :: "gotime \<Rightarrow> goerr + agent_row \<Rightarrow> goerr + Agent" where
  "scanAgentRow now res = scan_row ''scan agent'' (agent_of_row now) res"

text \<open>The row a first heartbeat inserts; the columns it does not name have their defaults.\<close>

definition heartbeat_row ::
  "string \<Rightarrow> json \<Rightarrow> AgentStatus \<Rightarrow> string \<Rightarrow> string \<Rightarrow> string \<Rightarrow> gotime \<Rightarrow> agent_row" where
  "heartbeat_row i caps status activity lv pv now = \<lparr>a_id = i, a_name = i, a_status = status,
     a_activity = activity, a_capabilities = caps, a_last_heartbeat = format_RFC3339Nano now,
     a_registered_at = format_RFC3339Nano now, a_hive_local_version = lv, a_hive_plugin_version = pv,
     a_token = None, a_discord_user_id = [], a_home_channel = [], a_mention_format = [], a_channels = JArr []\<rparr>"

text \<open>The DO UPDATE SET clause: \<open>new\<close> is EXCLUDED.\<close>

definition heartbeat_set :: "agent_row \<Rightarrow> agent_row \<Rightarrow> agent_row" where
  "heartbeat_set new r = r\<lparr>a_status := a_status new, a_activity := a_activity new,
     a_capabilities := a_capabilities new, a_last_heartbeat := a_last_heartbeat new,
     a_hive_local_version := a_hive_local_version new, a_hive_plugin_version := a_hive_plugin_version new\<rparr>"

definition Heartbeat_tx :: "agent_row \<Rightarrow> (database, unit) tx_fn" where
  "Heartbeat_tx new A u = tx_exec (at_stmt A) (sql_upsert agents_t new (heartbeat_set new))"

definition GetAgent_at :: "nat \<Rightarrow> senv \<Rightarrow> string \<Rightarrow> database \<Rightarrow> (goerr + Agent) \<times> database" where
  "GetAgent_at k E i db =
     (case query_row (sv_access E 0) (sql_select agents_t (\<lambda>r. a_id r = i)) db of
        (res, db') \<Rightarrow> (scanAgentRow (sv_now E k) res, db'))"

abbreviation GetAgent :: "senv \<Rightarrow> string \<Rightarrow> database \<Rightarrow> (goerr + Agent) \<times> database" where
  "GetAgent \<equiv> GetAgent_at 0"

definition Heartbeat ::
  "senv \<Rightarrow> string \<Rightarrow> string slice \<Rightarrow> AgentStatus \<Rightarrow> string \<Rightarrow> string \<Rightarrow> string \<Rightarrow> database \<Rightarrow> (goerr + Agent) \<times> database" where
  "Heartbeat E i capabilities status activity lv pv db =
     (case RetryTx (sv_tx E) (Heartbeat_tx (heartbeat_row i (strs_column capabilities) status activity lv pv
          (in_UTC (sv_now E 0)))) () db of
        (Inl e, db') \<Rightarrow> (Inl (Wrapped ''heartbeat upsert'' e), db')
      | (Inr _, db') \<Rightarrow> GetAgent_at 1 E i db')"

text \<open>Every row of a list is scanned at its own reading of the clock.\<close>

definition ListAgents :: "senv \<Rightarrow> database \<Rightarrow> (goerr + Agent list) \<times> database" where
  "ListAgents E db =
     (case query_rows ''list agents'' (sv_access E 0) (\<lambda>d. (Inr (order_asc a_id (db_agents d)), d)) db of
       (Inl e, db') \<Rightarrow> (Inl e, db')
     | (Inr rows, db') \<Rightarrow> (Inr (map (\<lambda>(k, r). agent_of_row (sv_now E k) r) (enumerate 0 rows)), db'))"

definition token_row :: "string \<Rightarrow> string \<Rightarrow> gotime \<Rightarrow> agent_row" where
  "token_row i token now = (heartbeat_row i (JArr []) AgentStatusOnline [] [] [] now)\<lparr>a_token := Some token\<rparr>"

definition token_set :: "agent_row \<Rightarrow> agent_row \<Rightarrow> agent_row" where
  "token_set new r = r\<lparr>a_token := a_token new\<rparr>"

definition GenerateAgentToken_tx :: "agent_row \<Rightarrow> (database, unit) tx_fn" where
  "GenerateAgentToken_tx new A u = tx_exec (at_stmt A) (sql_upsert agents_t new (token_set new))"

text \<open>\<open>sv_random\<close> is the outcome of \<^verbatim>\<open>rand.Read\<close>: an error or the 32 bytes it filled in.\<close>

definition GenerateAgentToken :: "senv \<Rightarrow> string \<Rightarrow> database \<Rightarrow> (goerr + Agent) \<times> database" where
  "GenerateAgentToken E i db =
     (case sv_random E of
        Inl e \<Rightarrow> (Inl (Wrapped ''generate token'' e), db)
      | Inr tokenBytes \<Rightarrow>
          (case RetryTx (sv_tx E) (GenerateAgentToken_tx (token_row i (base64_Encode tokenBytes) (in_UTC (sv_now E 0)))) () db of
             (Inl e, db') \<Rightarrow> (Inl (Wrapped ''save agent token'' e), db')
           | (Inr _, db') \<Rightarrow>
               (case GetAgent_at 1 E i db' of
                  (Inl e, db'') \<Rightarrow> (Inl (Wrapped ''retrieve agent after token generation'' e), db'')
                | (Inr a, db'') \<Rightarrow> (Inr a, db''))))"

section \<open>The database stays well-formed\<close>

lemma agent_rows_id [simp]:
  "a_id (heartbeat_row i caps st act lv pv now) = i" "a_id (token_row i tok now) = i"
  "a_id (heartbeat_set new r) = a_id r" "a_id (token_set new r) = a_id r"
  by (simp_all add: heartbeat_row_def token_row_def heartbeat_set_def token_set_def)

interpretation heartbeat: tx_body "Heartbeat_tx new" db_ok for new
  by (rule tx_bodyI, unfold Heartbeat_tx_def, intro tx_pres) (simp_all add: stmt_simps)

interpretation agent_token: tx_body "GenerateAgentToken_tx new" db_ok for new
  by (rule tx_bodyI, unfold GenerateAgentToken_tx_def, intro tx_pres) (simp_all add: stmt_simps)

lemma GetAgent_keeps: "others_keep I E \<Longrightarrow> I db \<Longrightarrow> I (snd (GetAgent_at k E i db))"
  by (auto simp: GetAgent_at_def others_keepD [of I E] dest!: query_dbD split: prod.splits)

lemma agent_ops_db_ok:
  assumes "others_keep db_ok E" "db_ok db"
  shows "db_ok (snd (GetAgent_at k E i db))" "db_ok (snd (ListAgents E db))"
    and "db_ok (snd (Heartbeat E i caps st act lv pv db))" "db_ok (snd (GenerateAgentToken E i db))"
proof -
  have keep: "db_ok d \<Longrightarrow> db_ok (at_others (sv_tx E j) d)" for j d by (rule others_keepD [OF assms(1)])
  show "db_ok (snd (GetAgent_at k E i db))" by (rule GetAgent_keeps [OF assms])
  show "db_ok (snd (ListAgents E db))"
    using assms by (auto simp: ListAgents_def others_keepD [of db_ok E] dest!: query_dbD split: prod.splits sum.splits)
  have hb: "db_ok d" if "RetryTx (sv_tx E) (Heartbeat_tx new) () db = (r, d)" for new r d
    using heartbeat.RetryTx_inv [of "sv_tx E" db new "()", OF keep assms(2)] that by simp
  show "db_ok (snd (Heartbeat E i caps st act lv pv db))"
    by (auto simp: Heartbeat_def intro!: GetAgent_keeps [OF assms(1)] dest!: hb split: prod.splits sum.splits)
  have tok: "db_ok d" if "RetryTx (sv_tx E) (GenerateAgentToken_tx new) () db = (r, d)" for new r d
    using agent_token.RetryTx_inv [of "sv_tx E" db new "()", OF keep assms(2)] that by simp
  have get: "db_ok d'" if "GetAgent_at k E i d = (r, d')" "db_ok d" for k d r d'
    using GetAgent_keeps [OF assms(1) that(2), of k i] that(1) by simp
  show "db_ok (snd (GenerateAgentToken E i db))"
    using assms(2) by (auto simp: GenerateAgentToken_def dest!: tok get split: prod.splits sum.splits)
qed

section \<open>How the operations run undisturbed\<close>

lemma select_agent_row:
  "db_ok db \<Longrightarrow> filter (\<lambda>r. a_id r = i) (db_agents db) =
     (case row_at agents_t i db of None \<Rightarrow> [] | Some r \<Rightarrow> [r])"
  using agents.select_row_at [of db i] by (simp add: db_ok_def)

lemma GetAgent_run:
  "quiet E \<Longrightarrow> db_ok db \<Longrightarrow> GetAgent_at k E i db =
     ((case row_at agents_t i db of None \<Rightarrow> Inl ErrNotFound | Some r \<Rightarrow> Inr (agent_of_row (sv_now E k) r)), db)"
  by (cases "row_at agents_t i db")
    (simp_all add: GetAgent_at_def select_agent_row first_row_def scanAgentRow_def scan_row_def)

lemma Heartbeat_run:
  assumes "quiet E" "db_ok db" and new: "new = heartbeat_row i (strs_column caps) st act lv pv (in_UTC (sv_now E 0))"
  shows "Heartbeat E i caps st act lv pv db =
    (Inr (agent_of_row (sv_now E 1) (case row_at agents_t i db of None \<Rightarrow> new | Some r \<Rightarrow> heartbeat_set new r)),
     snd (sql_upsert agents_t new (heartbeat_set new) db))"
proof -
  let ?db = "snd (sql_upsert agents_t new (heartbeat_set new) db)"
  have run: "RetryTx (sv_tx E) (Heartbeat_tx new) () db = (Inr (), ?db)"
    using assms(1) by (intro RetryTx_upsert) (simp_all add: Heartbeat_tx_def)
  have "db_ok ?db" using assms(2) by (simp add: stmt_simps)
  moreover have "row_at agents_t i ?db = Some (case row_at agents_t i db of None \<Rightarrow> new | Some r \<Rightarrow> heartbeat_set new r)"
    using agents.row_at_upsert [of new "heartbeat_set new" i db] by (simp add: new)
  ultimately show ?thesis
    using GetAgent_run [OF assms(1), of ?db 1 i] run unfolding Heartbeat_def new by simp
qed

lemma GenerateAgentToken_run:
  assumes "quiet E" "db_ok db" "sv_random E = Inr bytes"
    and new: "new = token_row i (base64_Encode bytes) (in_UTC (sv_now E 0))"
  shows "GenerateAgentToken E i db =
    (Inr (agent_of_row (sv_now E 1) (case row_at agents_t i db of None \<Rightarrow> new | Some r \<Rightarrow> token_set new r)),
     snd (sql_upsert agents_t new (token_set new) db))"
proof -
  let ?db = "snd (sql_upsert agents_t new (token_set new) db)"
  have run: "RetryTx (sv_tx E) (GenerateAgentToken_tx new) () db = (Inr (), ?db)"
    using assms(1) by (intro RetryTx_upsert) (simp_all add: GenerateAgentToken_tx_def)
  have "db_ok ?db" using assms(2) by (simp add: stmt_simps)
  moreover have "row_at agents_t i ?db = Some (case row_at agents_t i db of None \<Rightarrow> new | Some r \<Rightarrow> token_set new r)"
    using agents.row_at_upsert [of new "token_set new" i db] by (simp add: new)
  ultimately show ?thesis
    using GetAgent_run [OF assms(1), of ?db 1 i] run assms(3) unfolding GenerateAgentToken_def new by simp
qed

section \<open>What the agents' store promises\<close>

definition is_byte :: "int \<Rightarrow> bool" where
  "is_byte b \<longleftrightarrow> 0 \<le> b \<and> b < 256"

lemma b64_inj:
  assumes "0 \<le> m" "m < 64" "0 \<le> n" "n < 64"
  shows "b64 m = b64 n \<longleftrightarrow> m = n"
proof
  have code: "(of_char (b64 k) :: int) = (if k < 26 then 65 + k else if k < 52 then 71 + k else if k < 62 then k - 4
     else if k = 62 then 43 else 47)" if "0 \<le> k" "k < 64" for k
    using that by (simp add: b64_def)
  assume "b64 m = b64 n"
  then have "(of_char (b64 m) :: int) = of_char (b64 n)" by simp
  then show "m = n" unfolding code [OF assms(1,2)] code [OF assms(3,4)] using assms
    by (simp split: if_split_asm)
qed simp

lemma base_unique:
  fixes k :: int
  assumes "0 \<le> p" "p < k" "0 \<le> q" "q < k" "u * k + p = v * k + q"
  shows "u = v \<and> p = q"
proof -
  have "(u * k + p) div k = u" "(v * k + q) div k = v"
    using assms(1-4) by (simp_all add: div_pos_pos_trivial)
  then have "u = v" using assms(5) by simp
  then show ?thesis using assms(5) by simp
qed

lemma byte_parts:
  assumes "is_byte a"
  shows "0 \<le> a div 4" "a div 4 < 64" "0 \<le> a div 16" "a div 16 < 16" "0 \<le> a div 64" "a div 64 < 4"
    "0 \<le> a mod 4" "a mod 4 < 4" "0 \<le> a mod 16" "a mod 16 < 16" "0 \<le> a mod 64" "a mod 64 < 64"
  using assms unfolding is_byte_def by (presburger+)

lemma byte_eq: "a div k = x div k \<Longrightarrow> a mod k = x mod k \<Longrightarrow> a = (x :: int)"
  by (metis mult_div_mod_eq)

lemma sextets_inj:
  assumes "is_byte a" "is_byte b" "is_byte x" "is_byte y" "b64 (a div 4) = b64 (x div 4)"
  shows "b64 (a mod 4 * 16) = b64 (x mod 4 * 16) \<Longrightarrow> a = x"
    and "b64 (a mod 4 * 16 + b div 16) = b64 (x mod 4 * 16 + y div 16) \<Longrightarrow> a = x \<and> b div 16 = y div 16"
proof -
  note a = byte_parts [OF assms(1)] and b = byte_parts [OF assms(2)]
    and x = byte_parts [OF assms(3)] and y = byte_parts [OF assms(4)]
  note p = a(7,8) b(3,4) x(7,8) y(3,4)
  have hi: "a div 4 = x div 4" using b64_inj [OF a(1,2) x(1,2)] assms(5) by (rule iffD1)
  show "a = x" if "b64 (a mod 4 * 16) = b64 (x mod 4 * 16)"
  proof (rule byte_eq [OF hi])
    have "a mod 4 * 16 = x mod 4 * 16" using that p by (subst (asm) b64_inj) linarith+
    then show "a mod 4 = x mod 4" by simp
  qed
  assume "b64 (a mod 4 * 16 + b div 16) = b64 (x mod 4 * 16 + y div 16)"
  then have "a mod 4 * 16 + b div 16 = x mod 4 * 16 + y div 16" using p by (subst (asm) b64_inj) linarith+
  then have "a mod 4 = x mod 4 \<and> b div 16 = y div 16" by (rule base_unique [OF b(3,4) y(3,4)])
  then show "a = x \<and> b div 16 = y div 16" using byte_eq [OF hi] by simp
qed

lemma sextets_inj_mid:
  assumes "is_byte b" "is_byte c" "is_byte y" "is_byte z" "b div 16 = y div 16"
  shows "b64 (b mod 16 * 4) = b64 (y mod 16 * 4) \<Longrightarrow> b = y"
    and "b64 (b mod 16 * 4 + c div 64) = b64 (y mod 16 * 4 + z div 64) \<Longrightarrow> b64 (c mod 64) = b64 (z mod 64) \<Longrightarrow>
      b = y \<and> c = z"
proof -
  note b = byte_parts [OF assms(1)] and c = byte_parts [OF assms(2)]
    and y = byte_parts [OF assms(3)] and z = byte_parts [OF assms(4)]
  note p = b(9,10) c(5,6) y(9,10) z(5,6)
  show "b = y" if "b64 (b mod 16 * 4) = b64 (y mod 16 * 4)"
  proof (rule byte_eq [OF assms(5)])
    have "b mod 16 * 4 = y mod 16 * 4" using that p by (subst (asm) b64_inj) linarith+
    then show "b mod 16 = y mod 16" by simp
  qed
  assume h: "b64 (b mod 16 * 4 + c div 64) = b64 (y mod 16 * 4 + z div 64)" "b64 (c mod 64) = b64 (z mod 64)"
  then have "b mod 16 * 4 + c div 64 = y mod 16 * 4 + z div 64" using p by (subst (asm) b64_inj) linarith+
  then have "b mod 16 = y mod 16 \<and> c div 64 = z div 64" by (rule base_unique [OF c(5,6) z(5,6)])
  moreover have "c mod 64 = z mod 64" using b64_inj [OF c(11,12) z(11,12)] h(2) by (rule iffD1)
  ultimately show "b = y \<and> c = z" using byte_eq [OF assms(5)] byte_eq [of c 64 z] by simp
qed

lemma base64_Encode_inj:
  "length xs = length ys \<Longrightarrow> (\<And>x. x \<in> set xs \<Longrightarrow> is_byte x) \<Longrightarrow> (\<And>y. y \<in> set ys \<Longrightarrow> is_byte y) \<Longrightarrow>
   base64_Encode xs = base64_Encode ys \<Longrightarrow> xs = ys"
proof (induction xs arbitrary: ys rule: base64_Encode.induct)
  case (2 a)
  then obtain x where "ys = [x]" by (cases ys) auto
  then show ?case using 2 sextets_inj(1) [of a a x x] by simp
next
  case (3 a b)
  then obtain x y where "ys = [x, y]" by (cases ys; cases "tl ys") auto
  then show ?case using 3 sextets_inj(2) [of a b x y] sextets_inj_mid(1) [of b b y y] by simp
next
  case (4 a b c bs)
  then obtain x y z zs where ys: "ys = x # y # z # zs" "length bs = length zs"
    by (cases ys; cases "tl ys"; cases "tl (tl ys)") auto
  then have "bs = zs" using 4 by simp
  then show ?case using 4 ys sextets_inj(2) [of a b x y] sextets_inj_mid(2) [of b c y z] by simp
qed simp

lemma length_base64: "length (base64_Encode bs) = 4 * ((length bs + 2) div 3)"
proof (induction bs rule: base64_Encode.induct)
  case (4 a b c bs)
  have "(length bs + 5) div 3 = Suc ((length bs + 2) div 3)" by simp
  moreover have "length (a # b # c # bs) + 2 = length bs + 5" by simp
  moreover have "length (base64_Encode (a # b # c # bs)) = 4 + length (base64_Encode bs)" by simp
  ultimately show ?case using 4 by (simp only: mult_Suc_right)
qed simp_all

lemma agent_of_row_simps [simp]:
  "ag_ID (agent_of_row now r) = a_id r" "ag_Name (agent_of_row now r) = a_name r"
  "ag_Token (agent_of_row now r) = (case a_token r of None \<Rightarrow> [] | Some t \<Rightarrow> t)"
  "ag_Activity (agent_of_row now r) = a_activity r"
  "ag_Capabilities (agent_of_row now r) = scan_strs (a_capabilities r)"
  "ag_LastHeartbeat (agent_of_row now r) = parse_ts (a_last_heartbeat r)"
  "ag_RegisteredAt (agent_of_row now r) = parse_ts (a_registered_at r)"
  "ag_HiveLocalVersion (agent_of_row now r) = a_hive_local_version r"
  "ag_HivePluginVersion (agent_of_row now r) = a_hive_plugin_version r"
  by (simp_all add: agent_of_row_def finishAgentScan_def Let_def)

lemma agent_status:
  "ag_Status (agent_of_row now r) =
     (if instant now - instant (parse_ts (a_last_heartbeat r)) > offlineThreshold then AgentStatusOffline else a_status r)"
  by (auto simp: agent_of_row_def finishAgentScan_def Let_def time_sub_def offlineThreshold_def Minute_def Second_def)

text \<open>
  C26. A heartbeat, undisturbed, column by column.  The agent's row gets the reported status, activity,
  capabilities and versions, empty ones too, and the time of the heartbeat; a new agent is named after
  its identifier, is registered at that time and has no token and empty discovery columns; a known
  agent keeps its name, registration time, token and all four discovery columns; no other agent changes.
  The agent returned, and the agent anyone reads later, shows exactly that row, with the reported status
  for five minutes and as offline after that.  The clock of the heartbeat shows a year of four digits.
\<close>

theorem heartbeat_presence:
  assumes "quiet E" "quiet E'" "db_ok db" "utc_ok (in_UTC (sv_now E 0))"
  shows "\<exists>r shown db'. Heartbeat E i caps st act lv pv db = (Inr (shown (sv_now E 1)), db') \<and>
    GetAgent E' i db' = (Inr (shown (sv_now E' 0)), db') \<and>
    (\<forall>k. row_at agents_t k db' = (if k = i then Some r else row_at agents_t k db)) \<and>
    (let beat = format_RFC3339Nano (in_UTC (sv_now E 0)) in
     r = (case row_at agents_t i db of
       None \<Rightarrow> \<lparr>a_id = i, a_name = i, a_status = st, a_activity = act, a_capabilities = JArr (map JStr (elems caps)),
          a_last_heartbeat = beat, a_registered_at = beat, a_hive_local_version = lv, a_hive_plugin_version = pv,
          a_token = None, a_discord_user_id = [], a_home_channel = [], a_mention_format = [], a_channels = JArr []\<rparr>
     | Some r0 \<Rightarrow> \<lparr>a_id = i, a_name = a_name r0, a_status = st, a_activity = act,
          a_capabilities = JArr (map JStr (elems caps)), a_last_heartbeat = beat, a_registered_at = a_registered_at r0,
          a_hive_local_version = lv, a_hive_plugin_version = pv, a_token = a_token r0,
          a_discord_user_id = a_discord_user_id r0, a_home_channel = a_home_channel r0,
          a_mention_format = a_mention_format r0, a_channels = a_channels r0\<rparr>)) \<and>
    (\<forall>now. shown now = \<lparr>ag_ID = i, ag_Name = a_name r,
       ag_Status = (if instant now - instant (sv_now E 0) > 5 * Minute then ''offline'' else st), ag_Activity = act,
       ag_Capabilities = Some (elems caps), ag_LastHeartbeat = in_UTC (sv_now E 0),
       ag_RegisteredAt = parse_ts (a_registered_at r), ag_HiveLocalVersion = lv, ag_HivePluginVersion = pv,
       ag_Token = (case a_token r of None \<Rightarrow> [] | Some t \<Rightarrow> t)\<rparr>)"
proof -
  define new where "new = heartbeat_row i (strs_column caps) st act lv pv (in_UTC (sv_now E 0))"
  let ?db = "snd (sql_upsert agents_t new (heartbeat_set new) db)"
  define r where "r = (case row_at agents_t i db of None \<Rightarrow> new | Some r0 \<Rightarrow> heartbeat_set new r0)"
  have caps: "strs_column caps = JArr (map JStr (elems caps))"
    by (cases caps) (simp_all add: strs_column_def marshal_strs_def)
  have run: "Heartbeat E i caps st act lv pv db = (Inr (agent_of_row (sv_now E 1) r), ?db)"
    unfolding r_def by (rule Heartbeat_run [OF assms(1,3) new_def])
  have row: "row_at agents_t k ?db = (if k = i then Some r else row_at agents_t k db)" for k
    using agents.row_at_upsert [of new "heartbeat_set new" k db] by (simp add: new_def r_def)
  have "db_ok ?db" using assms(3) by (simp add: stmt_simps)
  then have get: "GetAgent E' i ?db = (Inr (agent_of_row (sv_now E' 0) r), ?db)"
    using GetAgent_run [OF assms(2), of ?db 0 i] row by simp
  have cols: "a_id r = i" "a_status r = st" "a_activity r = act" "a_capabilities r = strs_column caps"
    "a_hive_local_version r = lv" "a_hive_plugin_version r = pv"
    "parse_ts (a_last_heartbeat r) = in_UTC (sv_now E 0)"
    using assms(4) agents.row_atD [of i db]
    by (simp_all add: r_def new_def heartbeat_set_def heartbeat_row_def split: option.splits)
  have shown: "agent_of_row now r = \<lparr>ag_ID = i, ag_Name = a_name r,
       ag_Status = (if instant now - instant (sv_now E 0) > 5 * Minute then ''offline'' else st), ag_Activity = act,
       ag_Capabilities = Some (elems caps), ag_LastHeartbeat = in_UTC (sv_now E 0),
       ag_RegisteredAt = parse_ts (a_registered_at r), ag_HiveLocalVersion = lv, ag_HivePluginVersion = pv,
       ag_Token = (case a_token r of None \<Rightarrow> [] | Some t \<Rightarrow> t)\<rparr>" for now
    by (rule Agent.equality)
      (simp_all add: agent_status cols offlineThreshold_def in_UTC_def AgentStatusOffline_def)
  show ?thesis
    by (rule exI [of _ r], rule exI [of _ "\<lambda>now. agent_of_row now r"], rule exI [of _ ?db])
      (use run get row shown agents.row_atD [of i db] in
        \<open>auto simp: Let_def caps [symmetric] r_def new_def heartbeat_set_def heartbeat_row_def split: option.split\<close>)
qed

definition demo_agent :: agent_row where
  "demo_agent = (token_row ''ann'' ''old'' (demo_time 0))\<lparr>a_home_channel := ''hq''\<rparr>"

definition demo_agents :: database where
  "demo_agents = empty_db\<lparr>db_agents := [demo_agent]\<rparr>"

lemma demo_agents_facts:
  "db_ok demo_agents" "row_at agents_t ''ann'' demo_agents = Some demo_agent" "row_at agents_t ''bob'' demo_agents = None"
  by (simp_all add: db_ok_def table_ok_def notes_ok_def demo_agents_def empty_db_def demo_agent_def
      uniq_keys_def List.map_filter_simps row_at_def)

theorem heartbeat_presence_witness:
  "\<exists>a b db'. Heartbeat (quiet_senv (demo_time 0) []) ''ann'' None AgentStatusIdle ''tea'' [] [] demo_agents = (Inr a, db') \<and>
     GetAgent (quiet_senv (demo_time (6 * Minute)) []) ''ann'' db' = (Inr b, db') \<and> ag_Status b = ''offline'' \<and>
     map_option a_home_channel (row_at agents_t ''ann'' db') = Some ''hq''"
proof -
  have u: "utc_ok (in_UTC (sv_now (quiet_senv (demo_time 0) []) 0))" by (simp, code_simp)
  have d: "instant (demo_time (6 * Minute)) - instant (demo_time 0) > 5 * Minute"
    by (simp add: demo_time_def Minute_def Second_def)
  note spec = heartbeat_presence [where E' = "quiet_senv (demo_time (6 * Minute)) []" and i = "''ann''",
      OF quiet_senv_simps(2) quiet_senv_simps(2) demo_agents_facts(1) u, of None AgentStatusIdle "''tea''" "[]" "[]"]
  from spec show ?thesis
    apply (elim exE conjE)
    apply (intro exI conjI, assumption, assumption)
     apply (simp add: d)
    apply (simp add: Let_def demo_agents_facts(2) demo_agent_def)
    done
qed

text \<open>
  \<open>GenerateAgentToken\<close> undisturbed stores and returns the base64 text of the random bytes: 44
  characters that no other 32 bytes have.  An agent that had a token loses it; nothing else about the
  agent, and no other agent, changes.
\<close>

theorem generate_token_spec:
  assumes "quiet E" "db_ok db" "sv_random E = Inr bytes" "length bytes = 32" "\<And>b. b \<in> set bytes \<Longrightarrow> is_byte b"
  shows "\<exists>a db' r. GenerateAgentToken E i db = (Inr a, db') \<and> ag_ID a = i \<and> ag_Token a = base64_Encode bytes \<and>
    length (ag_Token a) = 44 \<and>
    (\<forall>bs. length bs = 32 \<and> (\<forall>b \<in> set bs. is_byte b) \<and> base64_Encode bs = ag_Token a \<longrightarrow> bs = bytes) \<and>
    row_at agents_t i db' = Some r \<and> a_token r = Some (ag_Token a) \<and>
    (\<forall>r0. row_at agents_t i db = Some r0 \<longrightarrow> r = r0\<lparr>a_token := Some (ag_Token a)\<rparr>) \<and>
    (\<forall>k. k \<noteq> i \<longrightarrow> row_at agents_t k db' = row_at agents_t k db)"
proof -
  define new where "new = token_row i (base64_Encode bytes) (in_UTC (sv_now E 0))"
  let ?db = "snd (sql_upsert agents_t new (token_set new) db)"
  define r where "r = (case row_at agents_t i db of None \<Rightarrow> new | Some r0 \<Rightarrow> token_set new r0)"
  note run = GenerateAgentToken_run [OF assms(1,2,3) new_def, folded r_def]
  have row: "row_at agents_t k ?db = (if k = i then Some r else row_at agents_t k db)" for k
    using agents.row_at_upsert [of new "token_set new" k db] by (simp add: new_def r_def)
  have r: "a_id r = i" "a_token r = Some (base64_Encode bytes)"
    "row_at agents_t i db = Some r0 \<Longrightarrow> r = r0\<lparr>a_token := Some (base64_Encode bytes)\<rparr>" for r0
    using agents.row_atD [of i db] by (auto simp: r_def new_def token_row_def token_set_def split: option.splits)
  have "length (base64_Encode bytes) = 44" by (simp add: length_base64 assms(4))
  moreover have "bs = bytes" if "length bs = 32" "\<forall>b \<in> set bs. is_byte b" "base64_Encode bs = base64_Encode bytes" for bs
    using base64_Encode_inj [of bs bytes] assms(4,5) that by simp
  ultimately show ?thesis
    by (intro exI [of _ "agent_of_row (sv_now E 1) r"] exI [of _ ?db] exI [of _ r]) (simp add: run row r)
qed

definition demo_token_senv :: senv where
  "demo_token_senv = (quiet_senv (demo_time 0) [])\<lparr>sv_random := Inr (replicate 32 7)\<rparr>"

theorem generate_token_spec_witness:
  "\<exists>a db'. GenerateAgentToken demo_token_senv ''ann'' demo_agents = (Inr a, db') \<and> length (ag_Token a) = 44 \<and>
     row_at agents_t ''ann'' db' = Some (demo_agent\<lparr>a_token := Some (ag_Token a)\<rparr>)"
proof -
  have q: "quiet demo_token_senv"
    by (simp add: demo_token_senv_def quiet_def quiet_senv_def calm_attempt_def calm_def calm_access_def)
  have "sv_random demo_token_senv = Inr (replicate 32 7)" by (simp add: demo_token_senv_def)
  from generate_token_spec [OF q demo_agents_facts(1) this, of "''ann''"]
  show ?thesis using demo_agents_facts(2) by (auto simp: is_byte_def)
qed

end
