(* ===== verification/DiscoveryStore.thy ===== *)
theory DiscoveryStore
  imports AgentStore
begin

text \<open>
  \<^verbatim>\<open>internal/store/discovery.go\<close>: the directory of channels and roles, and the discovery columns of the
  agents' table.
\<close>

section \<open>Channels\<close>

definition finishChannelScan :: "channel_row \<Rightarrow> DiscoveryChannel" where
  "finishChannelScan r = \<lparr>dc_ID = dch_id r, dc_Name = dch_name r, dc_DiscordID = dch_discord_id r,
     dc_Purpose = dch_purpose r, dc_Category = dch_category r, dc_Members = scan_strs (dch_members r),
     dc_CreatedAt = parse_ts (dch_created_at r), dc_UpdatedAt = parse_ts (dch_updated_at r)\<rparr>"

definition scanChannelRow :: "goerr + channel_row \<Rightarrow> goerr + DiscoveryChannel" where
  "scanChannelRow res = scan_row ''scan channel'' finishChannelScan res"

definition channel_insert_row :: "DiscoveryChannel \<Rightarrow> gotime \<Rightarrow> channel_row" where
  "channel_insert_row ch now = \<lparr>dch_id = dc_ID ch, dch_name = dc_Name ch, dch_discord_id = dc_DiscordID ch,
     dch_purpose = dc_Purpose ch, dch_category = dc_Category ch, dch_members = strs_column (dc_Members ch),
     dch_created_at = format_RFC3339Nano now, dch_updated_at = format_RFC3339Nano now\<rparr>"

definition channel_set :: "channel_row \<Rightarrow> channel_row \<Rightarrow> channel_row" where
  "channel_set new r = r\<lparr>dch_name := dch_name new, dch_discord_id := dch_discord_id new,
     dch_purpose := dch_purpose new, dch_category := dch_category new, dch_members := dch_members new,
     dch_updated_at := dch_updated_at new\<rparr>"

definition UpsertChannel_tx :: "channel_row \<Rightarrow> (database, unit) tx_fn" where
  "UpsertChannel_tx new A u = tx_exec (at_stmt A) (sql_upsert discovery_channels_t new (channel_set new))"

definition GetChannel :: "senv \<Rightarrow> string \<Rightarrow> database \<Rightarrow> (goerr + DiscoveryChannel) \<times> database" where
  "GetChannel E i db =
     (case query_row (sv_access E 0) (sql_select discovery_channels_t (\<lambda>r. dch_id r = i)) db of
        (res, db') \<Rightarrow> (scanChannelRow res, db'))"

definition UpsertChannel :: "senv \<Rightarrow> DiscoveryChannel \<Rightarrow> database \<Rightarrow> (goerr + DiscoveryChannel) \<times> database" where
  "UpsertChannel E ch db =
     (case RetryTx (sv_tx E) (UpsertChannel_tx (channel_insert_row ch (in_UTC (sv_now E 0)))) () db of
        (Inl e, db') \<Rightarrow> (Inl (Wrapped ''upsert channel'' e), db')
      | (Inr _, db') \<Rightarrow> GetChannel E (dc_ID ch) db')"

definition ListChannels :: "senv \<Rightarrow> database \<Rightarrow> (goerr + DiscoveryChannel list) \<times> database" where
  "ListChannels E db =
     (case query_rows ''list channels'' (sv_access E 0) (\<lambda>d. (Inr (order_asc dch_id (db_discovery_channels d)), d)) db of
       (Inl e, db') \<Rightarrow> (Inl e, db')
     | (Inr rows, db') \<Rightarrow> (Inr (map finishChannelScan rows), db'))"

text \<open>\<^verbatim>\<open>DeleteChannel\<close> and \<^verbatim>\<open>DeleteRole\<close> send their statement outside a transaction, without retry.\<close>

definition DeleteChannel :: "senv \<Rightarrow> string \<Rightarrow> database \<Rightarrow> (goerr + unit) \<times> database" where
  "DeleteChannel E i db =
     (case exec_direct (sv_access E 0) (sql_delete discovery_channels_t (\<lambda>r. dch_id r = i)) db of
        (Inl e, db') \<Rightarrow> (Inl (Wrapped ''delete channel'' e), db')
      | (Inr n, db') \<Rightarrow> (if n = 0 then Inl ErrNotFound else Inr (), db'))"

section \<open>Roles\<close>

definition finishRoleScan :: "role_row \<Rightarrow> DiscoveryRole" where
  "finishRoleScan r = \<lparr>dr_ID = dro_id r, dr_Name = dro_name r, dr_DiscordID = dro_discord_id r,
     dr_Members = scan_strs (dro_members r),
     dr_CreatedAt = parse_ts (dro_created_at r), dr_UpdatedAt = parse_ts (dro_updated_at r)\<rparr>"

definition scanRoleRow :: "goerr + role_row \<Rightarrow> goerr + DiscoveryRole" where
  "scanRoleRow res = scan_row ''scan role'' finishRoleScan res"

definition role_insert_row :: "DiscoveryRole \<Rightarrow> gotime \<Rightarrow> role_row" where
  "role_insert_row r now = \<lparr>dro_id = dr_ID r, dro_name = dr_Name r, dro_discord_id = dr_DiscordID r,
     dro_members = strs_column (dr_Members r),
     dro_created_at = format_RFC3339Nano now, dro_updated_at = format_RFC3339Nano now\<rparr>"

definition role_set :: "role_row \<Rightarrow> role_row \<Rightarrow> role_row" where
  "role_set new r = r\<lparr>dro_name := dro_name new, dro_discord_id := dro_discord_id new,
     dro_members := dro_members new, dro_updated_at := dro_updated_at new\<rparr>"

definition UpsertRole_tx :: "role_row \<Rightarrow> (database, unit) tx_fn" where
  "UpsertRole_tx new A u = tx_exec (at_stmt A) (sql_upsert discovery_roles_t new (role_set new))"

definition GetRole :: "senv \<Rightarrow> string \<Rightarrow> database \<Rightarrow> (goerr + DiscoveryRole) \<times> database" where
  "GetRole E i db =
     (case query_row (sv_access E 0) (sql_select discovery_roles_t (\<lambda>r. dro_id r = i)) db of
        (res, db') \<Rightarrow> (scanRoleRow res, db'))"

definition UpsertRole :: "senv \<Rightarrow> DiscoveryRole \<Rightarrow> database \<Rightarrow> (goerr + DiscoveryRole) \<times> database" where
  "UpsertRole E r db =
     (case RetryTx (sv_tx E) (UpsertRole_tx (role_insert_row r (in_UTC (sv_now E 0)))) () db of
        (Inl e, db') \<Rightarrow> (Inl (Wrapped ''upsert role'' e), db')
      | (Inr _, db') \<Rightarrow> GetRole E (dr_ID r) db')"

definition ListRoles :: "senv \<Rightarrow> database \<Rightarrow> (goerr + DiscoveryRole list) \<times> database" where
  "ListRoles E db =
     (case query_rows ''list roles'' (sv_access E 0) (\<lambda>d. (Inr (order_asc dro_id (db_discovery_roles d)), d)) db of
       (Inl e, db') \<Rightarrow> (Inl e, db')
     | (Inr rows, db') \<Rightarrow> (Inr (map finishRoleScan rows), db'))"

definition DeleteRole :: "senv \<Rightarrow> string \<Rightarrow> database \<Rightarrow> (goerr + unit) \<times> database" where
  "DeleteRole E i db =
     (case exec_direct (sv_access E 0) (sql_delete discovery_roles_t (\<lambda>r. dro_id r = i)) db of
        (Inl e, db') \<Rightarrow> (Inl (Wrapped ''delete role'' e), db')
      | (Inr n, db') \<Rightarrow> (if n = 0 then Inl ErrNotFound else Inr (), db'))"

section \<open>The discovery columns of agents\<close>

text \<open>The columns activity, versions and token are not selected and stay empty in the result.\<close>

definition discovery_agent_of_row :: "gotime \<Rightarrow> agent_row \<Rightarrow> DiscoveryAgent" where
  "discovery_agent_of_row now r = \<lparr>da_Agent = finishAgentScan now
       \<lparr>ag_ID = a_id r, ag_Name = a_name r, ag_Status = a_status r, ag_Activity = [],
        ag_Capabilities = None, ag_LastHeartbeat = zero_time, ag_RegisteredAt = zero_time,
        ag_HiveLocalVersion = [], ag_HivePluginVersion = [], ag_Token = []\<rparr>
       (a_capabilities r) (a_last_heartbeat r) (a_registered_at r),
     da_Meta = Some \<lparr>dm_DiscordUserID = a_discord_user_id r, dm_HomeChannel = a_home_channel r,
       dm_MentionFormat = a_mention_format r, dm_Channels = scan_strs (a_channels r)\<rparr>\<rparr>"

definition scanDiscoveryAgentRow :: "gotime \<Rightarrow> goerr + agent_row \<Rightarrow> goerr + DiscoveryAgent" where
  "scanDiscoveryAgentRow now res = scan_row ''scan discovery agent'' (discovery_agent_of_row now) res"

definition meta_set :: "DiscoveryAgentMeta \<Rightarrow> agent_row \<Rightarrow> agent_row" where
  "meta_set meta r = r\<lparr>a_discord_user_id := dm_DiscordUserID meta, a_home_channel := dm_HomeChannel meta,
     a_mention_format := dm_MentionFormat meta, a_channels := strs_column (dm_Channels meta)\<rparr>"

text \<open>The closure assigns \<^verbatim>\<open>rowsAffected\<close>; the caller tests it after the commit.\<close>

definition UpsertAgentMeta_tx :: "string \<Rightarrow> DiscoveryAgentMeta \<Rightarrow> (database, nat) tx_fn" where
  "UpsertAgentMeta_tx i meta A n =
     tx_exec (at_stmt A) (sql_update agents_t (\<lambda>r. a_id r = i) (meta_set meta))"

definition GetDiscoveryAgent :: "senv \<Rightarrow> string \<Rightarrow> database \<Rightarrow> (goerr + DiscoveryAgent) \<times> database" where
  "GetDiscoveryAgent E i db =
     (case query_row (sv_access E 0) (sql_select agents_t (\<lambda>r. a_id r = i)) db of
        (res, db') \<Rightarrow> (scanDiscoveryAgentRow (sv_now E 0) res, db'))"

definition UpsertAgentMeta ::
  "senv \<Rightarrow> string \<Rightarrow> DiscoveryAgentMeta \<Rightarrow> database \<Rightarrow> (goerr + DiscoveryAgent) \<times> database" where
  "UpsertAgentMeta E i meta db =
     (case RetryTx (sv_tx E) (UpsertAgentMeta_tx i meta) 0 db of
        (Inl e, db') \<Rightarrow> (Inl (Wrapped ''upsert agent meta'' e), db')
      | (Inr n, db') \<Rightarrow> if n = 0 then (Inl ErrNotFound, db') else GetDiscoveryAgent E i db')"

definition ListDiscoveryAgents :: "senv \<Rightarrow> database \<Rightarrow> (goerr + DiscoveryAgent list) \<times> database" where
  "ListDiscoveryAgents E db =
     (case query_rows ''list discovery agents'' (sv_access E 0) (\<lambda>d. (Inr (order_asc a_id (db_agents d)), d)) db of
       (Inl e, db') \<Rightarrow> (Inl e, db')
     | (Inr rows, db') \<Rightarrow> (Inr (map (\<lambda>(k, r). discovery_agent_of_row (sv_now E k) r) (enumerate 0 rows)), db'))"

section \<open>The database stays well-formed\<close>

lemma discovery_ids [simp]:
  "dch_id (channel_insert_row ch now) = dc_ID ch" "dch_id (channel_set cn c) = dch_id c"
  "dro_id (role_insert_row ro now) = dr_ID ro" "dro_id (role_set rn r) = dro_id r" "a_id (meta_set meta a) = a_id a"
  by (simp_all add: channel_insert_row_def channel_set_def role_insert_row_def role_set_def meta_set_def)

interpretation upsert_channel: tx_body "UpsertChannel_tx new" db_ok for new
  by (rule tx_bodyI, unfold UpsertChannel_tx_def, intro tx_pres) (simp_all add: stmt_simps)

interpretation upsert_role: tx_body "UpsertRole_tx new" db_ok for new
  by (rule tx_bodyI, unfold UpsertRole_tx_def, intro tx_pres) (simp_all add: stmt_simps)

interpretation upsert_meta: tx_body "UpsertAgentMeta_tx i meta" db_ok for i meta
  by (rule tx_bodyI, unfold UpsertAgentMeta_tx_def, intro tx_pres) (simp_all add: stmt_simps)

lemma discovery_reads_keep:
  assumes "others_keep I E" "I db"
  shows "I (snd (GetChannel E i db))" "I (snd (ListChannels E db))" "I (snd (GetRole E i db))" "I (snd (ListRoles E db))"
    and "I (snd (GetDiscoveryAgent E i db))" "I (snd (ListDiscoveryAgents E db))"
  using assms
  by (auto simp: GetChannel_def ListChannels_def GetRole_def ListRoles_def GetDiscoveryAgent_def ListDiscoveryAgents_def
      others_keepD [of I E] dest!: query_dbD split: prod.splits sum.splits)

lemma discovery_ops_db_ok:
  assumes "others_keep db_ok E" "db_ok db"
  shows "db_ok (snd (UpsertChannel E ch db))" "db_ok (snd (DeleteChannel E i db))"
    and "db_ok (snd (UpsertRole E ro db))" "db_ok (snd (DeleteRole E i db))"
    and "db_ok (snd (UpsertAgentMeta E i meta db))"
proof -
  have keep: "db_ok d \<Longrightarrow> db_ok (at_others (sv_tx E j) d)" for j d by (rule others_keepD [OF assms(1)])
  have ch: "db_ok d" if "RetryTx (sv_tx E) (UpsertChannel_tx new) () db = (r, d)" for new r d
    using upsert_channel.RetryTx_inv [of "sv_tx E" db new "()", OF keep assms(2)] that by simp
  show "db_ok (snd (UpsertChannel E ch db))"
    by (auto simp: UpsertChannel_def intro!: discovery_reads_keep [OF assms(1)] dest!: ch split: prod.splits sum.splits)
  have ro: "db_ok d" if "RetryTx (sv_tx E) (UpsertRole_tx new) () db = (r, d)" for new r d
    using upsert_role.RetryTx_inv [of "sv_tx E" db new "()", OF keep assms(2)] that by simp
  show "db_ok (snd (UpsertRole E ro db))"
    by (auto simp: UpsertRole_def intro!: discovery_reads_keep [OF assms(1)] dest!: ro split: prod.splits sum.splits)
  have me: "db_ok d" if "RetryTx (sv_tx E) (UpsertAgentMeta_tx i meta) 0 db = (r, d)" for r d
    using upsert_meta.RetryTx_inv [of "sv_tx E" db i meta 0, OF keep assms(2)] that by simp
  show "db_ok (snd (UpsertAgentMeta E i meta db))"
    by (auto simp: UpsertAgentMeta_def intro!: discovery_reads_keep [OF assms(1)] dest!: me split: prod.splits sum.splits)
  have direct: "db_ok (snd (exec_direct ac st d))" if "\<And>x. db_ok x \<Longrightarrow> db_ok (snd (st x))" "db_ok (ac_others ac d)"
    for ac and st :: "(database, nat) stmt" and d
    using that by (simp add: exec_direct_def Let_def split: commit_fate.splits)
  have ac: "db_ok (ac_others (sv_access E 0) db)" by (rule others_keepD(2) [OF assms])
  have "db_ok (snd (exec_direct (sv_access E 0) (sql_delete discovery_channels_t (\<lambda>r. dch_id r = i)) db))"
    by (rule direct) (simp_all add: stmt_simps ac)
  then show "db_ok (snd (DeleteChannel E i db))" by (auto simp: DeleteChannel_def split: prod.splits sum.splits)
  have "db_ok (snd (exec_direct (sv_access E 0) (sql_delete discovery_roles_t (\<lambda>r. dro_id r = i)) db))"
    by (rule direct) (simp_all add: stmt_simps ac)
  then show "db_ok (snd (DeleteRole E i db))" by (auto simp: DeleteRole_def split: prod.splits sum.splits)
qed

section \<open>How the operations run undisturbed\<close>

lemma select_directory_row:
  "db_ok db \<Longrightarrow> filter (\<lambda>r. dch_id r = i) (db_discovery_channels db) =
     (case row_at discovery_channels_t i db of None \<Rightarrow> [] | Some r \<Rightarrow> [r])"
  "db_ok db \<Longrightarrow> filter (\<lambda>r. dro_id r = i) (db_discovery_roles db) =
     (case row_at discovery_roles_t i db of None \<Rightarrow> [] | Some q \<Rightarrow> [q])"
  using discovery_channels.select_row_at [of db i] discovery_roles.select_row_at [of db i] by (simp_all add: db_ok_def)

lemma directory_get_run:
  "quiet E \<Longrightarrow> db_ok db \<Longrightarrow> GetChannel E i db =
     ((case row_at discovery_channels_t i db of None \<Rightarrow> Inl ErrNotFound | Some r \<Rightarrow> Inr (finishChannelScan r)), db)"
  "quiet E \<Longrightarrow> db_ok db \<Longrightarrow> GetRole E i db =
     ((case row_at discovery_roles_t i db of None \<Rightarrow> Inl ErrNotFound | Some q \<Rightarrow> Inr (finishRoleScan q)), db)"
  "quiet E \<Longrightarrow> db_ok db \<Longrightarrow> GetDiscoveryAgent E i db =
     ((case row_at agents_t i db of None \<Rightarrow> Inl ErrNotFound | Some a \<Rightarrow> Inr (discovery_agent_of_row (sv_now E 0) a)), db)"
  by (cases "row_at discovery_channels_t i db"; cases "row_at discovery_roles_t i db"; cases "row_at agents_t i db";
      simp add: GetChannel_def GetRole_def GetDiscoveryAgent_def select_directory_row select_agent_row first_row_def
        scanChannelRow_def scanRoleRow_def scanDiscoveryAgentRow_def scan_row_def)+

lemma UpsertChannel_run:
  assumes "quiet E" "db_ok db" and new: "new = channel_insert_row ch (in_UTC (sv_now E 0))"
  shows "UpsertChannel E ch db =
    (Inr (finishChannelScan (case row_at discovery_channels_t (dc_ID ch) db of None \<Rightarrow> new | Some r \<Rightarrow> channel_set new r)),
     snd (sql_upsert discovery_channels_t new (channel_set new) db))"
proof -
  let ?db = "snd (sql_upsert discovery_channels_t new (channel_set new) db)"
  have run: "RetryTx (sv_tx E) (UpsertChannel_tx new) () db = (Inr (), ?db)"
    using assms(1) by (intro RetryTx_upsert) (simp_all add: UpsertChannel_tx_def)
  have "db_ok ?db" using assms(2) by (simp add: stmt_simps)
  moreover have "row_at discovery_channels_t (dc_ID ch) ?db =
      Some (case row_at discovery_channels_t (dc_ID ch) db of None \<Rightarrow> new | Some r \<Rightarrow> channel_set new r)"
    using discovery_channels.row_at_upsert [of new "channel_set new" "dc_ID ch" db] by (simp add: new)
  ultimately show ?thesis
    using directory_get_run(1) [OF assms(1), of ?db "dc_ID ch"] run unfolding UpsertChannel_def new by simp
qed

lemma UpsertRole_run:
  assumes "quiet E" "db_ok db" and new: "new = role_insert_row ro (in_UTC (sv_now E 0))"
  shows "UpsertRole E ro db =
    (Inr (finishRoleScan (case row_at discovery_roles_t (dr_ID ro) db of None \<Rightarrow> new | Some r \<Rightarrow> role_set new r)),
     snd (sql_upsert discovery_roles_t new (role_set new) db))"
proof -
  let ?db = "snd (sql_upsert discovery_roles_t new (role_set new) db)"
  have run: "RetryTx (sv_tx E) (UpsertRole_tx new) () db = (Inr (), ?db)"
    using assms(1) by (intro RetryTx_upsert) (simp_all add: UpsertRole_tx_def)
  have "db_ok ?db" using assms(2) by (simp add: stmt_simps)
  moreover have "row_at discovery_roles_t (dr_ID ro) ?db =
      Some (case row_at discovery_roles_t (dr_ID ro) db of None \<Rightarrow> new | Some r \<Rightarrow> role_set new r)"
    using discovery_roles.row_at_upsert [of new "role_set new" "dr_ID ro" db] by (simp add: new)
  ultimately show ?thesis
    using directory_get_run(2) [OF assms(1), of ?db "dr_ID ro"] run unfolding UpsertRole_def new by simp
qed

lemma DeleteChannel_run:
  assumes "quiet E" "db_ok db"
  shows "DeleteChannel E i db = (if row_at discovery_channels_t i db = None then (Inl ErrNotFound, db)
    else (Inr (), snd (sql_delete discovery_channels_t (\<lambda>r. dch_id r = i) db)))"
proof (cases "row_at discovery_channels_t i db")
  case None
  then have "filter (\<lambda>r. dch_id r \<noteq> i) (db_discovery_channels db) = db_discovery_channels db"
    using discovery_channels.row_at_None [of i db] by (intro filter_id_conv') auto
  then show ?thesis
    using None assms select_directory_row(1) [OF assms(2), of i] by (simp add: DeleteChannel_def sql_delete_def)
next
  case (Some r)
  then show ?thesis
    using assms select_directory_row(1) [OF assms(2), of i] by (simp add: DeleteChannel_def sql_delete_def)
qed

section \<open>What the directory promises\<close>

text \<open>
  Channels, undisturbed.  \<open>UpsertChannel\<close> stores what was given (nil members as none), stamps it, keeps
  the creation time of a channel that was there, and returns what \<open>GetChannel\<close> reads afterwards; doing it
  again with the same clock changes nothing more.  \<open>DeleteChannel\<close> then removes exactly it, and says not
  found when there is nothing to remove.
\<close>

theorem channel_directory:
  assumes "quiet E" "quiet E'" "db_ok db" "utc_ok (in_UTC (sv_now E 0))"
  shows "\<exists>c db'. UpsertChannel E ch db = (Inr c, db') \<and>
    c = ch\<lparr>dc_Members := Some (elems (dc_Members ch)), dc_UpdatedAt := in_UTC (sv_now E 0),
      dc_CreatedAt := (case row_at discovery_channels_t (dc_ID ch) db of
        None \<Rightarrow> in_UTC (sv_now E 0) | Some r \<Rightarrow> parse_ts (dch_created_at r))\<rparr> \<and>
    GetChannel E' (dc_ID ch) db' = (Inr c, db') \<and> UpsertChannel E ch db' = (Inr c, db') \<and>
    (\<forall>k. k \<noteq> dc_ID ch \<longrightarrow> row_at discovery_channels_t k db' = row_at discovery_channels_t k db) \<and>
    (\<exists>db2. DeleteChannel E' (dc_ID ch) db' = (Inr (), db2) \<and> GetChannel E' (dc_ID ch) db2 = (Inl ErrNotFound, db2) \<and>
       DeleteChannel E' (dc_ID ch) db2 = (Inl ErrNotFound, db2) \<and>
       (\<forall>k. k \<noteq> dc_ID ch \<longrightarrow> row_at discovery_channels_t k db2 = row_at discovery_channels_t k db))"
proof -
  define new where "new = channel_insert_row ch (in_UTC (sv_now E 0))"
  define r where "r = (case row_at discovery_channels_t (dc_ID ch) db of None \<Rightarrow> new | Some r \<Rightarrow> channel_set new r)"
  let ?i = "dc_ID ch"
  let ?db = "snd (sql_upsert discovery_channels_t new (channel_set new) db)"
  let ?db2 = "snd (sql_delete discovery_channels_t (\<lambda>r. dch_id r = ?i) ?db)"
  have run: "UpsertChannel E ch d = (Inr (finishChannelScan (case row_at discovery_channels_t ?i d of None \<Rightarrow> new | Some r \<Rightarrow> channel_set new r)),
      snd (sql_upsert discovery_channels_t new (channel_set new) d))" if "db_ok d" for d
    by (rule UpsertChannel_run [OF assms(1) that new_def])
  have row: "row_at discovery_channels_t k ?db = (if k = ?i then Some r else row_at discovery_channels_t k db)" for k
    using discovery_channels.row_at_upsert [of new "channel_set new" k db] by (simp add: new_def r_def)
  have row2: "row_at discovery_channels_t k ?db2 = (if k = ?i then None else row_at discovery_channels_t k db)" for k
    using discovery_channels.row_at_delete_key [of k ?i ?db] row by simp
  have ok: "db_ok ?db" "db_ok ?db2" using assms(3) by (simp_all add: stmt_simps)
  have idem: "channel_set new r = r" by (simp add: r_def new_def channel_set_def channel_insert_row_def split: option.splits)
  have c: "finishChannelScan r = ch\<lparr>dc_Members := Some (elems (dc_Members ch)), dc_UpdatedAt := in_UTC (sv_now E 0),
      dc_CreatedAt := (case row_at discovery_channels_t ?i db of
        None \<Rightarrow> in_UTC (sv_now E 0) | Some r \<Rightarrow> parse_ts (dch_created_at r))\<rparr>"
    using assms(4) discovery_channels.row_atD [of ?i db]
    by (cases ch; cases "row_at discovery_channels_t ?i db")
      (simp_all add: r_def new_def finishChannelScan_def channel_insert_row_def channel_set_def)
  have again: "snd (sql_upsert discovery_channels_t new (channel_set new) ?db) = ?db"
  proof -
    have "?i \<in> dch_id ` set (db_discovery_channels ?db)"
      using row [of ?i] discovery_channels.row_at_None [of ?i ?db] by fastforce
    then have up: "snd (sql_upsert discovery_channels_t new (channel_set new) ?db) =
        snd (sql_update discovery_channels_t (\<lambda>x. dch_id x = ?i) (channel_set new) ?db)"
      by (simp add: snd_upsert new_def)
    have "channel_set new x = x" if "x \<in> set (db_discovery_channels ?db)" "dch_id x = ?i" for x
      using discovery_channels.row_at_mem [of ?db x] ok(1) that row [of ?i] idem by (simp add: db_ok_def)
    then have "map (\<lambda>x. if dch_id x = ?i then channel_set new x else x) (db_discovery_channels ?db) = db_discovery_channels ?db"
      by (intro map_idI) simp
    then show ?thesis unfolding up by (simp add: sql_update_def)
  qed
  have up: "UpsertChannel E ch db = (Inr (finishChannelScan r), ?db)" using run [OF assms(3)] by (simp add: r_def)
  have up2: "UpsertChannel E ch ?db = (Inr (finishChannelScan r), ?db)"
    using run [OF ok(1)] row [of ?i] again idem by simp
  have get: "GetChannel E' ?i ?db = (Inr (finishChannelScan r), ?db)"
    using directory_get_run(1) [OF assms(2) ok(1), of ?i] row [of ?i] by simp
  have del: "DeleteChannel E' ?i ?db = (Inr (), ?db2)" using DeleteChannel_run [OF assms(2) ok(1), of ?i] row [of ?i] by simp
  have gone: "GetChannel E' ?i ?db2 = (Inl ErrNotFound, ?db2)" "DeleteChannel E' ?i ?db2 = (Inl ErrNotFound, ?db2)"
    using directory_get_run(1) [OF assms(2) ok(2), of ?i] DeleteChannel_run [OF assms(2) ok(2), of ?i] row2 [of ?i] by simp_all
  have others: "\<forall>k. k \<noteq> ?i \<longrightarrow> row_at discovery_channels_t k ?db = row_at discovery_channels_t k db"
    "\<forall>k. k \<noteq> ?i \<longrightarrow> row_at discovery_channels_t k ?db2 = row_at discovery_channels_t k db"
    using row row2 by simp_all
  show ?thesis
    by (rule exI, rule exI, intro conjI, rule up, rule c, rule get, rule up2, rule others(1),
      rule exI, intro conjI, rule del, rule gone(1), rule gone(2), rule others(2))
qed

definition demo_channel :: DiscoveryChannel where
  "demo_channel = \<lparr>dc_ID = ''ops'', dc_Name = ''Ops'', dc_DiscordID = ''1'', dc_Purpose = [], dc_Category = [],
     dc_Members = None, dc_CreatedAt = zero_time, dc_UpdatedAt = zero_time\<rparr>"

theorem channel_directory_witness:
  "\<exists>c db'. UpsertChannel (quiet_senv (demo_time 0) []) demo_channel demo_agents = (Inr c, db') \<and>
     dc_Members c = Some [] \<and> GetChannel (quiet_senv (demo_time 1) []) ''ops'' db' = (Inr c, db')"
proof -
  have u: "utc_ok (in_UTC (sv_now (quiet_senv (demo_time 0) []) 0))" by (simp, code_simp)
  have i: "dc_ID demo_channel = ''ops''" "dc_Members demo_channel = None" by (simp_all add: demo_channel_def)
  from channel_directory [where E' = "quiet_senv (demo_time 1) []" and ch = demo_channel,
      OF quiet_senv_simps(2) quiet_senv_simps(2) demo_agents_facts(1) u]
  show ?thesis unfolding i by (elim exE conjE) (intro exI conjI, assumption, simp_all)
qed

text \<open>
  \<open>UpsertAgentMeta\<close> undisturbed: not found for an agent that never reported, without effect.  Else
  the four discovery columns are replaced, presence, registration and token stay, and the view of the
  agent that is returned has the new metadata and no token.
\<close>

theorem agent_meta_spec:
  assumes "quiet E" "db_ok db"
  shows "case row_at agents_t i db of None \<Rightarrow> UpsertAgentMeta E i meta db = (Inl ErrNotFound, db)
    | Some r \<Rightarrow> (\<exists>d db'. UpsertAgentMeta E i meta db = (Inr d, db') \<and>
        da_Meta d = Some (meta\<lparr>dm_Channels := Some (elems (dm_Channels meta))\<rparr>) \<and>
        ag_Token (da_Agent d) = [] \<and> ag_Status (da_Agent d) = ag_Status (agent_of_row (sv_now E 0) r) \<and>
        (\<exists>r'. row_at agents_t i db' = Some r' \<and> a_token r' = a_token r \<and> (\<forall>now. agent_of_row now r' = agent_of_row now r)) \<and>
        (\<forall>k. k \<noteq> i \<longrightarrow> row_at agents_t k db' = row_at agents_t k db))"
proof -
  have A: "calm (sv_tx E 0)" using assms(1) by simp
  let ?db = "snd (sql_update agents_t (\<lambda>r. a_id r = i) (meta_set meta) db)"
  let ?n = "length (filter (\<lambda>r. a_id r = i) (db_agents db))"
  have "UpsertAgentMeta_tx i meta (sv_tx E 0) 0 (begin_tx db) = (Inr ?n, (begin_tx db)\<lparr>tx_db := ?db, tx_count := 1\<rparr>)"
    using A by (simp add: UpsertAgentMeta_tx_def tx_exec_calm sql_update_def)
  then have run: "RetryTx (sv_tx E) (UpsertAgentMeta_tx i meta) 0 db = (Inr ?n, ?db)"
    using RetryTx_commit [of "sv_tx E" "UpsertAgentMeta_tx i meta", OF A] by simp
  show ?thesis
  proof (cases "row_at agents_t i db")
    case None
    then have "?n = 0" using select_agent_row [OF assms(2), of i] by simp
    moreover have "?db = db"
    proof -
      have "map (\<lambda>r. if a_id r = i then meta_set meta r else r) (db_agents db) = db_agents db"
        using None agents.row_at_None [of i db] by (intro map_idI) auto
      then show ?thesis by (simp add: sql_update_def)
    qed
    ultimately show ?thesis using run None by (simp add: UpsertAgentMeta_def)
  next
    case (Some r)
    have row: "row_at agents_t k ?db = (if k = i then Some (meta_set meta r) else row_at agents_t k db)" for k
      using agents.row_at_update_key [of "meta_set meta" k i db] Some by simp
    have "?n = 1" using Some select_agent_row [OF assms(2), of i] by simp
    moreover have "db_ok ?db" using assms(2) by (simp add: stmt_simps)
    ultimately have up: "UpsertAgentMeta E i meta db = (Inr (discovery_agent_of_row (sv_now E 0) (meta_set meta r)), ?db)"
      using run directory_get_run(3) [OF assms(1), of ?db i] row [of i] by (simp add: UpsertAgentMeta_def)
    have same: "agent_of_row t (meta_set meta r) = agent_of_row t r" "a_token (meta_set meta r) = a_token r" for t
      by (simp_all add: agent_of_row_def meta_set_def)
    have view: "da_Meta (discovery_agent_of_row t (meta_set meta r)) = Some (meta\<lparr>dm_Channels := Some (elems (dm_Channels meta))\<rparr>)"
      "ag_Token (da_Agent (discovery_agent_of_row t (meta_set meta r))) = []"
      "ag_Status (da_Agent (discovery_agent_of_row t (meta_set meta r))) = ag_Status (agent_of_row t r)" for t
      by (cases meta, simp add: discovery_agent_of_row_def meta_set_def)
        (simp_all add: discovery_agent_of_row_def meta_set_def agent_of_row_def finishAgentScan_def Let_def)
    show ?thesis unfolding Some option.case using up same view row
      by (intro exI [of _ "discovery_agent_of_row (sv_now E 0) (meta_set meta r)"] exI [of _ ?db]) simp
  qed
qed

theorem agent_meta_spec_witness:
  "fst (UpsertAgentMeta (quiet_senv (demo_time 0) []) ''bob'' \<lparr>dm_DiscordUserID = ''7'', dm_HomeChannel = [], dm_MentionFormat = [],
      dm_Channels = None\<rparr> demo_agents) = Inl ErrNotFound \<and>
   (\<exists>d db'. UpsertAgentMeta (quiet_senv (demo_time 0) []) ''ann'' \<lparr>dm_DiscordUserID = ''7'', dm_HomeChannel = [],
      dm_MentionFormat = [], dm_Channels = None\<rparr> demo_agents = (Inr d, db') \<and> ag_Token (da_Agent d) = [])"
  using agent_meta_spec [OF quiet_senv_simps(2) demo_agents_facts(1), of "demo_time 0" "[]" "''bob''"
      "\<lparr>dm_DiscordUserID = ''7'', dm_HomeChannel = [], dm_MentionFormat = [], dm_Channels = None\<rparr>", unfolded demo_agents_facts(3) option.case]
    agent_meta_spec [OF quiet_senv_simps(2) demo_agents_facts(1), of "demo_time 0" "[]" "''ann''"
      "\<lparr>dm_DiscordUserID = ''7'', dm_HomeChannel = [], dm_MentionFormat = [], dm_Channels = None\<rparr>", unfolded demo_agents_facts(2) option.case]
  by auto

end
