(* ===== verification/SessionStore.thy ===== *)
theory SessionStore
  imports Access SqlLike
begin

text \<open>
  \<^verbatim>\<open>internal/store/sessions.go\<close> with the JSON of \<^verbatim>\<open>internal/model/capture.go\<close>: recorded sessions, kept as
  one row with JSONB columns for paths, turns, tool calls, metadata and usage.  Members are found by
  the exact name \<^verbatim>\<open>encoding/json\<close> wrote them under.
\<close>

section \<open>Encoding\<close>

text \<open>Fields with \<^verbatim>\<open>omitempty\<close>.\<close>

definition omit_str :: "string \<Rightarrow> string \<Rightarrow> (string \<times> json) list" where
  "omit_str k s = (if s = [] then [] else [(k, JStr s)])"

definition omit_num :: "string \<Rightarrow> rat \<Rightarrow> (string \<times> json) list" where
  "omit_num k q = (if q = 0 then [] else [(k, JNum q)])"

text \<open>\<^verbatim>\<open>time.Time.MarshalJSON\<close> fails outside the years 0 to 9999 and for a zone of a day or more.\<close>

definition marshal_time :: "gotime \<Rightarrow> json option" where
  "marshal_time t = (if in_years t \<and> \<bar>zone t\<bar> < 86400 then Some (JStr (format_RFC3339Nano t)) else None)"

definition omit_time :: "string \<Rightarrow> gotime option \<Rightarrow> (string \<times> json) list option" where
  "omit_time k t = (case t of None \<Rightarrow> Some [] | Some t \<Rightarrow> map_option (\<lambda>j. [(k, j)]) (marshal_time t))"

definition marshal_usage :: "CapturedUsage \<Rightarrow> json" where
  "marshal_usage u = JObj (omit_num ''input_tokens'' (of_int (us_InputTokens u)) @
     omit_num ''output_tokens'' (of_int (us_OutputTokens u)) @
     omit_num ''cache_read_tokens'' (of_int (us_CacheReadTokens u)) @
     omit_num ''cache_write_tokens'' (of_int (us_CacheWriteTokens u)) @
     omit_num ''total_tokens'' (of_int (us_TotalTokens u)) @
     omit_num ''estimated_cost_usd'' (us_EstimatedCostUSD u))"

definition marshal_turn :: "CapturedTurn \<Rightarrow> json option" where
  "marshal_turn t = map_option (\<lambda>ts. JObj ([(''role'', JStr (tn_Role t)), (''content'', JStr (tn_Content t))] @ ts @
     (case tn_Usage t of None \<Rightarrow> [] | Some u \<Rightarrow> [(''usage'', marshal_usage u)]) @ omit_str ''model'' (tn_Model t)))
     (omit_time ''timestamp'' (tn_Timestamp t))"

definition marshal_toolcall :: "CapturedToolCall \<Rightarrow> json option" where
  "marshal_toolcall c = map_option (\<lambda>ts. JObj ([(''tool'', JStr (tc_Tool c))] @ omit_str ''input'' (tc_Input c) @
     omit_str ''output'' (tc_Output c) @ ts)) (omit_time ''timestamp'' (tc_Timestamp c))"

definition marshal_slice :: "('a \<Rightarrow> json option) \<Rightarrow> 'a slice \<Rightarrow> json option" where
  "marshal_slice f xs = (case xs of None \<Rightarrow> Some JNull | Some ys \<Rightarrow> map_option JArr (all_some (map f ys)))"

definition marshal_any_map :: "(string \<times> json) list option \<Rightarrow> json" where
  "marshal_any_map m = (case m of None \<Rightarrow> JNull | Some kvs \<Rightarrow> JObj kvs)"

section \<open>Decoding\<close>

text \<open>A missing member and a null leave the zero value; another kind of value is an error.\<close>

definition get_time :: "string \<Rightarrow> (string \<times> json) list \<Rightarrow> gotime option option" where
  "get_time k kvs = (case map_of kvs k of None \<Rightarrow> Some None | Some JNull \<Rightarrow> Some None
     | Some (JStr s) \<Rightarrow> map_option Some (parse_RFC3339 s) | Some _ \<Rightarrow> None)"

definition zero_usage :: CapturedUsage where
  "zero_usage = \<lparr>us_InputTokens = 0, us_OutputTokens = 0, us_CacheReadTokens = 0, us_CacheWriteTokens = 0,
     us_TotalTokens = 0, us_EstimatedCostUSD = 0\<rparr>"

fun unmarshal_usage :: "json \<Rightarrow> CapturedUsage option" where
  "unmarshal_usage JNull = Some zero_usage"
| "unmarshal_usage (JObj kvs) =
     (case (get_int ''input_tokens'' kvs, get_int ''output_tokens'' kvs, get_int ''cache_read_tokens'' kvs,
        get_int ''cache_write_tokens'' kvs, get_int ''total_tokens'' kvs, get_num ''estimated_cost_usd'' kvs) of
        (Some a, Some b, Some c, Some d, Some e, Some f) \<Rightarrow>
          Some \<lparr>us_InputTokens = a, us_OutputTokens = b, us_CacheReadTokens = c, us_CacheWriteTokens = d,
            us_TotalTokens = e, us_EstimatedCostUSD = f\<rparr>
      | _ \<Rightarrow> None)"
| "unmarshal_usage _ = None"

definition get_usage :: "(string \<times> json) list \<Rightarrow> CapturedUsage option option" where
  "get_usage kvs = (case map_of kvs ''usage'' of None \<Rightarrow> Some None | Some JNull \<Rightarrow> Some None
     | Some j \<Rightarrow> map_option Some (unmarshal_usage j))"

fun unmarshal_turn :: "json \<Rightarrow> CapturedTurn option" where
  "unmarshal_turn JNull = Some \<lparr>tn_Role = [], tn_Content = [], tn_Timestamp = None, tn_Usage = None, tn_Model = []\<rparr>"
| "unmarshal_turn (JObj kvs) =
     (case (get_str ''role'' kvs, get_str ''content'' kvs, get_time ''timestamp'' kvs, get_usage kvs, get_str ''model'' kvs) of
        (Some a, Some b, Some c, Some d, Some e) \<Rightarrow>
          Some \<lparr>tn_Role = a, tn_Content = b, tn_Timestamp = c, tn_Usage = d, tn_Model = e\<rparr>
      | _ \<Rightarrow> None)"
| "unmarshal_turn _ = None"

fun unmarshal_toolcall :: "json \<Rightarrow> CapturedToolCall option" where
  "unmarshal_toolcall JNull = Some \<lparr>tc_Tool = [], tc_Input = [], tc_Output = [], tc_Timestamp = None\<rparr>"
| "unmarshal_toolcall (JObj kvs) =
     (case (get_str ''tool'' kvs, get_str ''input'' kvs, get_str ''output'' kvs, get_time ''timestamp'' kvs) of
        (Some a, Some b, Some c, Some d) \<Rightarrow> Some \<lparr>tc_Tool = a, tc_Input = b, tc_Output = c, tc_Timestamp = d\<rparr>
      | _ \<Rightarrow> None)"
| "unmarshal_toolcall _ = None"

fun unmarshal_slice :: "(json \<Rightarrow> 'a option) \<Rightarrow> json \<Rightarrow> 'a slice option" where
  "unmarshal_slice f JNull = Some None"
| "unmarshal_slice f (JArr js) = map_option Some (all_some (map f js))"
| "unmarshal_slice f _ = None"

fun unmarshal_any_map :: "json \<Rightarrow> (string \<times> json) list option option" where
  "unmarshal_any_map JNull = Some None"
| "unmarshal_any_map (JObj kvs) = Some (Some kvs)"
| "unmarshal_any_map _ = None"

section \<open>The code\<close>

definition or_nil :: "'a option option \<Rightarrow> 'a option" where
  "or_nil x = (case x of Some y \<Rightarrow> y | None \<Rightarrow> None)"

definition finishCapturedSessionScan :: "session_row \<Rightarrow> CapturedSession" where
  "finishCapturedSessionScan r = \<lparr>cs_ID = s_id r, cs_AgentID = s_agent_id r, cs_SessionKey = s_session_key r,
     cs_SessionID = s_session_id r, cs_Channel = s_channel r, cs_SenderID = s_sender_id r, cs_Model = s_model r,
     cs_Provider = s_provider r, cs_StartedAt = parse_RFC3339 (s_started_at r),
     cs_FinishedAt = parse_RFC3339 (s_finished_at r), cs_Usage = unmarshal_usage (s_usage r), cs_Repo = s_repo r,
     cs_Paths = or_nil (unmarshal_strs (s_paths r)), cs_Summary = s_summary r,
     cs_Turns = or_nil (unmarshal_slice unmarshal_turn (s_turns r)),
     cs_ToolCalls = or_nil (unmarshal_slice unmarshal_toolcall (s_tool_calls r)),
     cs_Metadata = or_nil (unmarshal_any_map (s_metadata r)), cs_ParentSessionID = s_parent_session_id r,
     cs_CreatedAt = parse_ts (s_created_at r)\<rparr>"

definition session_insert_row :: "CapturedSession \<Rightarrow> json \<Rightarrow> json \<Rightarrow> gotime \<Rightarrow> session_row" where
  "session_insert_row cs turnsJSON toolsJSON now = \<lparr>s_id = cs_ID cs, s_agent_id = cs_AgentID cs,
     s_session_key = cs_SessionKey cs, s_session_id = cs_SessionID cs, s_channel = cs_Channel cs,
     s_sender_id = cs_SenderID cs, s_model = cs_Model cs, s_provider = cs_Provider cs,
     s_started_at = (case cs_StartedAt cs of None \<Rightarrow> [] | Some t \<Rightarrow> format_RFC3339Nano t),
     s_finished_at = (case cs_FinishedAt cs of None \<Rightarrow> [] | Some t \<Rightarrow> format_RFC3339Nano t),
     s_repo = cs_Repo cs, s_paths = marshal_strs (cs_Paths cs), s_summary = cs_Summary cs, s_turns = turnsJSON,
     s_tool_calls = toolsJSON, s_metadata = marshal_any_map (cs_Metadata cs),
     s_parent_session_id = cs_ParentSessionID cs,
     s_usage = (case cs_Usage cs of None \<Rightarrow> JObj [] | Some u \<Rightarrow> marshal_usage u),
     s_created_at = format_RFC3339Nano now\<rparr>"

definition CreateCapturedSession_tx :: "session_row \<Rightarrow> (database, unit) tx_fn" where
  "CreateCapturedSession_tx r A u = tx_exec (at_stmt A) (sql_insert captured_sessions_t r)"

definition json_error :: goerr where
  "json_error = ErrText ''json: unsupported value''"

definition CreateCapturedSession ::
  "senv \<Rightarrow> CapturedSession \<Rightarrow> database \<Rightarrow> (goerr + CapturedSession) \<times> database" where
  "CreateCapturedSession E cs0 db =
     (let now = in_UTC (sv_now E 0); cs = cs0\<lparr>cs_ID := sv_uuid E, cs_CreatedAt := now\<rparr> in
      case marshal_slice marshal_turn (cs_Turns cs) of
        None \<Rightarrow> (Inl (Wrapped ''marshal turns'' json_error), db)
      | Some turnsJSON \<Rightarrow>
          (case marshal_slice marshal_toolcall (cs_ToolCalls cs) of
             None \<Rightarrow> (Inl (Wrapped ''marshal tool_calls'' json_error), db)
           | Some toolsJSON \<Rightarrow>
               (case RetryTx (sv_tx E) (CreateCapturedSession_tx (session_insert_row cs turnsJSON toolsJSON now)) () db of
                  (Inl e, db') \<Rightarrow> (Inl (Wrapped ''insert captured_session'' e), db')
                | (Inr _, db') \<Rightarrow> (Inr cs, db'))))"

definition scanCapturedSession :: "goerr + session_row \<Rightarrow> goerr + CapturedSession" where
  "scanCapturedSession res = (case res of Inl e \<Rightarrow> Inl e | Inr r \<Rightarrow> Inr (finishCapturedSessionScan r))"

definition GetCapturedSession :: "senv \<Rightarrow> string \<Rightarrow> database \<Rightarrow> (goerr + CapturedSession) \<times> database" where
  "GetCapturedSession E i db =
     (case query_row (sv_access E 0) (sql_select captured_sessions_t (\<lambda>r. s_id r = i)) db of
        (res, db') \<Rightarrow> ((case scanCapturedSession res of
            Inl e \<Rightarrow> if e = ErrNoRows then Inl ErrNotFound else Inl e
          | Inr cs \<Rightarrow> Inr cs), db'))"

text \<open>\<open>jsonb_text\<close> is the database's \<^verbatim>\<open>::text\<close> of a JSONB value.\<close>

definition session_matches :: "(json \<Rightarrow> string) \<Rightarrow> SessionFilter \<Rightarrow> session_row \<Rightarrow> bool" where
  "session_matches jsonb_text f r \<longleftrightarrow>
     (sf_AgentID f \<noteq> [] \<longrightarrow> s_agent_id r = sf_AgentID f) \<and>
     (sf_Repo f \<noteq> [] \<longrightarrow> s_repo r = sf_Repo f) \<and>
     (sf_Path f \<noteq> [] \<longrightarrow> sql_like (''%'' @ sf_Path f @ ''%'') (jsonb_text (s_paths r))) \<and>
     (\<not> IsZero (sf_Since f) \<longrightarrow> format_RFC3339Nano (sf_Since f) \<le> s_started_at r)"

definition session_limit :: "int \<Rightarrow> int" where
  "session_limit l = (if l \<le> 0 \<or> l > 100 then 50 else l)"

definition select_sessions :: "(json \<Rightarrow> string) \<Rightarrow> SessionFilter \<Rightarrow> (database, session_row list) stmt" where
  "select_sessions jsonb_text f db =
     (Inr (take (nat (session_limit (sf_Limit f)))
        (order_desc s_started_at (filter (session_matches jsonb_text f) (db_captured_sessions db)))), db)"

definition ListCapturedSessions ::
  "(json \<Rightarrow> string) \<Rightarrow> senv \<Rightarrow> SessionFilter \<Rightarrow> database \<Rightarrow> (goerr + CapturedSession list) \<times> database" where
  "ListCapturedSessions jsonb_text E f db =
     (case query_rows ''list captured_sessions'' (sv_access E 0) (select_sessions jsonb_text f) db of
       (Inl e, db') \<Rightarrow> (Inl e, db')
     | (Inr rows, db') \<Rightarrow> (Inr (map finishCapturedSessionScan rows), db'))"

section \<open>The database stays well-formed\<close>

interpretation create_session: tx_body "CreateCapturedSession_tx r" db_ok for r
  by (rule tx_bodyI, unfold CreateCapturedSession_tx_def, intro tx_pres) (simp_all add: stmt_simps)

lemma session_ops_db_ok:
  assumes "others_keep db_ok E" "db_ok db"
  shows "db_ok (snd (CreateCapturedSession E cs db))" "db_ok (snd (GetCapturedSession E i db))"
    and "db_ok (snd (ListCapturedSessions jt E f db))"
proof -
  have ins: "db_ok d" if "RetryTx (sv_tx E) (CreateCapturedSession_tx new) () db = (r, d)" for new r d
    using create_session.RetryTx_inv [of "sv_tx E" db new "()", OF others_keepD(1) [OF assms(1)] assms(2)] that by simp
  show "db_ok (snd (CreateCapturedSession E cs db))"
    using assms(2) by (auto simp: CreateCapturedSession_def Let_def dest!: ins split: prod.splits sum.splits option.splits)
  show "db_ok (snd (GetCapturedSession E i db))" "db_ok (snd (ListCapturedSessions jt E f db))"
    using assms by (auto simp: GetCapturedSession_def ListCapturedSessions_def others_keepD [of db_ok E]
      dest!: query_dbD split: prod.splits sum.splits)
qed

section \<open>What is stored is what was given\<close>

definition usage_ok :: "CapturedUsage \<Rightarrow> bool" where
  "usage_ok u \<longleftrightarrow> (\<forall>n \<in> {us_InputTokens u, us_OutputTokens u, us_CacheReadTokens u, us_CacheWriteTokens u, us_TotalTokens u}.
     - (2 ^ 63) \<le> n \<and> n < 2 ^ 63)"

lemma get_num_omit [simp]:
  "get_num k (omit_num k' q @ kvs) = (if k = k' \<and> q \<noteq> 0 then Some q else get_num k kvs)"
  "get_num k (omit_num k' q) = Some (if k = k' then q else 0)"
  by (simp_all add: get_num_def omit_num_def)

lemma unmarshal_usage_marshal: "usage_ok u \<Longrightarrow> unmarshal_usage (marshal_usage u) = Some u"
  by (cases u) (simp add: marshal_usage_def get_int_def usage_ok_def)

text \<open>Reading a member of an object written field by field.\<close>

lemma get_field_simps [simp]:
  "get_str k ((k', j) # kvs) = (if k = k' then json_string j else get_str k kvs)"
  "get_str k (omit_str k' s @ kvs) = (if k = k' \<and> s \<noteq> [] then Some s else get_str k kvs)"
  "get_str k (omit_str k' s) = Some (if k = k' then s else [])" "get_str k [] = Some []"
  "k \<noteq> k' \<Longrightarrow> get_time k ((k', j) # kvs) = get_time k kvs"
  "get_time k ((k, JStr ts) # kvs) = map_option Some (parse_RFC3339 ts)"
  "k \<noteq> k' \<Longrightarrow> get_time k (omit_str k' s @ kvs) = get_time k kvs"
  "k \<noteq> k' \<Longrightarrow> get_time k (omit_str k' s) = Some None" "get_time k [] = Some None"
  "k' \<noteq> ''usage'' \<Longrightarrow> get_usage ((k', j) # kvs) = get_usage kvs"
  "get_usage ((''usage'', JObj us) # kvs) = map_option Some (unmarshal_usage (JObj us))"
  "k' \<noteq> ''usage'' \<Longrightarrow> get_usage (omit_str k' s) = Some None"
  by (simp_all add: get_str_def get_time_def get_usage_def omit_str_def)

definition stamp_ok :: "gotime option \<Rightarrow> bool" where
  "stamp_ok t \<longleftrightarrow> (\<forall>x. t = Some x \<longrightarrow> col_time x)"

lemma omit_time_ok:
  "stamp_ok t \<Longrightarrow> omit_time k t = Some (case t of None \<Rightarrow> [] | Some x \<Rightarrow> [(k, JStr (format_RFC3339Nano x))])"
  by (cases t) (simp_all add: omit_time_def marshal_time_def stamp_ok_def col_time_def)

definition turn_ok :: "CapturedTurn \<Rightarrow> bool" where
  "turn_ok t \<longleftrightarrow> stamp_ok (tn_Timestamp t) \<and> (\<forall>u. tn_Usage t = Some u \<longrightarrow> usage_ok u)"

lemma unmarshal_turn_marshal:
  assumes "turn_ok t"
  shows "\<exists>j. marshal_turn t = Some j \<and> unmarshal_turn j = Some t"
proof -
  have usage: "\<exists>us. marshal_usage u = JObj us \<and> unmarshal_usage (JObj us) = Some u" if "usage_ok u" for u
  proof -
    obtain us where us: "marshal_usage u = JObj us" by (simp add: marshal_usage_def)
    with unmarshal_usage_marshal [OF that] have "unmarshal_usage (JObj us) = Some u" by (simp only:)
    with us show ?thesis by blast
  qed
  show ?thesis
  proof (cases "tn_Usage t")
    case None
    then show ?thesis using assms
      by (cases t; cases "tn_Timestamp t") (simp_all add: turn_ok_def marshal_turn_def omit_time_ok stamp_ok_def)
  next
    case (Some u)
    then obtain us where "marshal_usage u = JObj us" "unmarshal_usage (JObj us) = Some u"
      using usage assms by (auto simp: turn_ok_def)
    then show ?thesis using assms Some
      by (cases t; cases "tn_Timestamp t")
        (simp_all add: turn_ok_def marshal_turn_def omit_time_ok stamp_ok_def del: unmarshal_usage.simps)
  qed
qed

lemma unmarshal_toolcall_marshal:
  "stamp_ok (tc_Timestamp c) \<Longrightarrow> \<exists>j. marshal_toolcall c = Some j \<and> unmarshal_toolcall j = Some c"
  by (cases c; cases "tc_Timestamp c") (simp_all add: marshal_toolcall_def omit_time_ok stamp_ok_def)

lemma all_some_eq: "all_some xs = (if None \<in> set xs then None else Some (map the xs))"
  by (induction xs rule: all_some.induct) auto

lemma unmarshal_slice_marshal:
  assumes "\<And>x. x \<in> set (elems xs) \<Longrightarrow> \<exists>j. f x = Some j \<and> g j = Some x"
  shows "\<exists>j. marshal_slice f xs = Some j \<and> unmarshal_slice g j = Some xs"
proof (cases xs)
  case (Some ys)
  then have each: "\<exists>j. f x = Some j \<and> g j = Some x" if "x \<in> set ys" for x using assms that by simp
  then have "None \<notin> set (map f ys)" by (auto simp: image_iff) (metis option.distinct(1))
  then have "all_some (map f ys) = Some (map (the \<circ> f) ys)" by (simp add: all_some_eq)
  moreover have "map g (map (the \<circ> f) ys) = map Some ys" using each by (auto simp: comp_def) (metis option.sel)
  ultimately show ?thesis using Some by (simp add: marshal_slice_def del: map_map)
qed (simp add: marshal_slice_def)


definition session_ok :: "CapturedSession \<Rightarrow> bool" where
  "session_ok cs \<longleftrightarrow> stamp_ok (cs_StartedAt cs) \<and> stamp_ok (cs_FinishedAt cs) \<and>
     (\<forall>u. cs_Usage cs = Some u \<longrightarrow> usage_ok u) \<and> (\<forall>t \<in> set (elems (cs_Turns cs)). turn_ok t) \<and>
     (\<forall>c \<in> set (elems (cs_ToolCalls cs)). stamp_ok (tc_Timestamp c))"

lemma parse_stamp:
  "stamp_ok t \<Longrightarrow> parse_RFC3339 (case t of None \<Rightarrow> [] | Some x \<Rightarrow> format_RFC3339Nano x) = t"
proof (cases t)
  case None
  have "parse_RFC3339 [] = None" by code_simp
  then show ?thesis using None by simp
qed (simp add: stamp_ok_def)

lemma unmarshal_usage_column:
  assumes "session_ok cs"
  shows "unmarshal_usage (case cs_Usage cs of None \<Rightarrow> JObj [] | Some u \<Rightarrow> marshal_usage u) =
    Some (case cs_Usage cs of None \<Rightarrow> zero_usage | Some u \<Rightarrow> u)"
proof (cases "cs_Usage cs")
  case None
  have "unmarshal_usage (JObj []) = Some zero_usage" by (simp add: get_int_def get_num_def zero_usage_def)
  with None show ?thesis by (simp del: unmarshal_usage.simps)
next
  case (Some u)
  then show ?thesis using unmarshal_usage_marshal [of u] assms by (simp add: session_ok_def)
qed

lemma session_row_read_back:
  assumes "session_ok cs" "utc_ok (cs_CreatedAt cs)"
  obtains tj cj where "marshal_slice marshal_turn (cs_Turns cs) = Some tj"
    "marshal_slice marshal_toolcall (cs_ToolCalls cs) = Some cj"
    "finishCapturedSessionScan (session_insert_row cs tj cj (cs_CreatedAt cs)) =
       cs\<lparr>cs_Usage := Some (case cs_Usage cs of None \<Rightarrow> zero_usage | Some u \<Rightarrow> u)\<rparr>"
proof -
  obtain tj where tj: "marshal_slice marshal_turn (cs_Turns cs) = Some tj" "unmarshal_slice unmarshal_turn tj = Some (cs_Turns cs)"
    using unmarshal_slice_marshal [of "cs_Turns cs" marshal_turn unmarshal_turn] unmarshal_turn_marshal assms(1)
    by (auto simp: session_ok_def)
  obtain cj where cj: "marshal_slice marshal_toolcall (cs_ToolCalls cs) = Some cj"
    "unmarshal_slice unmarshal_toolcall cj = Some (cs_ToolCalls cs)"
    using unmarshal_slice_marshal [of "cs_ToolCalls cs" marshal_toolcall unmarshal_toolcall] unmarshal_toolcall_marshal assms(1)
    by (auto simp: session_ok_def)
  have meta: "unmarshal_any_map (marshal_any_map m) = Some m" for m
    by (cases m) (simp_all add: marshal_any_map_def)
  show ?thesis
    by (rule that [OF tj(1) cj(1)])
      (use tj(2) cj(2) unmarshal_usage_column [OF assms(1)] assms parse_stamp [of "cs_StartedAt cs"] parse_stamp [of "cs_FinishedAt cs"] in
        \<open>cases cs; simp add: finishCapturedSessionScan_def session_insert_row_def meta or_nil_def session_ok_def\<close>)
qed

lemma CreateCapturedSession_run:
  assumes "quiet E" "sv_uuid E \<notin> s_id ` set (db_captured_sessions db)"
    and "cs = cs0\<lparr>cs_ID := sv_uuid E, cs_CreatedAt := in_UTC (sv_now E 0)\<rparr>"
    and "marshal_slice marshal_turn (cs_Turns cs) = Some tj" "marshal_slice marshal_toolcall (cs_ToolCalls cs) = Some cj"
  shows "CreateCapturedSession E cs0 db = (Inr cs, db\<lparr>db_captured_sessions := db_captured_sessions db @
    [session_insert_row cs tj cj (in_UTC (sv_now E 0))]\<rparr>)"
proof -
  define x where "x = session_insert_row cs tj cj (in_UTC (sv_now E 0))"
  have A: "calm (sv_tx E 0)" using assms(1) by simp
  have "may_insert captured_sessions_t x db"
    using assms(2) by (simp add: may_insert_def x_def session_insert_row_def assms(3))
  then have "CreateCapturedSession_tx x (sv_tx E 0) () (begin_tx db) =
      (Inr (), (begin_tx db)\<lparr>tx_db := db\<lparr>db_captured_sessions := db_captured_sessions db @ [x]\<rparr>, tx_count := 1\<rparr>)"
    using A by (simp add: CreateCapturedSession_tx_def tx_simps sql_insert_def)
  then have "RetryTx (sv_tx E) (CreateCapturedSession_tx x) () db =
      (Inr (), db\<lparr>db_captured_sessions := db_captured_sessions db @ [x]\<rparr>)"
    using RetryTx_commit [of "sv_tx E" "CreateCapturedSession_tx x", OF A] by simp
  then show ?thesis
    unfolding CreateCapturedSession_def Let_def assms(3) [symmetric] assms(4,5) option.case x_def [symmetric] by simp
qed

text \<open>
  C33. A recorded session with times the RFC 3339 form can carry and counts of 64 bits is stored under the
  fresh identifier, and reading it back gives the recording unchanged, down to every turn, tool call
  and metadata entry, but for one thing: a session recorded without usage comes back with a usage of
  all zeros, because the empty object it was stored as decodes to one.
\<close>

theorem create_then_get_session:
  assumes "quiet E" "quiet E'" "db_ok db" "sv_uuid E \<notin> s_id ` set (db_captured_sessions db)"
    and "utc_ok (in_UTC (sv_now E 0))" "session_ok cs0"
  shows "\<exists>cs db'. CreateCapturedSession E cs0 db = (Inr cs, db') \<and>
    cs = cs0\<lparr>cs_ID := sv_uuid E, cs_CreatedAt := in_UTC (sv_now E 0)\<rparr> \<and>
    GetCapturedSession E' (sv_uuid E) db' =
      (Inr (cs\<lparr>cs_Usage := Some (case cs_Usage cs0 of None \<Rightarrow> zero_usage | Some u \<Rightarrow> u)\<rparr>), db')"
proof -
  define cs where "cs = cs0\<lparr>cs_ID := sv_uuid E, cs_CreatedAt := in_UTC (sv_now E 0)\<rparr>"
  have ok: "session_ok cs" "utc_ok (cs_CreatedAt cs)" using assms(5,6) by (simp_all add: cs_def session_ok_def)
  obtain tj cj where marshalled: "marshal_slice marshal_turn (cs_Turns cs) = Some tj"
      "marshal_slice marshal_toolcall (cs_ToolCalls cs) = Some cj"
    and read: "finishCapturedSessionScan (session_insert_row cs tj cj (cs_CreatedAt cs)) =
      cs\<lparr>cs_Usage := Some (case cs_Usage cs of None \<Rightarrow> zero_usage | Some u \<Rightarrow> u)\<rparr>"
    using session_row_read_back [OF ok] .
  define x where "x = session_insert_row cs tj cj (cs_CreatedAt cs)"
  let ?db = "db\<lparr>db_captured_sessions := db_captured_sessions db @ [x]\<rparr>"
  have run: "CreateCapturedSession E cs0 db = (Inr cs, ?db)"
    using CreateCapturedSession_run [OF assms(1,4) cs_def marshalled] by (simp add: x_def cs_def)
  have "s_id x = sv_uuid E" by (simp add: x_def session_insert_row_def cs_def)
  then have "filter (\<lambda>r. s_id r = sv_uuid E) (db_captured_sessions ?db) = [x]"
    using filter_key_none [of "sv_uuid E" s_id "db_captured_sessions db"] assms(4) by simp
  then have "GetCapturedSession E' (sv_uuid E) ?db = (Inr (finishCapturedSessionScan x), ?db)"
    using assms(2) by (simp add: GetCapturedSession_def first_row_def scanCapturedSession_def)
  then show ?thesis
    using run read by (intro exI [of _ cs] exI [of _ ?db]) (simp add: cs_def x_def)
qed

definition demo_session :: CapturedSession where
  "demo_session = \<lparr>cs_ID = [], cs_AgentID = ''ann'', cs_SessionKey = [], cs_SessionID = [], cs_Channel = [], cs_SenderID = [],
     cs_Model = ''m'', cs_Provider = [], cs_StartedAt = Some (demo_time 5), cs_FinishedAt = None, cs_Usage = None,
     cs_Repo = [], cs_Paths = Some [''a.go''], cs_Summary = [],
     cs_Turns = Some [\<lparr>tn_Role = ''user'', tn_Content = ''hi'', tn_Timestamp = None,
       tn_Usage = Some (zero_usage\<lparr>us_TotalTokens := 3\<rparr>), tn_Model = []\<rparr>],
     cs_ToolCalls = None, cs_Metadata = Some [(''k'', JBool True)], cs_ParentSessionID = [], cs_CreatedAt = zero_time\<rparr>"

theorem create_then_get_session_witness:
  "\<exists>cs db'. CreateCapturedSession (quiet_senv (demo_time 9) ''s1'') demo_session empty_db = (Inr cs, db') \<and>
     cs_Turns cs = cs_Turns demo_session \<and>
     GetCapturedSession (quiet_senv (demo_time 10) []) ''s1'' db' = (Inr (cs\<lparr>cs_Usage := Some zero_usage\<rparr>), db')"
proof -
  have ok: "db_ok empty_db"
    by (simp add: db_ok_def table_ok_def notes_ok_def empty_db_def uniq_keys_def List.map_filter_simps)
  have u: "utc_ok (in_UTC (sv_now (quiet_senv (demo_time 9) ''s1'') 0))" by (simp, code_simp)
  have t: "utc_ok (demo_time 5)" by code_simp
  have s: "session_ok demo_session"
    using col_time_utc [OF t]
    by (simp add: session_ok_def demo_session_def stamp_ok_def turn_ok_def usage_ok_def zero_usage_def)
  have f: "sv_uuid (quiet_senv (demo_time 9) ''s1'') \<notin> s_id ` set (db_captured_sessions empty_db)"
    by (simp add: empty_db_def)
  from create_then_get_session [where E' = "quiet_senv (demo_time 10) []", OF quiet_senv_simps(2) quiet_senv_simps(2) ok f u s]
  show ?thesis by (elim exE conjE) (intro exI conjI, assumption, simp_all add: demo_session_def)
qed

text \<open>
  Listing sessions, undisturbed: those that pass the filters, the latest text of started_at first, at
  most 100 and 50 unless a number from 1 to 100 is asked for.  A path free of LIKE's special
  characters selects the sessions whose list of paths contains it, whatever the text form of the list.
\<close>

theorem list_sessions_spec:
  assumes "quiet E"
  shows "\<exists>rows. ListCapturedSessions jt E f db = (Inr (map finishCapturedSessionScan rows), db) \<and>
    listing (session_matches jt f) (nat (session_limit (sf_Limit f))) 0 (db_captured_sessions db) rows \<and>
    length rows \<le> 100 \<and> sorted (rev (map s_started_at rows)) \<and>
    (like_plain (sf_Path f) \<longrightarrow> (\<forall>r \<in> set rows. \<exists>u v. jt (s_paths r) = u @ sf_Path f @ v))"
proof -
  let ?l = "session_limit (sf_Limit f)"
  have l: "0 < ?l" "?l \<le> 100" by (simp_all add: session_limit_def)
  define rows where "rows = paginate 50 ?l 0 (order_desc s_started_at (filter (session_matches jt f) (db_captured_sessions db)))"
  have run: "ListCapturedSessions jt E f db = (Inr (map finishCapturedSessionScan rows), db)"
    using assms l by (simp add: ListCapturedSessions_def query_rows_def calm_access_def quiet_def select_sessions_def
        rows_def paginate_def)
  have li: "listing (session_matches jt f) (nat ?l) 0 (db_captured_sessions db) rows"
    using listing_order(1) [of "session_matches jt f" ?l 50 0 "db_captured_sessions db" s_started_at] l
    by (simp add: rows_def)
  have "\<exists>u v. jt (s_paths r) = u @ sf_Path f @ v" if "like_plain (sf_Path f)" "r \<in> set rows" for r
  proof (cases "sf_Path f = []")
    case False
    have "session_matches jt f r" using li that(2) unfolding listing_def by blast
    then have "sql_like (''%'' @ sf_Path f @ ''%'') (jt (s_paths r))" using False unfolding session_matches_def by blast
    then show ?thesis using sql_like_infix [OF that(1)] by blast
  qed (rule exI [of _ "[]"], rule exI [of _ "jt (s_paths r)"], simp)
  moreover have "length rows \<le> 100" using li l(2) unfolding listing_def by linarith
  ultimately show ?thesis
    using run li sorted_paginate_desc [of s_started_at 50 ?l 0] unfolding rows_def by blast
qed

theorem list_sessions_spec_witness:
  "\<exists>rows. ListCapturedSessions (\<lambda>_. ''[a.go]'') (quiet_senv (demo_time 0) [])
      \<lparr>sf_AgentID = [], sf_Repo = [], sf_Path = ''a.go'', sf_Since = zero_time, sf_Limit = 500\<rparr> empty_db =
      (Inr (map finishCapturedSessionScan rows), empty_db) \<and> length rows \<le> 100"
  using list_sessions_spec [OF quiet_senv_simps(2), of "\<lambda>_. ''[a.go]''" "demo_time 0" "[]"
      "\<lparr>sf_AgentID = [], sf_Repo = [], sf_Path = ''a.go'', sf_Since = zero_time, sf_Limit = 500\<rparr>" empty_db] by blast

definition since_filter :: "gotime \<Rightarrow> SessionFilter" where
  "since_filter t = \<lparr>sf_AgentID = [], sf_Repo = [], sf_Path = [], sf_Since = t, sf_Limit = 0\<rparr>"

text \<open>
  The start of a session is stored in the zone of the client and compared as a text.  A session that
  began an hour after the time asked for, on a clock five hours behind UTC, is left out.
\<close>

theorem since_ignores_zones:
  "let since = demo_time 0; start = GoTime (instant since + Hour) (- 5 * 3600) in
   time_after start since \<and> \<not> session_matches jt (since_filter since)
     (session_insert_row (demo_session\<lparr>cs_StartedAt := Some start\<rparr>) JNull JNull since)"
proof -
  have "\<not> format_RFC3339Nano (demo_time 0) \<le> format_RFC3339Nano (GoTime (instant (demo_time 0) + Hour) (- 5 * 3600))"
    "time_after (GoTime (instant (demo_time 0) + Hour) (- 5 * 3600)) (demo_time 0)" "\<not> IsZero (demo_time 0)"
    by code_simp+
  then show ?thesis by (simp add: Let_def session_matches_def since_filter_def session_insert_row_def)
qed

end
