(* ===== verification/AgentApi.thy ===== *)
theory AgentApi
  imports Http DiscoveryStore SessionStore
begin

text \<open>
  \<^verbatim>\<open>internal/handlers/agents.go\<close>, \<^verbatim>\<open>discovery.go\<close> and \<^verbatim>\<open>sessions.go\<close>, and the requests that
  \<^verbatim>\<open>internal/relay/client.go\<close> forms.  A handler that starts a goroutine for the relay returns the call
  it started; the network that carries it is a parameter (\<open>send\<close>: the status of the response, or an
  error).
\<close>

section \<open>The relay\<close>

record UsageReport =
  ur_Model :: string
  ur_InputTokens :: int
  ur_OutputTokens :: int
  ur_CacheReadTokens :: int
  ur_CacheWriteTokens :: int
  ur_TotalTokens :: int
  ur_EstimatedCostUsd :: rat
  ur_SessionID :: string
  ur_Timestamp :: string

datatype relay_call = CallStatus string string string | CallUsage string UsageReport

record relay_client =
  rc_baseURL :: string
  rc_token :: string

definition relay_New :: "string \<Rightarrow> string \<Rightarrow> relay_client" where
  "relay_New baseURL token = \<lparr>rc_baseURL = baseURL, rc_token = token\<rparr>"

record http_request =
  rq_Method :: string
  rq_URL :: string
  rq_Header :: "(string \<times> string) list"
  rq_Body :: json

definition marshal_usage_report :: "UsageReport \<Rightarrow> json" where
  "marshal_usage_report u = JObj [(''model'', JStr (ur_Model u)), (''inputTokens'', JNum (of_int (ur_InputTokens u))),
     (''outputTokens'', JNum (of_int (ur_OutputTokens u))), (''cacheReadTokens'', JNum (of_int (ur_CacheReadTokens u))),
     (''cacheWriteTokens'', JNum (of_int (ur_CacheWriteTokens u))), (''totalTokens'', JNum (of_int (ur_TotalTokens u))),
     (''estimatedCostUsd'', JNum (ur_EstimatedCostUsd u)), (''sessionId'', JStr (ur_SessionID u)),
     (''timestamp'', JStr (ur_Timestamp u))]"

definition relay_do :: "(http_request \<Rightarrow> goerr + int) \<Rightarrow> relay_client \<Rightarrow> string \<Rightarrow> string \<Rightarrow> json \<Rightarrow> goerr option" where
  "relay_do send c meth url body =
     (case send \<lparr>rq_Method = meth, rq_URL = url,
          rq_Header = [(''Content-Type'', ''application/json'')] @
            (if rc_token c \<noteq> [] then [(''Authorization'', ''Bearer '' @ rc_token c)] else []),
          rq_Body = body\<rparr> of
        Inl e \<Rightarrow> Some (Wrapped (meth @ '' '' @ url) e)
      | Inr status \<Rightarrow>
          if status < 200 \<or> status \<ge> 300 then Some (ErrText (meth @ '' '' @ url @ '': status '' @ show_int status))
          else None)"

text \<open>Errors are logged and dropped.\<close>

definition UpdateStatus ::
  "(http_request \<Rightarrow> goerr + int) \<Rightarrow> relay_client \<Rightarrow> string \<Rightarrow> string \<Rightarrow> string \<Rightarrow> goerr option \<times> goerr list" where
  "UpdateStatus send c agentID status activity =
     (if rc_baseURL c = [] then (None, [])
      else case relay_do send c ''PATCH'' (rc_baseURL c @ ''/agents/'' @ agentID @ ''/status'')
          (JObj [(''activity'', JStr activity), (''status'', JStr status)]) of
        Some e \<Rightarrow> (None, [e])
      | None \<Rightarrow> (None, []))"

definition RecordUsage ::
  "(http_request \<Rightarrow> goerr + int) \<Rightarrow> relay_client \<Rightarrow> string \<Rightarrow> UsageReport \<Rightarrow> goerr option \<times> goerr list" where
  "RecordUsage send c agentID usage =
     (if rc_baseURL c = [] then (None, [])
      else case relay_do send c ''POST'' (rc_baseURL c @ ''/agents/'' @ agentID @ ''/usage'')
          (marshal_usage_report usage) of
        Some e \<Rightarrow> (None, [e])
      | None \<Rightarrow> (None, []))"

text \<open>Without a base URL no request is made.\<close>

lemma relay_off:
  "UpdateStatus send (relay_New [] token) i st act = (None, [])" "RecordUsage send (relay_New [] token) i u = (None, [])"
  by (simp_all add: UpdateStatus_def RecordUsage_def relay_New_def)

section \<open>Agents\<close>

record agentHeartbeatInput =
  hbi_ID :: string
  hbi_Capabilities :: "string slice"
  hbi_Status :: string
  hbi_Activity :: string
  hbi_HiveLocalVersion :: string
  hbi_HivePluginVersion :: string

definition heartbeat_status :: "string \<Rightarrow> AgentStatus" where
  "heartbeat_status s = (if s = AgentStatusOnline \<or> s = AgentStatusIdle then s else AgentStatusOnline)"

definition agentHeartbeat ::
  "bool \<Rightarrow> senv \<Rightarrow> agentHeartbeatInput \<Rightarrow> database \<Rightarrow> (Agent reply \<times> relay_call list) \<times> database" where
  "agentHeartbeat relay E inp db =
     (let status = heartbeat_status (hbi_Status inp) in
      case Heartbeat E (hbi_ID inp) (hbi_Capabilities inp) status (hbi_Activity inp)
          (hbi_HiveLocalVersion inp) (hbi_HivePluginVersion inp) db of
        (Inl e, d) \<Rightarrow> ((Inl (http_err 500 ''failed to record heartbeat''), []), d)
      | (Inr agent, d) \<Rightarrow>
          ((Inr agent, if relay then [CallStatus (hbi_ID inp) status (hbi_Activity inp)] else []), d))"

definition agentList :: "senv \<Rightarrow> database \<Rightarrow> Agent list reply \<times> database" where
  "agentList E db = answers [] (http_err 500 ''failed to list agents'') (ListAgents E db)"

definition agent_missing :: "goerr \<times> http_error" where
  "agent_missing = (ErrNotFound, http_err 404 ''agent not found'')"

definition agentGet :: "senv \<Rightarrow> string \<Rightarrow> database \<Rightarrow> Agent reply \<times> database" where
  "agentGet E i db = answers [agent_missing] (http_err 500 ''failed to get agent'') (GetAgent E i db)"

definition agentUsage :: "bool \<Rightarrow> string \<Rightarrow> UsageReport \<Rightarrow> bool \<times> relay_call list" where
  "agentUsage relay i usage = (True, if relay then [CallUsage i usage] else [])"

text \<open>The response: the agent without its token, and the token beside it.\<close>

definition agentOnboard :: "senv \<Rightarrow> string \<Rightarrow> database \<Rightarrow> (Agent \<times> string) reply \<times> database" where
  "agentOnboard E i db =
     map_reply (\<lambda>agent. (agent\<lparr>ag_Token := []\<rparr>, ag_Token agent))
       (answers [] (http_err 500 ''failed to generate agent token'') (GenerateAgentToken E i db))"

section \<open>Discovery\<close>

definition discoveryListAgents :: "senv \<Rightarrow> database \<Rightarrow> DiscoveryAgent list reply \<times> database" where
  "discoveryListAgents E db = answers [] (http_err 500 ''failed to list discovery agents'') (ListDiscoveryAgents E db)"

definition discoveryGetAgent :: "senv \<Rightarrow> string \<Rightarrow> database \<Rightarrow> DiscoveryAgent reply \<times> database" where
  "discoveryGetAgent E i db =
     answers [agent_missing] (http_err 500 ''failed to get discovery agent'') (GetDiscoveryAgent E i db)"

definition discoveryPutAgentMeta ::
  "senv \<Rightarrow> string \<Rightarrow> DiscoveryAgentMeta \<Rightarrow> database \<Rightarrow> DiscoveryAgent reply \<times> database" where
  "discoveryPutAgentMeta E i meta db =
     answers [agent_missing] (http_err 500 ''failed to upsert agent meta'') (UpsertAgentMeta E i meta db)"

definition discoveryListChannels :: "senv \<Rightarrow> database \<Rightarrow> DiscoveryChannel list reply \<times> database" where
  "discoveryListChannels E db = answers [] (http_err 500 ''failed to list channels'') (ListChannels E db)"

definition discoveryGetChannel :: "senv \<Rightarrow> string \<Rightarrow> database \<Rightarrow> DiscoveryChannel reply \<times> database" where
  "discoveryGetChannel E i db = answers [(ErrNotFound, http_err 404 ''channel not found'')]
     (http_err 500 ''failed to get channel'') (GetChannel E i db)"

record discoveryChannelBody =
  dcb_Name :: string
  dcb_DiscordID :: string
  dcb_Purpose :: string
  dcb_Category :: string
  dcb_Members :: "string slice"

definition discoveryPutChannel ::
  "senv \<Rightarrow> string \<Rightarrow> discoveryChannelBody \<Rightarrow> database \<Rightarrow> DiscoveryChannel reply \<times> database" where
  "discoveryPutChannel E i b db = answers [] (http_err 500 ''failed to upsert channel'')
     (UpsertChannel E \<lparr>dc_ID = i, dc_Name = dcb_Name b, dc_DiscordID = dcb_DiscordID b, dc_Purpose = dcb_Purpose b,
        dc_Category = dcb_Category b, dc_Members = dcb_Members b, dc_CreatedAt = zero_time, dc_UpdatedAt = zero_time\<rparr> db)"

definition discoveryListRoles :: "senv \<Rightarrow> database \<Rightarrow> DiscoveryRole list reply \<times> database" where
  "discoveryListRoles E db = answers [] (http_err 500 ''failed to list roles'') (ListRoles E db)"

definition discoveryGetRole :: "senv \<Rightarrow> string \<Rightarrow> database \<Rightarrow> DiscoveryRole reply \<times> database" where
  "discoveryGetRole E i db = answers [(ErrNotFound, http_err 404 ''role not found'')]
     (http_err 500 ''failed to get role'') (GetRole E i db)"

record discoveryRoleBody =
  drb_Name :: string
  drb_DiscordID :: string
  drb_Members :: "string slice"

definition discoveryPutRole ::
  "senv \<Rightarrow> string \<Rightarrow> discoveryRoleBody \<Rightarrow> database \<Rightarrow> DiscoveryRole reply \<times> database" where
  "discoveryPutRole E i b db = answers [] (http_err 500 ''failed to upsert role'')
     (UpsertRole E \<lparr>dr_ID = i, dr_Name = drb_Name b, dr_DiscordID = drb_DiscordID b, dr_Members = drb_Members b,
        dr_CreatedAt = zero_time, dr_UpdatedAt = zero_time\<rparr> db)"

definition routing_of :: "DiscoveryAgent \<Rightarrow> DiscoveryRouting" where
  "routing_of da = (case da_Meta da of
       None \<Rightarrow> \<lparr>rt_AgentID = ag_ID (da_Agent da), rt_MentionFormat = [], rt_HomeChannel = [], rt_Channels = None\<rparr>
     | Some m \<Rightarrow> \<lparr>rt_AgentID = ag_ID (da_Agent da), rt_MentionFormat = dm_MentionFormat m,
         rt_HomeChannel = dm_HomeChannel m, rt_Channels = dm_Channels m\<rparr>)"

definition discoveryGetRouting :: "senv \<Rightarrow> string \<Rightarrow> database \<Rightarrow> DiscoveryRouting reply \<times> database" where
  "discoveryGetRouting E i db = map_reply routing_of
     (answers [agent_missing] (http_err 500 ''failed to get routing info'') (GetDiscoveryAgent E i db))"

section \<open>Captured sessions\<close>

definition empty_session :: CapturedSession where
  "empty_session = \<lparr>cs_ID = [], cs_AgentID = [], cs_SessionKey = [], cs_SessionID = [], cs_Channel = [], cs_SenderID = [],
     cs_Model = [], cs_Provider = [], cs_StartedAt = None, cs_FinishedAt = None, cs_Usage = None, cs_Repo = [],
     cs_Paths = None, cs_Summary = [], cs_Turns = None, cs_ToolCalls = None, cs_Metadata = None,
     cs_ParentSessionID = [], cs_CreatedAt = zero_time\<rparr>"

text \<open>\<^verbatim>\<open>agent_id\<close> comes from the body, or from the header when the body leaves it out.\<close>

definition session_body :: "string \<Rightarrow> CapturedSession option \<Rightarrow> CapturedSession" where
  "session_body agent body =
     (let cs = (case body of None \<Rightarrow> empty_session | Some cs \<Rightarrow> cs)
      in if cs_AgentID cs = [] \<and> agent \<noteq> [] then cs\<lparr>cs_AgentID := agent\<rparr> else cs)"

definition sessionCreate ::
  "senv \<Rightarrow> string \<Rightarrow> CapturedSession option \<Rightarrow> database \<Rightarrow> (int \<times> CapturedSession) reply \<times> database" where
  "sessionCreate E agent body db = map_reply (\<lambda>created. (201, created))
     (answers [] (http_err 500 ''failed to create session'') (CreateCapturedSession E (session_body agent body) db))"

text \<open>The sentinel is compared with \<^verbatim>\<open>==\<close> here.\<close>

definition sessionGet :: "senv \<Rightarrow> string \<Rightarrow> database \<Rightarrow> CapturedSession reply \<times> database" where
  "sessionGet E i db = (case GetCapturedSession E i db of
       (Inr cs, d) \<Rightarrow> (Inr cs, d)
     | (Inl e, d) \<Rightarrow> (Inl (if e = ErrNotFound then http_err 404 ''session not found''
                            else http_err 500 ''failed to get session''), d))"

record sessionListInput =
  sli_AgentID :: string
  sli_Repo :: string
  sli_Path :: string
  sli_Since :: string
  sli_Limit :: int

definition sessionList ::
  "(json \<Rightarrow> string) \<Rightarrow> senv \<Rightarrow> sessionListInput \<Rightarrow> database \<Rightarrow> CapturedSession list reply \<times> database" where
  "sessionList jsonb_text E inp db =
     (case (if sli_Since inp \<noteq> [] then parse_RFC3339 (sli_Since inp) else Some zero_time) of
        None \<Rightarrow> (Inl (http_err 422 ''invalid since timestamp: must be RFC3339''), db)
      | Some t \<Rightarrow> answers [] (http_err 500 ''failed to list sessions'')
          (ListCapturedSessions jsonb_text E \<lparr>sf_AgentID = sli_AgentID inp, sf_Repo = sli_Repo inp,
             sf_Path = sli_Path inp, sf_Since = t, sf_Limit = sli_Limit inp\<rparr> db))"

end
