(* ===== verification/Server.thy ===== *)
theory Server
  imports AgentApi
begin

text \<open>
  \<^verbatim>\<open>internal/server\<close>: authentication (\<^verbatim>\<open>auth.go\<close>), the top-level mux (\<^verbatim>\<open>server.go\<close>), the probes
  (\<^verbatim>\<open>health.go\<close>) and the version header (\<^verbatim>\<open>middleware.go\<close>).  The wrapped handlers are parameters: a
  handler takes the request and the state and answers.
\<close>

section \<open>Authentication\<close>

text \<open>\<open>hq_Header\<close> is \<^verbatim>\<open>r.Header.Get\<close>: empty for a header that is absent.\<close>

record http_req =
  hq_Method :: string
  hq_Path :: string
  hq_Header :: "string \<Rightarrow> string"
  hq_Context :: Context

definition bearer_token :: "http_req \<Rightarrow> string" where
  "bearer_token r = (let h = hq_Header r ''Authorization''
     in if length h > 7 \<and> take 7 h = ''Bearer '' then drop 7 h else [])"

definition header_agent :: "http_req \<Rightarrow> string" where
  "header_agent r = hq_Header r ''X-Agent-ID''"

definition header_session :: "http_req \<Rightarrow> SessionContext" where
  "header_session r = \<lparr>SessionKey = hq_Header r ''X-Session-Key'', SessionID = hq_Header r ''X-Session-ID'',
     Channel = hq_Header r ''X-Channel'', SenderID = hq_Header r ''X-Sender-ID'',
     SenderIsOwner = (hq_Header r ''X-Sender-Is-Owner'' = ''true''), Sandboxed = (hq_Header r ''X-Sandboxed'' = ''true'')\<rparr>"

text \<open>The check: the global token, or else the token of the agent the header names.\<close>

definition auth_valid ::
  "string \<Rightarrow> (string \<Rightarrow> 'd \<Rightarrow> (goerr + Agent) \<times> 'd) \<Rightarrow> http_req \<Rightarrow> 'd \<Rightarrow> bool \<times> 'd" where
  "auth_valid token lookup r d =
     (if token \<noteq> [] \<and> bearer_token r = token then (True, d)
      else if bearer_token r \<noteq> [] \<and> header_agent r \<noteq> []
      then (case lookup (header_agent r) d of
              (Inl e, d1) \<Rightarrow> (False, d1)
            | (Inr agent, d1) \<Rightarrow> (ag_Token agent \<noteq> [] \<and> bearer_token r = ag_Token agent, d1))
      else (False, d))"

definition auth_context :: "http_req \<Rightarrow> http_req" where
  "auth_context r =
     (let ctx = hq_Context r;
          ctx1 = (if header_agent r \<noteq> [] then ContextWithAgentID ctx (header_agent r) else ctx)
      in r\<lparr>hq_Context := ContextWithSession ctx1 (header_session r)\<rparr>)"

definition unauthorized :: http_error where
  "unauthorized = http_err 401 ''invalid or missing bearer token''"

definition AuthMiddleware ::
  "string \<Rightarrow> (string \<Rightarrow> 'd \<Rightarrow> (goerr + Agent) \<times> 'd) \<Rightarrow> (http_req \<Rightarrow> 'd \<Rightarrow> 'a reply \<times> 'd) \<Rightarrow> http_req \<Rightarrow> 'd \<Rightarrow>
   'a reply \<times> 'd" where
  "AuthMiddleware token lookup next_h r d =
     (case auth_valid token lookup r d of
        (valid, d1) \<Rightarrow>
          if (token \<noteq> [] \<or> bearer_token r \<noteq> []) \<and> \<not> valid then (Inl unauthorized, d1)
          else next_h (auth_context r) d1)"

section \<open>Routing\<close>

record VersionInfo =
  vi_Version :: string
  vi_Commit :: string
  vi_Date :: string

text \<open>A probe answers with a status and a JSON object; a handler of its own protocol with a status.\<close>

datatype 'a response = Probe int json | Status int | Replied "'a reply"

text \<open>The patterns of \<^verbatim>\<open>http.ServeMux\<close> for a clean path: a GET pattern matches HEAD as well.\<close>

definition is_get :: "http_req \<Rightarrow> bool" where
  "is_get r \<longleftrightarrow> hq_Method r = ''GET'' \<or> hq_Method r = ''HEAD''"

text \<open>A map of strings is encoded with its keys in order.\<close>

definition handleHealth :: "'a response" where
  "handleHealth = Probe 200 (JObj [(''status'', JStr ''ok'')])"

definition handleReady :: "'a response" where
  "handleReady = Probe 200 (JObj [(''status'', JStr ''ready'')])"

definition handleVersion :: "VersionInfo \<Rightarrow> 'a response" where
  "handleVersion vi = Probe 200 (JObj [(''version'', JStr (vi_Version vi)), (''commit'', JStr (vi_Commit vi)),
     (''date'', JStr (vi_Date vi))])"

text \<open>\<open>ping\<close> answers with the text of the error, if there is one.\<close>

definition healthzHandler :: "('d \<Rightarrow> string option \<times> 'd) \<Rightarrow> 'd \<Rightarrow> 'a response \<times> 'd" where
  "healthzHandler ping d = (case ping d of
       (Some e, d1) \<Rightarrow> (Probe 503 (JObj [(''error'', JStr e), (''status'', JStr ''unavailable'')]), d1)
     | (None, d1) \<Rightarrow> (Probe 200 (JObj [(''status'', JStr ''healthy'')]), d1))"

definition BuildMux ::
  "VersionInfo \<Rightarrow> ('d \<Rightarrow> string option \<times> 'd) \<Rightarrow> (http_req \<Rightarrow> 'd \<Rightarrow> int \<times> 'd) \<Rightarrow> string \<Rightarrow>
   (string \<Rightarrow> 'd \<Rightarrow> (goerr + Agent) \<times> 'd) \<Rightarrow> (http_req \<Rightarrow> 'd \<Rightarrow> 'a reply \<times> 'd) \<Rightarrow> http_req \<Rightarrow> 'd \<Rightarrow> 'a response \<times> 'd" where
  "BuildMux vi ping webhook token lookup authed r d =
     (if is_get r \<and> hq_Path r = ''/health'' then (handleHealth, d)
      else if is_get r \<and> hq_Path r = ''/ready'' then (handleReady, d)
      else if is_get r \<and> hq_Path r = ''/version'' then (handleVersion vi, d)
      else if is_get r \<and> hq_Path r = ''/healthz'' then healthzHandler ping d
      else if hq_Method r = ''POST'' \<and> hq_Path r = ''/api/v1/webhooks/github''
        then (case webhook r d of (s, d1) \<Rightarrow> (Status s, d1))
      else (case AuthMiddleware token lookup authed r d of (res, d1) \<Rightarrow> (Replied res, d1)))"

text \<open>Every response carries the version.\<close>

definition versionHeaderMiddleware ::
  "VersionInfo \<Rightarrow> (http_req \<Rightarrow> 'd \<Rightarrow> 'a response \<times> 'd) \<Rightarrow> http_req \<Rightarrow> 'd \<Rightarrow> ((string \<times> string) list \<times> 'a response) \<times> 'd" where
  "versionHeaderMiddleware vi next_h r d = (case next_h r d of
       (res, d1) \<Rightarrow> (([(''X-Hive-Server-Version'', vi_Version vi)], res), d1))"

section \<open>What gets through\<close>

text \<open>A request with the global token, or with a token of the agent it names; or none at all where no
  global token is configured.\<close>

definition entitled :: "string \<Rightarrow> (string \<Rightarrow> 'd \<Rightarrow> (goerr + Agent) \<times> 'd) \<Rightarrow> http_req \<Rightarrow> 'd \<Rightarrow> bool" where
  "entitled token lookup r d \<longleftrightarrow>
     (token = [] \<and> bearer_token r = []) \<or> (token \<noteq> [] \<and> bearer_token r = token) \<or>
     (bearer_token r \<noteq> [] \<and> header_agent r \<noteq> [] \<and>
      (\<exists>a d1. lookup (header_agent r) d = (Inr a, d1) \<and> ag_Token a = bearer_token r))"

lemma AuthMiddleware_entitled:
  assumes "\<And>i d. snd (lookup i d) = d"
  shows "AuthMiddleware token lookup next_h r d =
    (if entitled token lookup r d then next_h (auth_context r) d else (Inl unauthorized, d))"
proof -
  have d1: "d1 = d" if "lookup i d = (x, d1)" for i x d1 using assms [of i d] that by simp
  show ?thesis
    by (cases "lookup (header_agent r) d"; cases "fst (lookup (header_agent r) d)")
      (auto simp: AuthMiddleware_def auth_valid_def entitled_def dest: d1)
qed

lemma auth_context_identity [simp]:
  "header_agent r \<noteq> [] \<Longrightarrow> AgentIDFromCtx (hq_Context (auth_context r)) = header_agent r"
  "SessionFromCtx (hq_Context (auth_context r)) = header_session r"
  "hq_Header (auth_context r) = hq_Header r" "hq_Method (auth_context r) = hq_Method r" "hq_Path (auth_context r) = hq_Path r"
  by (simp_all add: auth_context_def Let_def AgentIDFromCtx_def ContextWithAgentID_def ContextWithSession_def
      SessionFromCtx_def)

definition open_path :: "http_req \<Rightarrow> bool" where
  "open_path r \<longleftrightarrow> is_get r \<and> hq_Path r \<in> {''/health'', ''/ready'', ''/version'', ''/healthz''} \<or>
     hq_Method r = ''POST'' \<and> hq_Path r = ''/api/v1/webhooks/github''"

lemma BuildMux_guarded:
  "\<not> open_path r \<Longrightarrow> BuildMux vi ping webhook token lookup authed r d =
     (case AuthMiddleware token lookup authed r d of (res, d1) \<Rightarrow> (Replied res, d1))"
  by (auto simp: BuildMux_def open_path_def)

text \<open>
  C11. The gate.  Outside the four probes and the webhook, a request gets through to the handlers exactly
  when it is entitled: it carries the global token, or the token of the agent it names, or no token
  while none is configured.  Then the handlers see the agent and the session of the headers; otherwise
  the answer is 401 and nothing happens.  \<open>lookup\<close> is any reading of agents that changes nothing.
\<close>

theorem auth_gate:
  assumes "\<not> open_path r" "\<And>i d. snd (lookup i d) = d"
  shows "if entitled token lookup r d
    then \<exists>r'. BuildMux vi ping webhook token lookup authed r d =
        (Replied (fst (authed r' d)), snd (authed r' d)) \<and>
      (header_agent r \<noteq> [] \<longrightarrow> AgentIDFromCtx (hq_Context r') = header_agent r) \<and>
      SessionFromCtx (hq_Context r') = header_session r \<and> hq_Header r' = hq_Header r \<and>
      hq_Method r' = hq_Method r \<and> hq_Path r' = hq_Path r
    else BuildMux vi ping webhook token lookup authed r d = (Replied (Inl unauthorized), d)"
  using assms
  by (auto simp: BuildMux_guarded AuthMiddleware_entitled split: prod.split intro!: exI [of _ "auth_context r"])

definition demo_request :: "string \<Rightarrow> string \<Rightarrow> http_req" where
  "demo_request auth agent = \<lparr>hq_Method = ''GET'', hq_Path = ''/api/v1/tasks'',
     hq_Header = (\<lambda>h. if h = ''Authorization'' then auth else if h = ''X-Agent-ID'' then agent else []),
     hq_Context = background\<rparr>"

lemma GetAgent_reads: "quiet E \<Longrightarrow> snd (GetAgent E i d) = d"
  by (simp add: GetAgent_at_def split: prod.split)

definition whoami :: "http_req \<Rightarrow> database \<Rightarrow> string reply \<times> database" where
  "whoami r d = (Inr (AgentIDFromCtx (hq_Context r)), d)"

definition versionInfo :: VersionInfo where
  "versionInfo = \<lparr>vi_Version = ''dev'', vi_Commit = ''none'', vi_Date = ''unknown''\<rparr>"

definition demo_mux :: "string \<Rightarrow> string \<Rightarrow> string response \<times> database" where
  "demo_mux auth agent = BuildMux versionInfo (\<lambda>d. (None, d)) (\<lambda>_ d. (200, d)) ''secret'' (GetAgent (quiet_senv (demo_time 0) []))
     whoami (demo_request auth agent) demo_agents"

theorem auth_gate_witness:
  "demo_mux ''Bearer old'' ''bob'' = (Replied (Inl unauthorized), demo_agents) \<and>
   demo_mux ''Bearer old'' ''ann'' = (Replied (Inr ''ann''), demo_agents)"
proof -
  let ?E = "quiet_senv (demo_time 0) []"
  have o: "\<not> open_path (demo_request a i)" for a i by (simp add: open_path_def demo_request_def)
  have reads: "snd (GetAgent ?E i d) = d" for i d by (rule GetAgent_reads) simp
  have b: "bearer_token (demo_request ''Bearer old'' i) = ''old''" "header_agent (demo_request a i) = i" for a i
    by (simp_all add: bearer_token_def demo_request_def header_agent_def)
  have get: "GetAgent ?E ''ann'' demo_agents = (Inr (agent_of_row (demo_time 0) demo_agent), demo_agents)"
    "GetAgent ?E ''bob'' demo_agents = (Inl ErrNotFound, demo_agents)"
    using GetAgent_run [of ?E demo_agents 0] demo_agents_facts by simp_all
  have "ag_Token (agent_of_row (demo_time 0) demo_agent) = ''old''" by (simp add: demo_agent_def token_row_def)
  then have "entitled ''secret'' (GetAgent ?E) (demo_request ''Bearer old'' ''ann'') demo_agents"
    "\<not> entitled ''secret'' (GetAgent ?E) (demo_request ''Bearer old'' ''bob'') demo_agents"
    using get by (simp_all add: entitled_def b)
  then show ?thesis
    using auth_gate [where vi = versionInfo and lookup = "GetAgent ?E" and token = "''secret''" and d = demo_agents and
          authed = whoami and ping = "\<lambda>d. (None, d)" and webhook = "\<lambda>_ d. (200, d)", OF o reads, of "''Bearer old''" "''ann''"]
      auth_gate [where vi = versionInfo and lookup = "GetAgent ?E" and token = "''secret''" and d = demo_agents and
          authed = whoami and ping = "\<lambda>d. (None, d)" and webhook = "\<lambda>_ d. (200, d)", OF o reads, of "''Bearer old''" "''bob''"]
    by (auto simp: b demo_mux_def whoami_def)
qed

text \<open>
  C30. Onboarding, then authenticating.  Undisturbed, whoever calls the onboard handler for an agent gets
  a fresh token beside the agent, whose own token field is blank.  From then on requests that name the
  agent with that token are entitled, and with any other token they are refused unless it is the global
  one: the token the agent had before is void.  The handler does not ask who calls.
\<close>

theorem onboard_then_authenticate:
  assumes "quiet E" "quiet E'" "db_ok db" "i \<noteq> []"
    and "sv_random E = Inr bytes" "length bytes = 32" "\<And>b. b \<in> set bytes \<Longrightarrow> is_byte b"
  shows "\<exists>a tok db'. agentOnboard E i db = (Inr (a, tok), db') \<and> ag_ID a = i \<and> ag_Token a = [] \<and> length tok = 44 \<and>
    (\<forall>r token. header_agent r = i \<and> bearer_token r \<noteq> [] \<longrightarrow>
       entitled token (GetAgent E') r db' = (bearer_token r = tok \<or> bearer_token r = token))"
proof -
  define new where "new = token_row i (base64_Encode bytes) (in_UTC (sv_now E 0))"
  let ?db = "snd (sql_upsert agents_t new (token_set new) db)"
  define r where "r = (case row_at agents_t i db of None \<Rightarrow> new | Some r0 \<Rightarrow> token_set new r0)"
  note run = GenerateAgentToken_run [OF assms(1,3,5) new_def, folded r_def]
  have row: "row_at agents_t i ?db = Some r"
    using agents.row_at_upsert [of new "token_set new" i db] by (simp add: new_def r_def)
  have r: "a_id r = i" "a_token r = Some (base64_Encode bytes)"
    using agents.row_atD [of i db] by (auto simp: r_def new_def token_row_def token_set_def split: option.splits)
  have "db_ok ?db" using assms(3) by (simp add: stmt_simps)
  then have get: "GetAgent E' i ?db = (Inr (agent_of_row (sv_now E' 0) r), ?db)"
    using GetAgent_run [OF assms(2), of ?db 0 i] row by simp
  have "length (base64_Encode bytes) = 44" by (simp add: length_base64 assms(6))
  moreover have "entitled token (GetAgent E') q ?db = (bearer_token q = base64_Encode bytes \<or> bearer_token q = token)"
    if "header_agent q = i" "bearer_token q \<noteq> []" for q token
    using that assms(4) get r by (auto simp: entitled_def)
  ultimately show ?thesis
    by (intro exI [of _ "(agent_of_row (sv_now E 1) r)\<lparr>ag_Token := []\<rparr>"] exI [of _ "base64_Encode bytes"] exI [of _ ?db])
      (simp add: agentOnboard_def run r)
qed

theorem onboard_then_authenticate_witness:
  "\<exists>tok db'. snd (agentOnboard demo_token_senv ''ann'' demo_agents) = db' \<and>
     entitled ''secret'' (GetAgent (quiet_senv (demo_time 0) [])) (demo_request (''Bearer '' @ tok) ''ann'') db' \<and>
     \<not> entitled ''secret'' (GetAgent (quiet_senv (demo_time 0) [])) (demo_request ''Bearer old'' ''ann'') db'"
proof -
  have q: "quiet demo_token_senv"
    by (simp add: demo_token_senv_def quiet_def quiet_senv_def calm_attempt_def calm_def calm_access_def)
  have i: "''ann'' \<noteq> []" and rnd: "sv_random demo_token_senv = Inr (replicate 32 7)"
    by (simp_all add: demo_token_senv_def)
  obtain a tok db' where run: "agentOnboard demo_token_senv ''ann'' demo_agents = (Inr (a, tok), db')" "length tok = 44"
    and ent: "\<And>r token. header_agent r = ''ann'' \<Longrightarrow> bearer_token r \<noteq> [] \<Longrightarrow>
       entitled token (GetAgent (quiet_senv (demo_time 0) [])) r db' = (bearer_token r = tok \<or> bearer_token r = token)"
    using onboard_then_authenticate [OF q quiet_senv_simps(2) demo_agents_facts(1) i rnd, of "demo_time 0" "[]"]
    by (auto simp: is_byte_def)
  have b: "header_agent (demo_request h ''ann'') = ''ann''" "bearer_token (demo_request ''Bearer old'' ''ann'') = ''old''"
    "tok \<noteq> [] \<Longrightarrow> bearer_token (demo_request (''Bearer '' @ tok) ''ann'') = tok" for h
    by (simp_all add: bearer_token_def demo_request_def header_agent_def)
  have "tok \<noteq> []" "tok \<noteq> ''old''" using run(2) by auto
  then show ?thesis
    using run(1) ent [of "demo_request (''Bearer '' @ tok) ''ann''" "''secret''"]
      ent [of "demo_request ''Bearer old'' ''ann''" "''secret''"] b by (intro exI conjI) auto
qed

end
