(* ===== verification/Sha256.thy ===== *)
theory Sha256
  imports Prelude "HOL-Library.Word"
begin

text \<open>
  The parts of Go's \<^verbatim>\<open>crypto/sha256\<close>, \<^verbatim>\<open>crypto/hmac\<close> and \<^verbatim>\<open>encoding/hex\<close> the webhook uses: SHA-256 on
  32-bit words, HMAC over it, and the decoding of hexadecimal text.  Byte strings are \<^typ>\<open>string\<close>s.
\<close>

unbundle bit_operations_syntax

section \<open>SHA-256\<close>

type_synonym word32 = "32 word"

definition rotr :: "nat \<Rightarrow> word32 \<Rightarrow> word32" where
  "rotr n x = drop_bit n x OR push_bit (32 - n) x"

text \<open>
  The constants as the standard defines them: the first 32 bits of the fractional parts of the cube roots of
  the first 64 primes (\<open>sha_K\<close>), and of the square roots of the first eight (\<open>sha_init\<close>).  \<open>root_from\<close> finds
  the largest number whose power \<open>k\<close> does not exceed \<open>n\<close>, bit by bit; 40 bits are enough for roots
  below \<open>2 ^ 8\<close> with 32 bits after the point.
\<close>

fun root_from :: "nat \<Rightarrow> int \<Rightarrow> nat \<Rightarrow> int \<Rightarrow> int" where
  "root_from k n 0 r = r"
| "root_from k n (Suc b) r = root_from k n b (if (r + 2 ^ b) ^ k \<le> n then r + 2 ^ b else r)"

definition root_fraction :: "nat \<Rightarrow> nat \<Rightarrow> word32" where
  "root_fraction k p = of_int (root_from k (int p * 2 ^ (32 * k)) 40 0)"

definition small_primes :: "nat list" where
  "small_primes = filter (\<lambda>n. \<forall>d \<in> set [2..<n]. n mod d \<noteq> 0) [2..<312]"

definition sha_K :: "word32 list" where
  "sha_K = map (root_fraction 3) small_primes"

definition sha_init :: "word32 list" where
  "sha_init = map (root_fraction 2) (take 8 small_primes)"

lemma root_from_below: "r ^ k \<le> n \<Longrightarrow> root_from k n b r ^ k \<le> n"
  by (induction b arbitrary: r) auto

lemma first_constants: "root_fraction 3 2 = 0x428a2f98" "root_fraction 2 19 = 0x5be0cd19"
  by (code_simp, code_simp)

definition byte_word :: "char \<Rightarrow> word32" where
  "byte_word c = of_int (of_char c)"

definition word_byte :: "word32 \<Rightarrow> char" where
  "word_byte w = char_of (uint w)"

text \<open>Big-endian words of a block, and the bytes of a word.\<close>

fun be_words :: "string \<Rightarrow> word32 list" where
  "be_words (a # b # c # d # s) =
     (push_bit 24 (byte_word a) OR push_bit 16 (byte_word b) OR push_bit 8 (byte_word c) OR byte_word d) # be_words s"
| "be_words s = []"

definition be_bytes :: "word32 \<Rightarrow> string" where
  "be_bytes w = [word_byte (drop_bit 24 w AND 0xff), word_byte (drop_bit 16 w AND 0xff),
     word_byte (drop_bit 8 w AND 0xff), word_byte (w AND 0xff)]"

text \<open>The message schedule: \<open>ws\<close> holds the last sixteen words, the latest last.\<close>

fun sha_schedule :: "nat \<Rightarrow> word32 list \<Rightarrow> word32 list" where
  "sha_schedule 0 ws = []"
| "sha_schedule (Suc n) ws =
     (let v1 = ws ! 14; t1 = rotr 17 v1 XOR rotr 19 v1 XOR drop_bit 10 v1;
          v2 = ws ! 1; t2 = rotr 7 v2 XOR rotr 18 v2 XOR drop_bit 3 v2;
          w = t1 + ws ! 9 + t2 + ws ! 0
      in w # sha_schedule n (tl ws @ [w]))"

text \<open>One round on the eight working variables.\<close>

fun sha_round :: "word32 \<times> word32 \<Rightarrow> word32 list \<Rightarrow> word32 list" where
  "sha_round (k, w) [a, b, c, d, e, f, g, h] =
     (let t1 = h + (rotr 6 e XOR rotr 11 e XOR rotr 25 e) + ((e AND f) XOR (NOT e AND g)) + k + w;
          t2 = (rotr 2 a XOR rotr 13 a XOR rotr 22 a) + ((a AND b) XOR (a AND c) XOR (b AND c))
      in [t1 + t2, a, b, c, d + t1, e, f, g])"
| "sha_round kw hs = hs"

definition sha_block :: "word32 list \<Rightarrow> string \<Rightarrow> word32 list" where
  "sha_block hs block =
     (let ws = be_words block; sched = ws @ sha_schedule 48 ws
      in map2 (+) hs (fold sha_round (zip sha_K sched) hs))"

text \<open>Padding: 0x80, zeros up to 56 modulo 64, and the length in bits as 64 bits, big-endian.\<close>

fun be_int :: "nat \<Rightarrow> nat \<Rightarrow> string" where
  "be_int 0 n = []"
| "be_int (Suc k) n = be_int k (n div 256) @ [char_of (n mod 256)]"

definition sha_pad :: "string \<Rightarrow> string" where
  "sha_pad m = m @ [char_of (0x80 :: nat)] @ replicate ((119 - length m mod 64) mod 64) (char_of (0 :: nat)) @
     be_int 8 (8 * length m)"

function sha_blocks :: "word32 list \<Rightarrow> string \<Rightarrow> word32 list" where
  "sha_blocks hs m = (if m = [] then hs else sha_blocks (sha_block hs (take 64 m)) (drop 64 m))"
  by pat_completeness auto
termination by (relation "measure (\<lambda>(hs, m). length m)") auto

declare sha_blocks.simps [simp del]

definition sha256 :: "string \<Rightarrow> string" where
  "sha256 m = concat (map be_bytes (sha_blocks sha_init (sha_pad m)))"

section \<open>HMAC\<close>

definition xor_byte :: "nat \<Rightarrow> char \<Rightarrow> char" where
  "xor_byte n c = char_of (of_char c XOR n)"

definition hmac_key :: "string \<Rightarrow> string" where
  "hmac_key key = (let k = (if length key > 64 then sha256 key else key)
     in k @ replicate (64 - length k) (char_of (0 :: nat)))"

definition hmac_sha256 :: "string \<Rightarrow> string \<Rightarrow> string" where
  "hmac_sha256 key message =
     (let k = hmac_key key
      in sha256 (map (xor_byte 0x5c) k @ sha256 (map (xor_byte 0x36) k @ message)))"

section \<open>Hexadecimal text\<close>

definition hex_val :: "char \<Rightarrow> nat option" where
  "hex_val c = (let n = of_char c in
     if 48 \<le> n \<and> n \<le> 57 then Some (n - 48)
     else if 97 \<le> n \<and> n \<le> 102 then Some (n - 87)
     else if 65 \<le> n \<and> n \<le> 70 then Some (n - 55)
     else None)"

fun hex_DecodeString :: "string \<Rightarrow> string option" where
  "hex_DecodeString [] = Some []"
| "hex_DecodeString [c] = None"
| "hex_DecodeString (a # b # s) =
     (case (hex_val a, hex_val b) of
        (Some x, Some y) \<Rightarrow> map_option (\<lambda>r. char_of (16 * x + y) # r) (hex_DecodeString s)
      | _ \<Rightarrow> None)"

definition hex_digit :: "nat \<Rightarrow> char" where
  "hex_digit n = (if n < 10 then char_of (48 + n) else char_of (87 + n))"

definition hex_EncodeToString :: "string \<Rightarrow> string" where
  "hex_EncodeToString s = concat (map (\<lambda>c. [hex_digit (of_char c div 16), hex_digit (of_char c mod 16)]) s)"

lemma hex_val_digit: "n < 16 \<Longrightarrow> hex_val (hex_digit n) = Some n"
  by (auto simp: hex_val_def hex_digit_def Let_def)

lemma hex_roundtrip: "hex_DecodeString (hex_EncodeToString s) = Some s"
proof (induction s)
  case (Cons c s)
  have "(of_char c :: nat) div 16 < 16" using nat_of_char_less_256 [of c] by (simp add: div_less_iff_less_mult)
  then show ?case using Cons.IH by (simp add: hex_EncodeToString_def hex_val_digit)
qed (simp add: hex_EncodeToString_def)

end
