(* ===== verification/Webhook.thy ===== *)
theory Webhook
  imports Sha256 ClaimStore TaskStore
begin

text \<open>
  \<^verbatim>\<open>internal/webhook/webhook.go\<close>.  The handler depends on the store through an interface of five
  methods: a record of functions here, each called in an environment of type \<open>'e\<close>, one per call in the
  order of the calls.  The syntax of JSON (bytes to values) is the parameter \<open>decode\<close>; the decoding into
  the event structs is modelled.  Log lines are left out.
\<close>

section \<open>The code\<close>

record ('e, 'd) webhook_store =
  ws_CreateTask :: "'e \<Rightarrow> Task \<Rightarrow> 'd \<Rightarrow> (goerr + Task) \<times> 'd"
  ws_ListTasks :: "'e \<Rightarrow> TaskFilter \<Rightarrow> 'd \<Rightarrow> (goerr + Task list) \<times> 'd"
  ws_UpdateTask :: "'e \<Rightarrow> string \<Rightarrow> TaskUpdate \<Rightarrow> 'd \<Rightarrow> (goerr + Task) \<times> 'd"
  ws_ListClaims :: "'e \<Rightarrow> ClaimFilter \<Rightarrow> 'd \<Rightarrow> (goerr + Claim list) \<times> 'd"
  ws_ReleaseClaim :: "'e \<Rightarrow> string \<Rightarrow> 'd \<Rightarrow> (goerr + ClaimReleaseResult) \<times> 'd"

record pull_request =
  pr_Number :: int
  pr_Title :: string
  pr_Body :: string
  pr_Merged :: bool
  pr_HTMLURL :: string
  pr_HeadRef :: string

record issue =
  is_Number :: int
  is_Title :: string
  is_Body :: string
  is_HTMLURL :: string

definition decode_head :: "(string \<times> json) list \<Rightarrow> string option" where
  "decode_head kvs = get_str ''ref'' kvs"

definition decode_pull_request :: "(string \<times> json) list \<Rightarrow> pull_request option" where
  "decode_pull_request kvs =
     (case (get_int ''number'' kvs, get_str ''title'' kvs, get_str ''body'' kvs, get_bool ''merged'' kvs,
        get_str ''html_url'' kvs, get_struct decode_head ''head'' kvs) of
        (Some n, Some t, Some b, Some m, Some u, Some r) \<Rightarrow>
          Some \<lparr>pr_Number = n, pr_Title = t, pr_Body = b, pr_Merged = m, pr_HTMLURL = u, pr_HeadRef = r\<rparr>
      | _ \<Rightarrow> None)"

definition decode_issue :: "(string \<times> json) list \<Rightarrow> issue option" where
  "decode_issue kvs =
     (case (get_int ''number'' kvs, get_str ''title'' kvs, get_str ''body'' kvs, get_str ''html_url'' kvs) of
        (Some n, Some t, Some b, Some u) \<Rightarrow> Some \<lparr>is_Number = n, is_Title = t, is_Body = b, is_HTMLURL = u\<rparr>
      | _ \<Rightarrow> None)"

text \<open>The three events: the action or kind with the object it is about.\<close>

definition pullRequestEvent :: "json \<Rightarrow> (string \<times> pull_request) option" where
  "pullRequestEvent = unmarshal_struct (\<lambda>kvs.
     case (get_str ''action'' kvs, get_struct decode_pull_request ''pull_request'' kvs) of
       (Some a, Some p) \<Rightarrow> Some (a, p) | _ \<Rightarrow> None)"

definition issuesEvent :: "json \<Rightarrow> (string \<times> issue) option" where
  "issuesEvent = unmarshal_struct (\<lambda>kvs.
     case (get_str ''action'' kvs, get_struct decode_issue ''issue'' kvs) of
       (Some a, Some i) \<Rightarrow> Some (a, i) | _ \<Rightarrow> None)"

definition deleteEvent :: "json \<Rightarrow> (string \<times> string) option" where
  "deleteEvent = unmarshal_struct (\<lambda>kvs.
     case (get_str ''ref_type'' kvs, get_str ''ref'' kvs) of (Some t, Some r) \<Rightarrow> Some (t, r) | _ \<Rightarrow> None)"

text \<open>Releasing: \<open>k\<close> counts the calls of the store.\<close>

fun release_each :: "('e, 'd) webhook_store \<Rightarrow> (nat \<Rightarrow> 'e) \<Rightarrow> nat \<Rightarrow> Claim list \<Rightarrow> 'd \<Rightarrow> nat \<times> 'd" where
  "release_each S es k [] d = (k, d)"
| "release_each S es k (c # cs) d = release_each S es (Suc k) cs (snd (ws_ReleaseClaim S (es k) (cl_ID c) d))"

definition active_on :: "string \<Rightarrow> ClaimFilter" where
  "active_on resource = \<lparr>cf_Type = [], cf_AgentID = [], cf_Resource = resource, cf_Status = ClaimStatusActive,
     cf_SessionKey = [], cf_Limit = 0, cf_Offset = 0\<rparr>"

definition releaseClaims :: "('e, 'd) webhook_store \<Rightarrow> (nat \<Rightarrow> 'e) \<Rightarrow> nat \<Rightarrow> string \<Rightarrow> 'd \<Rightarrow> nat \<times> 'd" where
  "releaseClaims S es k resource d =
     (if resource = [] then (k, d)
      else case ws_ListClaims S (es k) (active_on resource) d of
        (Inl e, d1) \<Rightarrow> (Suc k, d1)
      | (Inr claims, d1) \<Rightarrow> release_each S es (Suc k) claims d1)"

definition github_task :: "string \<Rightarrow> string \<Rightarrow> string \<Rightarrow> Task" where
  "github_task title description kind = \<lparr>ta_ID = [], ta_Title = title, ta_Description = description, ta_Status = [],
     ta_Creator = ''github-webhook'', ta_Assignee = [], ta_Priority = 0, ta_Tags = Some [''github'', kind],
     ta_Notes = None, ta_Session = no_session, ta_CreatedAt = zero_time, ta_UpdatedAt = zero_time\<rparr>"

definition createTaskFromPR :: "('e, 'd) webhook_store \<Rightarrow> 'e \<Rightarrow> pull_request \<Rightarrow> 'd \<Rightarrow> 'd" where
  "createTaskFromPR S e pr d = snd (ws_CreateTask S e
     (github_task (''PR #'' @ show_int (pr_Number pr) @ '': '' @ pr_Title pr) (pr_Body pr) ''pull_request'') d)"

definition createTaskFromIssue :: "('e, 'd) webhook_store \<Rightarrow> 'e \<Rightarrow> issue \<Rightarrow> 'd \<Rightarrow> 'd" where
  "createTaskFromIssue S e i d = snd (ws_CreateTask S e
     (github_task (''Issue #'' @ show_int (is_Number i) @ '': '' @ is_Title i) (is_Body i) ''issue'') d)"

definition issue_prefix :: "int \<Rightarrow> string" where
  "issue_prefix n = ''Issue #'' @ show_int n @ '':''"

definition closing_update :: "gotime \<Rightarrow> TaskUpdate" where
  "closing_update now = \<lparr>tu_Status = Some TaskStatusDone, tu_Assignee = None,
     tu_Note = Some (''Closed via GitHub webhook at '' @ format_RFC3339 now), tu_AgentID = [], tu_Session = no_session\<rparr>"

fun complete_each ::
  "('e, 'd) webhook_store \<Rightarrow> (nat \<Rightarrow> 'e) \<Rightarrow> gotime \<Rightarrow> string \<Rightarrow> nat \<Rightarrow> Task list \<Rightarrow> 'd \<Rightarrow> 'd" where
  "complete_each S es now pre k [] d = d"
| "complete_each S es now pre k (t # ts) d =
     (if HasPrefix (ta_Title t) pre \<and> ta_Status t \<noteq> TaskStatusDone
      then complete_each S es now pre (Suc k) ts (snd (ws_UpdateTask S (es k) (ta_ID t) (closing_update now) d))
      else complete_each S es now pre k ts d)"

definition no_task_filter :: TaskFilter where
  "no_task_filter = \<lparr>tf_Status = [], tf_Assignee = [], tf_Creator = [], tf_SessionKey = [], tf_Limit = 0, tf_Offset = 0\<rparr>"

definition completeTaskForIssue ::
  "('e, 'd) webhook_store \<Rightarrow> (nat \<Rightarrow> 'e) \<Rightarrow> gotime \<Rightarrow> issue \<Rightarrow> 'd \<Rightarrow> 'd" where
  "completeTaskForIssue S es now i d =
     (case ws_ListTasks S (es 0) no_task_filter d of
        (Inl e, d1) \<Rightarrow> d1
      | (Inr tasks, d1) \<Rightarrow> complete_each S es (in_UTC now) (issue_prefix (is_Number i)) 1 tasks d1)"

definition handlePullRequest ::
  "(string \<Rightarrow> json option) \<Rightarrow> ('e, 'd) webhook_store \<Rightarrow> (nat \<Rightarrow> 'e) \<Rightarrow> string \<Rightarrow> 'd \<Rightarrow> 'd" where
  "handlePullRequest decode S es body d =
     (case Option.bind (decode body) pullRequestEvent of
        None \<Rightarrow> d
      | Some (action, pr) \<Rightarrow>
          let (k, d1) = (if action = ''closed'' \<and> pr_Merged pr
                then (case releaseClaims S es 0 (pr_HeadRef pr) d of
                        (k, d') \<Rightarrow> releaseClaims S es k (pr_HTMLURL pr) d')
                else (0, d))
          in if action = ''opened'' then createTaskFromPR S (es k) pr d1 else d1)"

definition handleIssues ::
  "(string \<Rightarrow> json option) \<Rightarrow> ('e, 'd) webhook_store \<Rightarrow> (nat \<Rightarrow> 'e) \<Rightarrow> gotime \<Rightarrow> string \<Rightarrow> 'd \<Rightarrow> 'd" where
  "handleIssues decode S es now body d =
     (case Option.bind (decode body) issuesEvent of
        None \<Rightarrow> d
      | Some (action, i) \<Rightarrow>
          if action = ''opened'' then createTaskFromIssue S (es 0) i d
          else if action = ''closed'' then completeTaskForIssue S es now i d
          else d)"

definition handleDelete ::
  "(string \<Rightarrow> json option) \<Rightarrow> ('e, 'd) webhook_store \<Rightarrow> (nat \<Rightarrow> 'e) \<Rightarrow> string \<Rightarrow> 'd \<Rightarrow> 'd" where
  "handleDelete decode S es body d =
     (case Option.bind (decode body) deleteEvent of
        None \<Rightarrow> d
      | Some (refType, ref) \<Rightarrow> if refType = ''branch'' then snd (releaseClaims S es 0 ref d) else d)"

text \<open>\<^verbatim>\<open>ValidateSignature\<close>: \<^verbatim>\<open>hmac.Equal\<close> compares the bytes.\<close>

definition ValidateSignature :: "string \<Rightarrow> string \<Rightarrow> string \<Rightarrow> bool" where
  "ValidateSignature payload signature secret =
     (if \<not> HasPrefix signature ''sha256='' then False
      else case hex_DecodeString (drop 7 signature) of
        None \<Rightarrow> False
      | Some sigBytes \<Rightarrow> sigBytes = hmac_sha256 secret payload)"

record webhook_request =
  wr_Method :: string
  wr_Body :: "goerr + string"
  wr_Header :: "string \<Rightarrow> string"

text \<open>\<^verbatim>\<open>ServeHTTP\<close>: the status of the response and the store after it.\<close>

definition ServeHTTP ::
  "(string \<Rightarrow> json option) \<Rightarrow> ('e, 'd) webhook_store \<Rightarrow> (nat \<Rightarrow> 'e) \<Rightarrow> gotime \<Rightarrow> string \<Rightarrow> webhook_request \<Rightarrow> 'd \<Rightarrow>
   int \<times> 'd" where
  "ServeHTTP decode S es now secret r d =
     (if wr_Method r \<noteq> ''POST'' then (405, d)
      else case wr_Body r of
        Inl e \<Rightarrow> (400, d)
      | Inr body \<Rightarrow>
          if length secret > 0 \<and> \<not> ValidateSignature body (wr_Header r ''X-Hub-Signature-256'') secret then (403, d)
          else (200,
            let event = wr_Header r ''X-GitHub-Event'' in
            if event = ''pull_request'' then handlePullRequest decode S es body d
            else if event = ''issues'' then handleIssues decode S es now body d
            else if event = ''delete'' then handleDelete decode S es body d
            else d))"

section \<open>The interface\<close>

text \<open>Whatever every method keeps, in environments that are good for it, the webhook keeps; the tasks it creates have titles.\<close>

locale webhook_keeps =
  fixes S :: "('e, 'd) webhook_store" and I :: "'d \<Rightarrow> bool" and good :: "'e \<Rightarrow> bool"
  assumes create: "ta_Title t \<noteq> [] \<Longrightarrow> good e \<Longrightarrow> I d \<Longrightarrow> I (snd (ws_CreateTask S e t d))"
    and list_tasks: "good e \<Longrightarrow> I d \<Longrightarrow> I (snd (ws_ListTasks S e tf d))"
    and update: "good e \<Longrightarrow> I d \<Longrightarrow> I (snd (ws_UpdateTask S e i upd d))"
    and list_claims: "good e \<Longrightarrow> I d \<Longrightarrow> I (snd (ws_ListClaims S e f d))"
    and release: "good e \<Longrightarrow> I d \<Longrightarrow> I (snd (ws_ReleaseClaim S e i d))"
begin

lemma release_each_keeps: "(\<And>k. good (es k)) \<Longrightarrow> I d \<Longrightarrow> I (snd (release_each S es k cs d))"
  by (induction cs arbitrary: k d) (simp_all add: release)

lemma releaseClaims_keeps: "(\<And>k. good (es k)) \<Longrightarrow> I d \<Longrightarrow> I (snd (releaseClaims S es k r d))"
  using list_claims [of "es k" d "active_on r"] release_each_keeps [of es]
  by (auto simp: releaseClaims_def split: prod.splits sum.splits)

lemma complete_each_keeps: "(\<And>k. good (es k)) \<Longrightarrow> I d \<Longrightarrow> I (complete_each S es now pre k ts d)"
  by (induction ts arbitrary: k d) (simp_all add: update)

lemma handlers_keep:
  assumes "\<And>k. good (es k)" "I d"
  shows "I (handlePullRequest decode S es body d)" "I (handleIssues decode S es now body d)"
    "I (handleDelete decode S es body d)"
proof -
  have rel: "I d' \<Longrightarrow> I (snd (releaseClaims S es k r d'))" for k r d'
    by (rule releaseClaims_keeps [where es = es]) (rule assms(1))
  have two: "I (snd (case releaseClaims S es 0 a d of (k, d') \<Rightarrow> releaseClaims S es k b d'))" for a b
  proof -
    obtain k d' where run: "releaseClaims S es 0 a d = (k, d')" by (cases "releaseClaims S es 0 a d")
    have "I d'" using rel [OF assms(2), of 0 a] run by simp
    then show ?thesis using rel [of d' k b] run by simp
  qed
  show "I (handlePullRequest decode S es body d)"
  proof (cases "Option.bind (decode body) pullRequestEvent")
    case (Some ev)
    obtain action pr where ev: "ev = (action, pr)" by (cases ev)
    obtain k d1 where run: "(if action = ''closed'' \<and> pr_Merged pr
        then (case releaseClaims S es 0 (pr_HeadRef pr) d of (k, d') \<Rightarrow> releaseClaims S es k (pr_HTMLURL pr) d')
        else (0, d)) = (k, d1)" (is "?rel = _") by (cases ?rel)
    have "I (snd ?rel)" using two assms(2) by simp
    then have "I d1" using run by simp
    then show ?thesis
      using Some assms(1) run by (simp add: handlePullRequest_def ev createTaskFromPR_def github_task_def create)
  qed (simp add: handlePullRequest_def assms(2))
  have "I (completeTaskForIssue S es now i d)" for i
  proof (cases "ws_ListTasks S (es 0) no_task_filter d")
    case (Pair res d1)
    have "I d1" using list_tasks [OF assms(1,2), of 0 no_task_filter] Pair by simp
    then show ?thesis
      using complete_each_keeps [of es d1] assms(1) Pair
      by (simp add: completeTaskForIssue_def split: sum.split)
  qed
  then show "I (handleIssues decode S es now body d)"
    using assms by (simp add: handleIssues_def createTaskFromIssue_def github_task_def create split: option.split prod.split)
  show "I (handleDelete decode S es body d)"
    using assms rel by (auto simp: handleDelete_def split: option.split)
qed

lemma ServeHTTP_keeps: "(\<And>k. good (es k)) \<Longrightarrow> I d \<Longrightarrow> I (snd (ServeHTTP decode S es now secret r d))"
  by (auto simp: ServeHTTP_def Let_def handlers_keep split: sum.split)

end

text \<open>The store itself.\<close>

definition hive_store :: "(senv, database) webhook_store" where
  "hive_store = \<lparr>ws_CreateTask = CreateTask, ws_ListTasks = ListTasks, ws_UpdateTask = UpdateTask,
     ws_ListClaims = ListClaims, ws_ReleaseClaim = ReleaseClaim\<rparr>"

lemma hive_store_simps [simp]:
  "ws_CreateTask hive_store = CreateTask" "ws_ListTasks hive_store = ListTasks"
  "ws_UpdateTask hive_store = UpdateTask" "ws_ListClaims hive_store = ListClaims"
  "ws_ReleaseClaim hive_store = ReleaseClaim"
  by (simp_all add: hive_store_def)

interpretation hook: webhook_keeps hive_store db_ok "others_keep db_ok"
  by unfold_locales (simp_all add: task_ops_db_ok ListTasks_keeps UpdateTask_db_ok claim_ops_db_ok)

section \<open>Releasing through the webhook\<close>

lemma distinct_one: "distinct xs \<Longrightarrow> set xs = {x} \<Longrightarrow> xs = [x]"
  by (cases xs; cases "tl xs") auto

lemma filter_active_on:
  assumes "claims_ok db" "r \<noteq> []"
  shows "filter (claim_matches (active_on r)) (db_claims db) = (case holder db r of None \<Rightarrow> [] | Some c \<Rightarrow> [c])"
proof -
  let ?xs = "filter (claim_matches (active_on r)) (db_claims db)"
  have m: "claim_matches (active_on r) c \<longleftrightarrow> c_status c = ClaimStatusActive \<and> c_resource c = r" for c
    using assms(2) by (auto simp: claim_matches_def active_on_def ClaimStatusActive_def)
  have "distinct (map c_id (db_claims db))" using assms(1) by (simp add: claims_ok_def table_ok_def)
  then have d: "distinct ?xs" by (simp add: distinct_map)
  have s: "c \<in> set ?xs \<longleftrightarrow> holder db r = Some c" for c
    using holder_iff [OF assms(1)] by (auto simp: m)
  show ?thesis
  proof (cases "holder db r")
    case None
    then have "set ?xs = {}" using s by auto
    then show ?thesis using None by (simp only: set_empty option.case)
  next
    case (Some c)
    then have "set ?xs = {c}" using s by auto
    then show ?thesis using Some distinct_one [OF d] by simp
  qed
qed

lemma ListClaims_active:
  assumes "quiet E" "claims_ok db" "r \<noteq> []"
  shows "ListClaims E (active_on r) db =
    (Inr (case holder db r of None \<Rightarrow> [] | Some c \<Rightarrow> [finishClaimScan c]), db)"
proof -
  have "select_claims (active_on r) db = (Inr (case holder db r of None \<Rightarrow> [] | Some c \<Rightarrow> [c]), db)"
    unfolding select_claims_def filter_active_on [OF assms(2,3)]
    by (simp add: paginate_def active_on_def order_desc_def split: option.split)
  then show ?thesis
    using assms(1) by (simp add: ListClaims_def query_rows_def calm_access_def quiet_def split: option.split)
qed

lemma releaseClaims_run:
  assumes "\<And>k. quiet (es k)" "claims_ok db" "r \<noteq> []"
    and "\<And>k. at_uuid (sv_tx (es k) 0) 0 \<notin> c_id ` set (db_claims db)"
  shows "claims_ok (snd (releaseClaims hive_store es k r db)) \<and>
    (case holder db r of
       None \<Rightarrow> snd (releaseClaims hive_store es k r db) = db
     | Some c \<Rightarrow> handed_over (in_UTC (at_now (sv_tx (es (Suc k)) 0))) db (snd (releaseClaims hive_store es k r db)) r) \<and>
    (\<forall>s. s \<noteq> r \<longrightarrow> untouched db (snd (releaseClaims hive_store es k r db)) s)"
proof (cases "holder db r")
  case None
  then show ?thesis
    using assms by (simp add: releaseClaims_def ListClaims_active untouched_def)
next
  case (Some c)
  obtain db' where "snd (ReleaseClaim (es (Suc k)) (c_id c) db) = db'" "claims_ok db'"
    "handed_over (in_UTC (at_now (sv_tx (es (Suc k)) 0))) db db' r" "\<forall>s. s \<noteq> r \<longrightarrow> untouched db db' s"
    using release_handover [OF assms(1) assms(2) Some assms(4)] by (metis snd_conv)
  moreover have "cl_ID (finishClaimScan c) = c_id c" by (simp add: finishClaimScan_def)
  ultimately show ?thesis
    using assms Some by (simp add: releaseClaims_def ListClaims_active)
qed

text \<open>
  C31. A deleted branch frees what was claimed for it.  Undisturbed, a delete event for a branch
  releases the active claim on that resource, which passes to the first waiter, and touches no other
  resource.
\<close>

theorem webhook_branch_deleted:
  assumes "\<And>k. quiet (es k)" "claims_ok db" "ref \<noteq> []"
    and "\<And>k. at_uuid (sv_tx (es k) 0) 0 \<notin> c_id ` set (db_claims db)"
    and "decode body = Some (JObj kvs)" "get_str ''ref_type'' kvs = Some ''branch''" "get_str ''ref'' kvs = Some ref"
  shows "case holder db ref of
      None \<Rightarrow> handleDelete decode hive_store es body db = db
    | Some c \<Rightarrow> \<exists>db'. handleDelete decode hive_store es body db = db' \<and> claims_ok db' \<and>
        handed_over (in_UTC (at_now (sv_tx (es 1) 0))) db db' ref \<and> (\<forall>s. s \<noteq> ref \<longrightarrow> untouched db db' s)"
proof -
  have "handleDelete decode hive_store es body db = snd (releaseClaims hive_store es 0 ref db)"
    using assms(5-7) by (simp add: handleDelete_def deleteEvent_def)
  then show ?thesis
    using releaseClaims_run [where es = es and k = 0, OF assms(1-4)]
    by (cases "holder db ref") simp_all
qed

definition delete_payload :: "string \<Rightarrow> json option" where
  "delete_payload body = Some (JObj [(''ref'', JStr body), (''ref_type'', JStr ''branch'')])"

theorem webhook_branch_deleted_witness:
  "map_option c_agent_id (holder (handleDelete delete_payload hive_store
     (\<lambda>_. quiet_senv (demo_time Second) ''c2'') ''repo'' demo_db) ''repo'') = Some ''bob''"
proof -
  have fresh: "at_uuid (sv_tx (quiet_senv (demo_time Second) ''c2'') 0) 0 \<notin> c_id ` set (db_claims demo_db)"
    unfolding demo_db_facts by simp
  have p: "delete_payload ''repo'' = Some (JObj [(''ref'', JStr ''repo''), (''ref_type'', JStr ''branch'')])"
    "get_str ''ref_type'' [(''ref'', JStr ''repo''), (''ref_type'', JStr ''branch'')] = Some ''branch''"
    "get_str ''ref'' [(''ref'', JStr ''repo''), (''ref_type'', JStr ''branch'')] = Some ''repo''"
    by (simp_all add: delete_payload_def get_str_def)
  have r: "''repo'' \<noteq> []" and q: "quiet (quiet_senv (demo_time Second) ''c2'')" by simp_all
  show ?thesis
    using webhook_branch_deleted [where es = "\<lambda>_. quiet_senv (demo_time Second) ''c2''" and
          decode = delete_payload and body = "''repo''",
        OF q demo_db_facts(1) r fresh p] demo_db_facts(2,3)
    by (auto simp: handed_over_def demo_waiter_def waiter_row_def)
qed

section \<open>Signatures\<close>

text \<open>
  C14. With a secret configured, only requests signed with it have any effect.  Whatever the store and the
  environment, a response other than a refusal, or any change at all, needs a POST whose body's
  HMAC-SHA256 under the secret is the one in the header, in hexadecimal after \<^verbatim>\<open>sha256=\<close>; and the header
  a sender with the secret forms is accepted.
\<close>

theorem webhook_authenticated:
  assumes "secret \<noteq> []" "ServeHTTP decode S es now secret r d = (status, d')"
  shows "(status = 200 \<or> d' \<noteq> d \<longrightarrow> wr_Method r = ''POST'' \<and>
      (\<exists>body h. wr_Body r = Inr body \<and> wr_Header r ''X-Hub-Signature-256'' = ''sha256='' @ h \<and>
         hex_DecodeString h = Some (hmac_sha256 secret body))) \<and>
    (wr_Method r = ''POST'' \<and> wr_Body r = Inr body \<and>
       wr_Header r ''X-Hub-Signature-256'' = ''sha256='' @ hex_EncodeToString (hmac_sha256 secret body) \<longrightarrow> status = 200)"
proof -
  have sig: "ValidateSignature body sig secret \<longleftrightarrow>
      (\<exists>h. sig = ''sha256='' @ h \<and> hex_DecodeString h = Some (hmac_sha256 secret body))" for body sig
  proof -
    have "HasPrefix sig ''sha256='' \<longleftrightarrow> (\<exists>h. sig = ''sha256='' @ h)" by (rule HasPrefix_iff)
    then show ?thesis
      by (auto simp: ValidateSignature_def split: option.splits)
  qed
  show ?thesis
    using assms by (auto simp: ServeHTTP_def sig hex_roundtrip split: if_splits sum.splits)
qed

definition signed_request :: "string \<Rightarrow> string \<Rightarrow> string \<Rightarrow> webhook_request" where
  "signed_request secret event body = \<lparr>wr_Method = ''POST'', wr_Body = Inr body,
     wr_Header = (\<lambda>h. if h = ''X-Hub-Signature-256'' then ''sha256='' @ hex_EncodeToString (hmac_sha256 secret body)
        else if h = ''X-GitHub-Event'' then event else [])\<rparr>"

theorem webhook_authenticated_witness:
  "fst (ServeHTTP delete_payload hive_store (\<lambda>_. quiet_senv (demo_time 0) []) (demo_time 0) ''key''
     (signed_request ''key'' ''delete'' ''repo'') demo_db) = 200"
proof -
  obtain status d' where run: "ServeHTTP delete_payload hive_store (\<lambda>_. quiet_senv (demo_time 0) []) (demo_time 0) ''key''
      (signed_request ''key'' ''delete'' ''repo'') demo_db = (status, d')" by (metis prod.exhaust)
  have "''key'' \<noteq> []" by simp
  from webhook_authenticated [OF this run, of "''repo''"] run show ?thesis
    by (simp add: signed_request_def)
qed

section \<open>Closing an issue\<close>

lemma finished_not_working: "TaskStatusDone \<noteq> TaskStatusInProgress"
  by (simp add: TaskStatus_defs)

lemma may_finish: "\<not> invalid_move (closing_update now) r \<longleftrightarrow> t_status r \<in> {TaskStatusInProgress, TaskStatusDone}"
  by (auto simp: invalid_move_def closing_update_def IsValidTransition_def validTransitions_def TaskStatus_defs)

text \<open>One call of the loop: it finishes a task in progress, and only that one.\<close>

lemma closing_step:
  assumes "quiet E" "db_ok db"
  shows "row_at tasks_t i (snd (UpdateTask E j (closing_update now) db)) =
     (case row_at tasks_t i db of
        Some r \<Rightarrow> if i = j \<and> t_status r \<in> {TaskStatusInProgress, TaskStatusDone}
          then Some (updated_task (closing_update now) (in_UTC (at_now (sv_tx E 0))) r) else Some r
      | None \<Rightarrow> None)"
proof (cases "row_at tasks_t j db")
  case None
  then show ?thesis
    using UpdateTask_run [OF assms, of j] by (auto split: option.split)
next
  case (Some r)
  then show ?thesis
    using UpdateTask_run [OF assms, of j "closing_update now"] may_finish [of now r]
    by (auto simp: Let_def row_at_updated split: option.split)
qed

lemma closing_update_row [simp]:
  "t_status (updated_task (closing_update now) n r) = TaskStatusDone"
  "t_session (updated_task (closing_update now) n r) = no_session"
  by (simp_all add: updated_task_def task_set_def closing_update_def)

definition chosen :: "string \<Rightarrow> string \<Rightarrow> Task list \<Rightarrow> bool" where
  "chosen pre i ts \<longleftrightarrow> (\<exists>t \<in> set ts. HasPrefix (ta_Title t) pre \<and> ta_Status t \<noteq> TaskStatusDone \<and> ta_ID t = i)"

lemma complete_each_row:
  assumes "\<And>k. quiet (es k)" "db_ok db" "row_at tasks_t i db = Some r"
  shows "if t_status r \<in> {TaskStatusInProgress, TaskStatusDone} \<and> chosen pre i ts
    then \<exists>r'. row_at tasks_t i (complete_each hive_store es now pre k ts db) = Some r' \<and>
      t_status r' = TaskStatusDone \<and> t_session r' = no_session
    else row_at tasks_t i (complete_each hive_store es now pre k ts db) = Some r"
  using assms(2,3)
proof (induction ts arbitrary: k db r)
  case (Cons t ts)
  let ?sel = "HasPrefix (ta_Title t) pre \<and> ta_Status t \<noteq> TaskStatusDone"
  let ?db = "snd (UpdateTask (es k) (ta_ID t) (closing_update now) db)"
  show ?case
  proof (cases ?sel)
    case True
    have ok: "db_ok ?db" by (rule UpdateTask_db_ok [OF quiet_others_keep [OF assms(1)] Cons.prems(1)])
    have step: "complete_each hive_store es now pre k (t # ts) db = complete_each hive_store es now pre (Suc k) ts ?db"
      using True by simp
    show ?thesis
    proof (cases "i = ta_ID t \<and> t_status r \<in> {TaskStatusInProgress, TaskStatusDone}")
      case hit: True
      then obtain r' where r': "row_at tasks_t i ?db = Some r'" "t_status r' = TaskStatusDone" "t_session r' = no_session"
        using closing_step [OF assms(1) Cons.prems(1), of i k "ta_ID t" now] Cons.prems(2) by simp
      have "chosen pre i (t # ts)" using True hit by (auto simp: chosen_def)
      then show ?thesis
        using Cons.IH [OF ok r'(1), of "Suc k"] r' hit unfolding step by (auto split: if_splits)
    next
      case False
      then have "row_at tasks_t i ?db = Some r"
        using closing_step [OF assms(1) Cons.prems(1), of i k "ta_ID t" now] Cons.prems(2)
        by (cases "i = ta_ID t") auto
      moreover have "t_status r \<in> {TaskStatusInProgress, TaskStatusDone} \<Longrightarrow> chosen pre i (t # ts) = chosen pre i ts"
        using False by (auto simp: chosen_def)
      ultimately show ?thesis
        using Cons.IH [OF ok, of r "Suc k"] unfolding step by (auto split: if_splits)
    qed
  next
    case False
    then have same: "chosen pre i (t # ts) = chosen pre i ts" by (auto simp: chosen_def)
    have "complete_each hive_store es now pre k (t # ts) db = complete_each hive_store es now pre k ts db"
      using False by auto
    then show ?thesis using Cons.IH [OF Cons.prems, of k] by (simp only: same)
  qed
qed (simp add: chosen_def)

lemma bex_nth:
  "length xs = length ys \<Longrightarrow> (\<And>j. j < length ys \<Longrightarrow> P (xs ! j) \<longleftrightarrow> Q (ys ! j)) \<Longrightarrow>
   (\<exists>x \<in> set xs. P x) \<longleftrightarrow> (\<exists>y \<in> set ys. Q y)"
  by (metis in_set_conv_nth)

lemma ListTasks_quiet:
  assumes "quiet E"
  shows "\<exists>ts. ListTasks E f db = (Inr ts, db) \<and>
    (\<forall>pre i. chosen pre i ts \<longleftrightarrow> (\<exists>r \<in> set (paginate 50 (tf_Limit f) (tf_Offset f)
        (order_desc t_created_at (filter (task_matches f) (db_tasks db)))).
      HasPrefix (t_title r) pre \<and> t_status r \<noteq> TaskStatusDone \<and> t_id r = i))"
proof -
  let ?rows = "paginate 50 (tf_Limit f) (tf_Offset f) (order_desc t_created_at (filter (task_matches f) (db_tasks db)))"
  obtain ts where ts: "load_all_notes E 1 (map finishTaskScan ?rows) db = (Inr ts, db)" "length ts = length ?rows"
    "\<forall>j < length ?rows. ta_ID (ts ! j) = t_id (?rows ! j) \<and> ta_Title (ts ! j) = t_title (?rows ! j) \<and>
       ta_Status (ts ! j) = t_status (?rows ! j)"
    using load_all_notes_quiet [OF assms, of 1 "map finishTaskScan ?rows" db] by (auto simp: finishTaskScan_def)
  have "ListTasks E f db = (Inr ts, db)"
    using assms ts(1) by (simp add: ListTasks_def query_rows_def select_tasks_def calm_access_def quiet_def)
  moreover have "chosen pre i ts \<longleftrightarrow> (\<exists>r \<in> set ?rows. HasPrefix (t_title r) pre \<and> t_status r \<noteq> TaskStatusDone \<and> t_id r = i)"
    for pre i
    unfolding chosen_def using ts(2,3) by (intro bex_nth) simp_all
  ultimately show ?thesis by blast
qed

text \<open>
  C32. Closing an issue finishes only what was in progress.  Undisturbed, a close event for issue \<open>n\<close>
  moves a task to done exactly when the task is in progress, is among the fifty latest, and has the
  title of the issue (which also clears its session); every other task keeps its row.  So the task that
  the opening of the issue created, which is open, is not completed by the closing.
\<close>

theorem webhook_close_spec:
  assumes "\<And>k. quiet (es k)" "db_ok db" "row_at tasks_t i db = Some r"
    and "decode body = Some (JObj kvs)" "get_str ''action'' kvs = Some ''closed''"
    and "get_struct decode_issue ''issue'' kvs = Some iss"
  shows "if t_status r = TaskStatusInProgress \<and> HasPrefix (t_title r) (issue_prefix (is_Number iss)) \<and>
      r \<in> set (take 50 (order_desc t_created_at (db_tasks db)))
    then \<exists>r'. row_at tasks_t i (handleIssues decode hive_store es now body db) = Some r' \<and>
      t_status r' = TaskStatusDone \<and> t_session r' = no_session
    else row_at tasks_t i (handleIssues decode hive_store es now body db) = Some r"
proof -
  let ?pre = "issue_prefix (is_Number iss)" and ?rows = "take 50 (order_desc t_created_at (db_tasks db))"
  obtain ts where list: "ListTasks (es 0) no_task_filter db = (Inr ts, db)"
    and chosen: "\<And>i. chosen ?pre i ts \<longleftrightarrow> (\<exists>r \<in> set ?rows. HasPrefix (t_title r) ?pre \<and>
      t_status r \<noteq> TaskStatusDone \<and> t_id r = i)"
    using ListTasks_quiet [OF assms(1), of 0 no_task_filter db]
    by (auto simp: paginate_def no_task_filter_def task_matches_def)
  have run: "handleIssues decode hive_store es now body db =
      complete_each hive_store es (in_UTC now) ?pre 1 ts db"
    using assms(4-6) list by (simp add: handleIssues_def issuesEvent_def completeTaskForIssue_def)
  have r: "t_id r = i" using tasks.row_atD [OF assms(3)] by simp
  have same: "r' = r" if "r' \<in> set ?rows" "t_id r' = i" for r'
  proof -
    have "r' \<in> set (db_tasks db)" using that(1) by (auto dest: in_set_takeD)
    then have "row_at tasks_t i db = Some r'"
      using tasks.row_at_mem [of db r'] assms(2) that(2) by (simp add: db_ok_def)
    then show ?thesis using assms(3) by simp
  qed
  have "chosen ?pre i ts \<longleftrightarrow> r \<in> set ?rows \<and> HasPrefix (t_title r) ?pre \<and> t_status r \<noteq> TaskStatusDone"
    unfolding chosen using same r by blast
  then show ?thesis
    unfolding run using complete_each_row [where es = es and ts = ts and now = "in_UTC now" and k = 1 and pre = ?pre,
        OF assms(1-3)] finished_not_working by (auto split: if_splits)
qed

definition close_payload :: "string \<Rightarrow> json option" where
  "close_payload body = Some (JObj [(''action'', JStr ''closed''), (''issue'', JObj [(''number'', JNum 7)])])"

definition demo_issue :: "string \<Rightarrow> task_row" where
  "demo_issue status = (demo_task ''t1'' status)\<lparr>t_title := ''Issue #7: crash''\<rparr>"

theorem webhook_close_spec_witness:
  "row_at tasks_t ''t1'' (handleIssues close_payload hive_store (\<lambda>_. quiet_senv (demo_time 0) []) (demo_time 0) []
     (empty_db\<lparr>db_tasks := [demo_issue TaskStatusOpen]\<rparr>)) = Some (demo_issue TaskStatusOpen) \<and>
   map_option t_status (row_at tasks_t ''t1'' (handleIssues close_payload hive_store (\<lambda>_. quiet_senv (demo_time 0) [])
     (demo_time 0) [] (empty_db\<lparr>db_tasks := [demo_issue TaskStatusInProgress]\<rparr>))) = Some TaskStatusDone"
proof -
  have q: "quiet (quiet_senv (demo_time 0) [])" by simp
  have ok: "db_ok (empty_db\<lparr>db_tasks := [demo_issue s]\<rparr>)" for s
    by (simp add: db_ok_def table_ok_def notes_ok_def empty_db_def uniq_keys_def List.map_filter_simps)
  have row: "row_at tasks_t ''t1'' (empty_db\<lparr>db_tasks := [demo_issue s]\<rparr>) = Some (demo_issue s)" for s
    by (simp add: row_at_def demo_issue_def demo_task_def)
  have p: "close_payload [] = Some (JObj [(''action'', JStr ''closed''), (''issue'', JObj [(''number'', JNum 7)])])"
    "get_str ''action'' [(''action'', JStr ''closed''), (''issue'', JObj [(''number'', JNum 7)])] = Some ''closed''"
    "get_struct decode_issue ''issue'' [(''action'', JStr ''closed''), (''issue'', JObj [(''number'', JNum 7)])] =
       Some \<lparr>is_Number = 7, is_Title = [], is_Body = [], is_HTMLURL = []\<rparr>"
    by (simp_all add: close_payload_def get_str_def get_struct_def decode_issue_def get_int_def get_num_def)
  have pre: "issue_prefix 7 = ''Issue #7:''" by code_simp
  have t: "HasPrefix (t_title (demo_issue s)) (issue_prefix 7)" "t_status (demo_issue s) = s" for s
    by (simp_all add: demo_issue_def demo_task_def pre HasPrefix_def)
  have ne: "TaskStatusOpen \<noteq> TaskStatusInProgress" by (simp add: TaskStatus_defs)
  show ?thesis
    using webhook_close_spec [where es = "\<lambda>_. quiet_senv (demo_time 0) []" and decode = close_payload and
        body = "[]" and now = "demo_time 0", OF q ok row p, of TaskStatusOpen]
      webhook_close_spec [where es = "\<lambda>_. quiet_senv (demo_time 0) []" and decode = close_payload and
        body = "[]" and now = "demo_time 0", OF q ok row p, of TaskStatusInProgress] t ne
    by (auto simp: order_desc_def)
qed

end
