(* ===== verification/System.thy ===== *)
theory System
  imports ClaimApi TodoApi TaskApi Server Webhook
begin

text \<open>
  The store as the rest of the program sees it: the methods of the \<^verbatim>\<open>Store\<close> interface
  (\<^verbatim>\<open>internal/handlers/handlers.go\<close>), and the databases reachable by calling them in any interleaving.
  A call runs in an environment whose other sessions do, between its statements, whatever the store
  can do; so transactions interleave, fail, and are retried in every way the model of a call allows.
\<close>

section \<open>The methods of the store\<close>

datatype memory_call =
    CallUpsertMemory MemoryEntry | CallGetMemory string | CallListMemory MemoryFilter | CallDeleteMemory string

datatype task_call =
    CallCreateTask Task | CallGetTask string | CallListTasks TaskFilter | CallUpdateTask string TaskUpdate
  | CallDeleteTask string

datatype agent_call =
    CallHeartbeat string "string slice" AgentStatus string string string | CallGetAgent string | CallListAgents
  | CallGenerateAgentToken string

datatype claim_call =
    CallCreateClaim Claim | CallEnqueueClaim ClaimWaiter | CallGetClaim string | CallListClaims ClaimFilter
  | CallReleaseClaim string | CallRenewClaim string gotime | CallExpireOldClaims | CallQueueDepth string

datatype discovery_call =
    CallUpsertChannel DiscoveryChannel | CallGetChannel string | CallListChannels | CallDeleteChannel string
  | CallUpsertRole DiscoveryRole | CallGetRole string | CallListRoles | CallDeleteRole string
  | CallUpsertAgentMeta string DiscoveryAgentMeta | CallGetDiscoveryAgent string | CallListDiscoveryAgents

datatype todo_call =
    CallCreateTodo Todo | CallGetTodo string | CallListTodos TodoFilter | CallUpdateTodo string TodoUpdate
  | CallDeleteTodo string | CallPruneDoneTodos string duration | CallReorderTodos string "string list"

datatype session_call =
    CallCreateCapturedSession CapturedSession | CallGetCapturedSession string
  | CallListCapturedSessions "json \<Rightarrow> string" SessionFilter

datatype store_call =
    OnMemory memory_call | OnTasks task_call | OnAgents agent_call | OnClaims claim_call
  | OnDiscovery discovery_call | OnTodos todo_call | OnSessions session_call

text \<open>The database a call leaves.\<close>

primrec run_memory :: "memory_call \<Rightarrow> senv \<Rightarrow> database \<Rightarrow> database" where
  "run_memory (CallUpsertMemory e) E db = snd (UpsertMemory E e db)"
| "run_memory (CallGetMemory k) E db = snd (GetMemory E k db)"
| "run_memory (CallListMemory f) E db = snd (ListMemory E f db)"
| "run_memory (CallDeleteMemory k) E db = snd (DeleteMemory E k db)"

primrec run_task :: "task_call \<Rightarrow> senv \<Rightarrow> database \<Rightarrow> database" where
  "run_task (CallCreateTask t) E db = snd (CreateTask E t db)"
| "run_task (CallGetTask i) E db = snd (GetTask E i db)"
| "run_task (CallListTasks f) E db = snd (ListTasks E f db)"
| "run_task (CallUpdateTask i upd) E db = snd (UpdateTask E i upd db)"
| "run_task (CallDeleteTask i) E db = snd (DeleteTask E i db)"

primrec run_agent :: "agent_call \<Rightarrow> senv \<Rightarrow> database \<Rightarrow> database" where
  "run_agent (CallHeartbeat i caps st act lv pv) E db = snd (Heartbeat E i caps st act lv pv db)"
| "run_agent (CallGetAgent i) E db = snd (GetAgent E i db)"
| "run_agent CallListAgents E db = snd (ListAgents E db)"
| "run_agent (CallGenerateAgentToken i) E db = snd (GenerateAgentToken E i db)"

primrec run_claim :: "claim_call \<Rightarrow> senv \<Rightarrow> database \<Rightarrow> database" where
  "run_claim (CallCreateClaim c) E db = snd (CreateClaim E c db)"
| "run_claim (CallEnqueueClaim w) E db = snd (EnqueueClaim E w db)"
| "run_claim (CallGetClaim i) E db = snd (GetClaim E i db)"
| "run_claim (CallListClaims f) E db = snd (ListClaims E f db)"
| "run_claim (CallReleaseClaim i) E db = snd (ReleaseClaim E i db)"
| "run_claim (CallRenewClaim i t) E db = snd (RenewClaim E i t db)"
| "run_claim CallExpireOldClaims E db = snd (ExpireOldClaims E db)"
| "run_claim (CallQueueDepth r) E db = snd (QueueDepth E r db)"

primrec run_discovery :: "discovery_call \<Rightarrow> senv \<Rightarrow> database \<Rightarrow> database" where
  "run_discovery (CallUpsertChannel c) E db = snd (UpsertChannel E c db)"
| "run_discovery (CallGetChannel i) E db = snd (GetChannel E i db)"
| "run_discovery CallListChannels E db = snd (ListChannels E db)"
| "run_discovery (CallDeleteChannel i) E db = snd (DeleteChannel E i db)"
| "run_discovery (CallUpsertRole r) E db = snd (UpsertRole E r db)"
| "run_discovery (CallGetRole i) E db = snd (GetRole E i db)"
| "run_discovery CallListRoles E db = snd (ListRoles E db)"
| "run_discovery (CallDeleteRole i) E db = snd (DeleteRole E i db)"
| "run_discovery (CallUpsertAgentMeta i m) E db = snd (UpsertAgentMeta E i m db)"
| "run_discovery (CallGetDiscoveryAgent i) E db = snd (GetDiscoveryAgent E i db)"
| "run_discovery CallListDiscoveryAgents E db = snd (ListDiscoveryAgents E db)"

primrec run_todo :: "todo_call \<Rightarrow> senv \<Rightarrow> database \<Rightarrow> database" where
  "run_todo (CallCreateTodo t) E db = snd (CreateTodo E t db)"
| "run_todo (CallGetTodo i) E db = snd (GetTodo E i db)"
| "run_todo (CallListTodos f) E db = snd (ListTodos E f db)"
| "run_todo (CallUpdateTodo i upd) E db = snd (UpdateTodo E i upd db)"
| "run_todo (CallDeleteTodo i) E db = snd (DeleteTodo E i db)"
| "run_todo (CallPruneDoneTodos a age) E db = snd (PruneDoneTodos E a age db)"
| "run_todo (CallReorderTodos a is) E db = snd (ReorderTodos E a is db)"

text \<open>\<open>jt\<close> is the text PostgreSQL makes of a JSONB value.\<close>

primrec run_session :: "session_call \<Rightarrow> senv \<Rightarrow> database \<Rightarrow> database" where
  "run_session (CallCreateCapturedSession cs) E db = snd (CreateCapturedSession E cs db)"
| "run_session (CallGetCapturedSession i) E db = snd (GetCapturedSession E i db)"
| "run_session (CallListCapturedSessions jt f) E db = snd (ListCapturedSessions jt E f db)"

primrec run_call :: "store_call \<Rightarrow> senv \<Rightarrow> database \<Rightarrow> database" where
  "run_call (OnMemory c) = run_memory c"
| "run_call (OnTasks c) = run_task c"
| "run_call (OnAgents c) = run_agent c"
| "run_call (OnClaims c) = run_claim c"
| "run_call (OnDiscovery c) = run_discovery c"
| "run_call (OnTodos c) = run_todo c"
| "run_call (OnSessions c) = run_session c"

text \<open>
  Reachability, by calls in environments that satisfy \<open>good\<close>.  Being the least such relation, the nesting
  of other sessions' work inside a call is finite.
\<close>

inductive reaches :: "(senv \<Rightarrow> bool) \<Rightarrow> database \<Rightarrow> database \<Rightarrow> bool" for good where
  here: "reaches good d d"
| call: "reaches good d d1 \<Longrightarrow> good E \<Longrightarrow> (\<And>k e. reaches good e (at_others (sv_tx E k) e)) \<Longrightarrow>
    (\<And>k e. reaches good e (ac_others (sv_access E k) e)) \<Longrightarrow> reaches good d (run_call c E d1)"

definition admissible :: "(senv \<Rightarrow> bool) \<Rightarrow> senv \<Rightarrow> bool" where
  "admissible good E \<longleftrightarrow> good E \<and> (\<forall>k e. reaches good e (at_others (sv_tx E k) e)) \<and>
     (\<forall>k e. reaches good e (ac_others (sv_access E k) e))"

lemma reaches_call: "reaches good d d1 \<Longrightarrow> admissible good E \<Longrightarrow> reaches good d (run_call c E d1)"
  by (rule call) (simp_all add: admissible_def)

lemma reaches_trans: "reaches good d1 d2 \<Longrightarrow> reaches good d d1 \<Longrightarrow> reaches good d d2"
  by (induction rule: reaches.induct) (auto intro: call)

lemma quiet_admissible: "quiet E \<Longrightarrow> good E \<Longrightarrow> admissible good E"
  by (simp add: admissible_def here)

text \<open>The calls that are never limited: all but the writes of claims and todos and the creation of tasks.\<close>

fun unrestricted :: "store_call \<Rightarrow> bool" where
  "unrestricted (OnTasks (CallCreateTask t)) = False"
| "unrestricted (OnClaims (CallGetClaim i)) = True"
| "unrestricted (OnClaims (CallListClaims f)) = True"
| "unrestricted (OnClaims (CallQueueDepth r)) = True"
| "unrestricted (OnClaims c) = False"
| "unrestricted (OnTodos (CallGetTodo i)) = True"
| "unrestricted (OnTodos (CallListTodos f)) = True"
| "unrestricted (OnTodos c) = False"
| "unrestricted c = True"

section \<open>What every transaction keeps, every run keeps\<close>

text \<open>
  The interface of an invariant: each transaction body of the store keeps \<open>I\<close>, and so do the two
  statements that run outside one.  Calls of a \<open>good\<close> environment may use their fresh identifier.  Writes of
  tasks, claims and todos may be limited to calls that satisfy \<open>may\<close>.
\<close>

locale guarded_invariant =
  fixes I :: "database \<Rightarrow> bool" and good :: "senv \<Rightarrow> bool" and may :: "store_call \<Rightarrow> bool"
  assumes upsert_memory: "tx_body (UpsertMemory_tx j now) I"
    and delete_memory: "tx_body (DeleteMemory_tx key) I"
    and create_task: "may (OnTasks (CallCreateTask t)) \<Longrightarrow> good E \<Longrightarrow> tx_body (CreateTask_tx (new_task E t) now) I"
    and update_task: "tx_body (UpdateTask_tx i upd) I"
    and delete_task: "tx_body (DeleteTask_tx i) I"
    and heartbeat: "tx_body (Heartbeat_tx arow) I"
    and agent_token: "tx_body (GenerateAgentToken_tx arow) I"
    and create_claim: "may (OnClaims (CallCreateClaim c)) \<Longrightarrow> good E \<Longrightarrow> tx_body (CreateClaim_tx (new_claim E c) now) I"
    and enqueue_claim: "may (OnClaims (CallEnqueueClaim w)) \<Longrightarrow> tx_body (EnqueueClaim_tx (enqueued E w) now) I"
    and release_claim: "may (OnClaims (CallReleaseClaim i)) \<Longrightarrow> tx_body (ReleaseClaim_tx i) I"
    and renew_claim: "may (OnClaims (CallRenewClaim i expiry)) \<Longrightarrow> tx_body (RenewClaim_tx i expiry) I"
    and expire_claims: "may (OnClaims CallExpireOldClaims) \<Longrightarrow> good E \<Longrightarrow> attempts_keep (sv_tx E) ExpireOldClaims_tx I"
    and upsert_channel: "tx_body (UpsertChannel_tx crow) I"
    and delete_channel: "I db \<Longrightarrow> I (snd (sql_delete discovery_channels_t P db))"
    and upsert_role: "tx_body (UpsertRole_tx rrow) I"
    and delete_role: "I db \<Longrightarrow> I (snd (sql_delete discovery_roles_t Q db))"
    and upsert_meta: "tx_body (UpsertAgentMeta_tx i meta) I"
    and create_todo: "may (OnTodos (CallCreateTodo td)) \<Longrightarrow> good E \<Longrightarrow> tx_body (CreateTodo_tx (todo_insert_row (new_todo E td) now)) I"
    and update_todo: "may (OnTodos (CallUpdateTodo i tupd)) \<Longrightarrow> tx_body (UpdateTodo_tx i tupd) I"
    and delete_todo: "may (OnTodos (CallDeleteTodo i)) \<Longrightarrow> tx_body (DeleteTodo_tx i) I"
    and prune_todos: "may (OnTodos (CallPruneDoneTodos a age)) \<Longrightarrow> tx_body (PruneDoneTodos_tx a cutoff) I"
    and reorder_todos: "may (OnTodos (CallReorderTodos a ids)) \<Longrightarrow> tx_body (ReorderTodos_tx a ids) I"
    and create_session: "tx_body (CreateCapturedSession_tx srow) I"
begin

lemma tx_keeps:
  assumes "attempts_keep (sv_tx E) fn I" "others_keep I E" "I db"
  shows "I (snd (RetryTx (sv_tx E) fn c db))"
  by (rule RetryTx_keeps [OF assms(1)]) (use assms(2,3) in \<open>simp_all add: others_keepD(1)\<close>)

lemma case_keeps:
  "I (snd r) \<Longrightarrow> (\<And>x d. I d \<Longrightarrow> I (snd (f x d))) \<Longrightarrow> I (snd (case r of (x, d) \<Rightarrow> f x d))"
  "(\<And>e. I (snd (g e))) \<Longrightarrow> (\<And>x. I (snd (h x))) \<Longrightarrow> I (snd (case s of Inl e \<Rightarrow> g e | Inr x \<Rightarrow> h x))"
  "I (snd u) \<Longrightarrow> (\<And>x. I (snd (v x))) \<Longrightarrow> I (snd (case y of None \<Rightarrow> u | Some x \<Rightarrow> v x))"
  "I (snd u) \<Longrightarrow> I (snd w) \<Longrightarrow> I (snd (if b then u else w))"
  "I d \<Longrightarrow> I (snd (res, d))"
  "(\<And>a b. I (snd (q a b))) \<Longrightarrow> I (snd (case p of (a, b) \<Rightarrow> q a b))"
  by (cases r, simp) (simp_all split: prod.split sum.split option.split)

lemma query_keeps:
  assumes "others_keep I E" "I db"
  shows "I (snd (query_row (sv_access E k) st db))" "I (snd (query_rows s (sv_access E k) st2 db))"
  using assms by (simp_all add: others_keepD(2))

lemma direct_keeps:
  assumes "others_keep I E" "I db" "\<And>d. I d \<Longrightarrow> I (snd (st d))"
  shows "I (snd (exec_direct (sv_access E k) st db))"
  using assms others_keepD(2) [OF assms(1,2)] by (simp add: exec_direct_def Let_def split: commit_fate.split)

lemma memory_keeps: "others_keep I E \<Longrightarrow> I db \<Longrightarrow> I (run_memory c E db)"
  by (cases c; simp only: run_memory.simps UpsertMemory_def GetMemory_def ListMemory_def DeleteMemory_def Let_def;
    (assumption | rule case_keeps tx_keeps query_keeps tx_body_attempts upsert_memory delete_memory)+)

lemma task_keeps: "may (OnTasks c) \<Longrightarrow> good E \<Longrightarrow> others_keep I E \<Longrightarrow> I db \<Longrightarrow> I (run_task c E db)"
  by (cases c; simp only: run_task.simps CreateTask_def UpdateTask_def DeleteTask_def Let_def;
    (assumption | rule case_keeps tx_keeps query_keeps tx_body_attempts GetTask_keeps [where I = I] ListTasks_keeps [where I = I] create_task update_task delete_task)+)

lemma agent_keeps: "others_keep I E \<Longrightarrow> I db \<Longrightarrow> I (run_agent c E db)"
  by (cases c; simp only: run_agent.simps Heartbeat_def ListAgents_def GenerateAgentToken_def Let_def;
    (assumption | rule case_keeps tx_keeps query_keeps tx_body_attempts GetAgent_keeps [where I = I] heartbeat agent_token)+)

lemma claim_keeps: "may (OnClaims c) \<Longrightarrow> good E \<Longrightarrow> others_keep I E \<Longrightarrow> I db \<Longrightarrow> I (run_claim c E db)"
  by (cases c; simp only: run_claim.simps CreateClaim_def EnqueueClaim_def GetClaim_def ListClaims_def ReleaseClaim_def
      RenewClaim_def ExpireOldClaims_def QueueDepth_def Let_def;
    (assumption | rule case_keeps tx_keeps query_keeps expire_claims tx_body_attempts create_claim enqueue_claim release_claim
      renew_claim)+)

lemma discovery_keeps: "others_keep I E \<Longrightarrow> I db \<Longrightarrow> I (run_discovery c E db)"
  by (cases c; simp only: run_discovery.simps UpsertChannel_def GetChannel_def ListChannels_def DeleteChannel_def
      UpsertRole_def GetRole_def ListRoles_def DeleteRole_def UpsertAgentMeta_def GetDiscoveryAgent_def
      ListDiscoveryAgents_def Let_def;
    (assumption | rule case_keeps tx_keeps query_keeps tx_body_attempts direct_keeps upsert_channel delete_channel upsert_role
      delete_role upsert_meta)+)

lemma todo_keeps: "may (OnTodos c) \<Longrightarrow> good E \<Longrightarrow> others_keep I E \<Longrightarrow> I db \<Longrightarrow> I (run_todo c E db)"
  by (cases c; simp only: run_todo.simps CreateTodo_def ListTodos_def UpdateTodo_def DeleteTodo_def PruneDoneTodos_def
      ReorderTodos_def Let_def;
    (assumption | rule case_keeps tx_keeps query_keeps tx_body_attempts GetTodo_keeps [where I = I] create_todo update_todo delete_todo prune_todos reorder_todos)+)

lemma session_keeps: "others_keep I E \<Longrightarrow> I db \<Longrightarrow> I (run_session c E db)"
  by (cases c; simp only: run_session.simps CreateCapturedSession_def GetCapturedSession_def ListCapturedSessions_def Let_def;
    (assumption | rule case_keeps tx_keeps query_keeps tx_body_attempts create_session)+)

lemma call_keeps: "may c \<Longrightarrow> good E \<Longrightarrow> others_keep I E \<Longrightarrow> I db \<Longrightarrow> I (run_call c E db)"
  by (cases c) (simp_all add: memory_keeps task_keeps agent_keeps claim_keeps discovery_keeps todo_keeps session_keeps)

end

text \<open>An invariant of every call, so of every run.\<close>

locale store_invariant = guarded_invariant I good "\<lambda>_. True"
  for I :: "database \<Rightarrow> bool" and good :: "senv \<Rightarrow> bool"
begin

lemma reaches_keeps: "reaches good d d' \<Longrightarrow> I d \<Longrightarrow> I d'"
proof (induction rule: reaches.induct)
  case (call d d1 E c)
  have "others_keep I E" using call by (simp add: others_keep_def)
  then show ?case using call by (simp add: call_keeps)
qed

end

section \<open>Predicates about one table\<close>

lemma frame_stmts:
  assumes "\<And>t d. J (t_put T t d) = J d"
  shows "J (snd (sql_insert T r d)) = J d" "J (snd (sql_update T P f d)) = J d" "J (snd (sql_delete T P d)) = J d"
    "J (snd (sql_upsert T r g d)) = J d"
  by (simp_all add: sql_insert_def sql_update_def sql_delete_def snd_upsert assms)

text \<open>A body that writes other tables keeps what does not depend on them.\<close>

lemma memory_frame:
  assumes "\<And>t d. J (t_put memory_t t d) = J d"
  shows "tx_body (UpsertMemory_tx j now) J" "tx_body (DeleteMemory_tx key) J"
  by ((rule tx_bodyI, unfold UpsertMemory_tx_def DeleteMemory_tx_def Let_def, intro tx_pres;
      simp add: frame_stmts [of J, OF assms]))+

lemma agent_frame:
  assumes "\<And>t d. J (t_put agents_t t d) = J d"
  shows "tx_body (Heartbeat_tx arow) J" "tx_body (GenerateAgentToken_tx arow) J" "tx_body (UpsertAgentMeta_tx i meta) J"
  by ((rule tx_bodyI, unfold Heartbeat_tx_def GenerateAgentToken_tx_def UpsertAgentMeta_tx_def Let_def, intro tx_pres;
      simp add: frame_stmts [of J, OF assms]))+

lemma directory_frame:
  assumes "\<And>t d. J (t_put discovery_channels_t t d) = J d" "\<And>t d. J (t_put discovery_roles_t t d) = J d"
  shows "tx_body (UpsertChannel_tx crow) J" "tx_body (UpsertRole_tx rrow) J"
    "J (snd (sql_delete discovery_channels_t P d)) = J d" "J (snd (sql_delete discovery_roles_t Q d)) = J d"
  by (((rule tx_bodyI, unfold UpsertChannel_tx_def UpsertRole_tx_def, intro tx_pres)?;
      simp add: frame_stmts [of J, OF assms(1)] frame_stmts [of J, OF assms(2)]))+

lemma todo_frame:
  assumes "\<And>t d. J (t_put todos_t t d) = J d"
  shows "tx_body (CreateTodo_tx trow) J" "tx_body (UpdateTodo_tx i upd) J" "tx_body (DeleteTodo_tx i) J"
    "tx_body (PruneDoneTodos_tx a cutoff) J" "tx_body (ReorderTodos_tx a ids) J"
proof -
  note f = frame_stmts [of J, OF assms]
  show "tx_body (CreateTodo_tx trow) J" "tx_body (DeleteTodo_tx i) J" "tx_body (PruneDoneTodos_tx a cutoff) J"
    "tx_body (UpdateTodo_tx i upd) J"
    by ((rule tx_bodyI, unfold CreateTodo_tx_def DeleteTodo_tx_def PruneDoneTodos_tx_def UpdateTodo_tx_def
        todo_set_field_def, intro tx_pres; simp add: f sql_select_def))+
  have "preserves J (reorder_each a now A k ids)" for now A k
    by (induction ids arbitrary: k) (auto intro!: tx_pres simp: f)
  then show "tx_body (ReorderTodos_tx a ids) J"
    by (intro tx_bodyI) (simp add: ReorderTodos_tx_def)
qed

lemma session_frame:
  "(\<And>t d. J (t_put captured_sessions_t t d) = J d) \<Longrightarrow> tx_body (CreateCapturedSession_tx srow) J"
  by (rule tx_bodyI, unfold CreateCapturedSession_tx_def, intro tx_pres; simp add: frame_stmts [of J])

lemma task_frame:
  assumes "\<And>t d. J (t_put tasks_t t d) = J d" "\<And>ns d. J (d\<lparr>db_task_notes := ns\<rparr>) = J d"
    "\<And>ns k d. J (d\<lparr>db_task_notes := ns, db_note_seq := k\<rparr>) = J d"
  shows "tx_body (CreateTask_tx t now) J" "tx_body (UpdateTask_tx i upd) J" "tx_body (DeleteTask_tx i) J"
proof -
  note f = frame_stmts [of J, OF assms(1)]
  have n: "J (snd (sql_insert_note a b c e d)) = J d" for a b c e d
    using assms(3) by (simp add: sql_insert_note_def)
  have x: "J (snd (sql_delete_task a d)) = J d" for a d
    using assms(2) f(3) by (simp add: sql_delete_task_def split: prod.split) (metis snd_conv)
  show "tx_body (CreateTask_tx t now) J" "tx_body (UpdateTask_tx i upd) J" "tx_body (DeleteTask_tx i) J"
    by ((rule tx_bodyI, unfold CreateTask_tx_def UpdateTask_tx_def DeleteTask_tx_def Let_def, intro tx_pres;
        simp add: f n x sql_select_def))+
qed

lemma queue_frame:
  assumes "\<And>t d. J (t_put claim_queue_t t d) = J d"
  shows "tx_body (EnqueueClaim_tx w now) J" "preserves J (PopNextWaiter A r)" "preserves J (sweepExpiredWaiters A now)"
proof -
  note f = frame_stmts [of J, OF assms]
  have st: "preserves J (delete_stale A is)" for A "is"
    by (induction A "is" rule: delete_stale.induct) (auto intro!: tx_pres simp: f)
  show "tx_body (EnqueueClaim_tx w now) J" "preserves J (PopNextWaiter A r)" "preserves J (sweepExpiredWaiters A now)"
    unfolding PopNextWaiter_def sweepExpiredWaiters_def Let_def
    by ((rule tx_bodyI, unfold EnqueueClaim_tx_def)?, intro tx_pres st; simp add: f sql_select_def)+
qed

text \<open>What a pop leads to: a waiter of the resource taken out of the queue, or none.\<close>

lemma pop_leads:
  assumes "\<And>d x. I d \<Longrightarrow> x \<in> set (db_claim_queue d) \<Longrightarrow> q_resource x = r \<Longrightarrow>
      Q (Some (scanWaiterRow x)) (snd (sql_delete claim_queue_t (\<lambda>y. q_id y = q_id x) d))"
    and "\<And>d. I d \<Longrightarrow> Q None d"
  shows "leads I (PopNextWaiter A r) Q I"
proof -
  define R where "R = (\<lambda>(res :: goerr + queue_row) d. I d \<and> (case res of Inl e \<Rightarrow> True | Inr x \<Rightarrow> x \<in> set (db_claim_queue d) \<and> q_resource x = r))"
  have "x \<in> set (db_claim_queue d) \<and> q_resource x = r"
    if "take 1 (order_asc q_queued_at (filter (\<lambda>x. q_resource x = r) (db_claim_queue d))) = x # xs" for x xs d
    using that in_set_takeD [of x 1 "order_asc q_queued_at (filter (\<lambda>x. q_resource x = r) (db_claim_queue d))"] by simp
  then have "leads I (tx_try (tx_row (at_stmt A) (select_waiter r))) R I"
    by (intro leads_simple(4) [where J = I] leads_row) (auto simp: R_def select_waiter_def first_row_def split: list.split)
  moreover have "leads (R res) (case res of
      Inl e \<Rightarrow> if e = ErrNoRows then tx_return None else tx_fail (Wrapped ''pop next waiter'' e)
    | Inr r \<Rightarrow> (let w = scanWaiterRow r in
        tx_then (tx_wrap ''delete queue entry'' (tx_exec (at_stmt A) (sql_delete claim_queue_t (\<lambda>x. q_id x = cw_ID w))))
          (\<lambda>_. tx_return (Some w)))) Q I" for res
  proof (cases res)
    case (Inr x)
    have "leads (R res) (tx_wrap ''delete queue entry'' (tx_exec (at_stmt A) (sql_delete claim_queue_t (\<lambda>y. q_id y = q_id x))))
        (\<lambda>_. Q (Some (scanWaiterRow x))) I"
      by (intro leads_simple(3) leads_exec) (use assms(1) Inr in \<open>force simp: R_def\<close>)
    then show ?thesis using Inr by (auto intro!: leads_then leads_simple(1) simp: scanWaiterRow_def)
  qed (auto intro!: leads_simple(1,2) simp: R_def assms(2))
  ultimately show ?thesis unfolding PopNextWaiter_def by (rule leads_then)
qed

text \<open>
  Releasing a claim and expiring claims keep what holds again once the popped waiter is a claim; what holds in between is \<open>Q\<close>.
  A promotion that fails aborts the transaction, whether or not the code passes over the error.
\<close>

lemma release_promotes:
  assumes "\<And>A r. leads I (PopNextWaiter A r) Q I" "\<And>d. Q None d \<Longrightarrow> I d"
    and "\<And>d i now w. Q (Some w) d \<Longrightarrow> may_insert claims_t (promoted_row i now w) d \<Longrightarrow>
      I (d\<lparr>db_claims := db_claims d @ [promoted_row i now w]\<rparr>)"
    and "\<And>d now. I d \<Longrightarrow> I (snd (sql_update claims_t (\<lambda>r. c_id r = j)
      (\<lambda>r. r\<lparr>c_status := ClaimStatusReleased, c_updated_at := now\<rparr>) d))"
  shows "tx_body (ReleaseClaim_tx j) I"
proof (rule tx_bodyI)
  have promote: "preserves I (tx_then (tx_wrap s (PopNextWaiter A r)) (\<lambda>nxt. case nxt of
      None \<Rightarrow> tx_return (x, None)
    | Some w \<Rightarrow> tx_then (tx_exec (at_stmt A) (sql_insert claims_t (promoted_row (at_uuid A 0) now w))) (\<lambda>_. tx_return (x, Some w))))"
    for A r s now and x :: "Claim option"
    unfolding preserves_leads
    by (rule leads_then [OF leads_simple(3) [OF assms(1)]])
      (auto intro!: leads_then [where Q = "\<lambda>_. I"] leads_exec leads_simple(1) simp: sql_insert_def assms(2,3) split: option.split if_splits)
  show "preserves I (ReleaseClaim_tx j A c)" for A c
    unfolding ReleaseClaim_tx_def Let_def
    by (intro preserves_then preserves_cases preserves_simple preserves_exec preserves_row promote)
      (simp_all add: assms(4) sql_select_def)
qed

lemma expire_promotes:
  assumes "\<And>r. leads I (PopNextWaiter A r) Q I" "\<And>d. Q None d \<Longrightarrow> I d"
    and "\<And>d i now w. Q (Some w) d \<Longrightarrow> may_insert claims_t (promoted_row i now w) d \<Longrightarrow>
      I (d\<lparr>db_claims := db_claims d @ [promoted_row i now w]\<rparr>)"
    and "\<And>d now. I d \<Longrightarrow> I (snd (sql_update claims_t (overdue now)
      (\<lambda>r. r\<lparr>c_status := ClaimStatusExpired, c_updated_at := now\<rparr>) d))"
    and "preserves I (sweepExpiredWaiters A (in_UTC (at_now A)))"
  shows "preserves I (ExpireOldClaims_tx A c)"
proof -
  have each: "preserves I (promote_each A now k rs)" for now k rs
  proof (induction rs arbitrary: k)
    case (Cons r rs)
    have "leads I (tx_try (PopNextWaiter A r)) (\<lambda>res d. case res of Inl e \<Rightarrow> I d | Inr x \<Rightarrow> Q x d) I"
      by (rule leads_simple(4) [where J = I]) (simp_all add: assms(1))
    moreover have "leads (\<lambda>d. case res of Inl e \<Rightarrow> I d | Inr x \<Rightarrow> Q x d) (case res of
          Inr (Some w) \<Rightarrow> tx_then (tx_try (tx_exec (at_stmt A) (sql_insert claims_t (promoted_row (at_uuid A k) now w))))
            (\<lambda>_. promote_each A now (Suc k) rs)
        | _ \<Rightarrow> promote_each A now (Suc k) rs) (\<lambda>_. I) I" for res
      using Cons.IH [of "Suc k", unfolded preserves_leads]
      by (auto intro!: leads_then [where Q = "\<lambda>_. I"] leads_exec leads_simple(4) [where J = "\<lambda>_. False"]
        simp: sql_insert_def assms(2,3) split: sum.split option.split if_splits elim: leads_pre)
    ultimately show ?case unfolding promote_each.simps preserves_leads by (rule leads_then)
  qed (simp add: preserves_simple)
  show ?thesis unfolding ExpireOldClaims_tx_def Let_def
    by (intro preserves_then preserves_simple preserves_exec each assms(5)) (simp_all add: assms(4) select_overdue_def)
qed

text \<open>For what does not depend on the queue.\<close>

lemma promotions_frame:
  assumes "\<And>t d. J (t_put claim_queue_t t d) = J d"
    and "\<And>d i now w. J d \<Longrightarrow> J (snd (sql_insert claims_t (promoted_row i now w) d))"
    and "\<And>P s now d. s \<in> {ClaimStatusReleased, ClaimStatusExpired} \<Longrightarrow> J d \<Longrightarrow>
      J (snd (sql_update claims_t P (\<lambda>r. r\<lparr>c_status := s, c_updated_at := now\<rparr>) d))"
  shows "tx_body (ReleaseClaim_tx j) J" "tx_body ExpireOldClaims_tx J"
proof -
  have pop: "leads J (PopNextWaiter A r) (\<lambda>_. J) J" for A r
    using queue_frame(2) [of J, OF assms(1)] by (simp add: preserves_leads)
  have ins: "J (d\<lparr>db_claims := db_claims d @ [promoted_row i now w]\<rparr>)"
    if "J d" "may_insert claims_t (promoted_row i now w) d" for d i now w
    using assms(2) [OF that(1), of i now w] that(2) by (simp add: sql_insert_def)
  show "tx_body (ReleaseClaim_tx j) J"
    by (rule release_promotes [OF pop _ ins]) (simp_all add: assms(3))
  show "tx_body ExpireOldClaims_tx J"
    by (rule tx_bodyI, rule expire_promotes [OF pop _ ins]) (simp_all add: assms(3) queue_frame(3) [of J, OF assms(1)])
qed

lemma tx_body_conj:
  "tx_body fn I \<Longrightarrow> tx_body fn J \<Longrightarrow> tx_body fn (\<lambda>d. I d \<and> J d)"
  by (auto simp: tx_body_def)

section \<open>The invariants\<close>

text \<open>Well-formedness.\<close>

interpretation wf: store_invariant db_ok "\<lambda>_. True"
  by unfold_locales
    (simp_all add: stmt_simps upsert_memory.tx_body_axioms delete_memory.tx_body_axioms create_task.tx_body_axioms
      update_task.tx_body_axioms delete_task.tx_body_axioms heartbeat.tx_body_axioms agent_token.tx_body_axioms
      create_claim.tx_body_axioms enqueue_claim.tx_body_axioms release_claim.tx_body_axioms
      renew_claim.tx_body_axioms expire_claims.tx_body_axioms upsert_channel.tx_body_axioms
      upsert_role.tx_body_axioms upsert_meta.tx_body_axioms create_todo.tx_body_axioms update_todo.tx_body_axioms
      delete_todo.tx_body_axioms prune_todos.tx_body_axioms reorder_todos.tx_body_axioms create_session.tx_body_axioms)

text \<open>The agent of a claim never changes, and claims are never deleted.\<close>

lemma claim_owned_insert: "claim_owned i a d \<Longrightarrow> claim_owned i a (snd (sql_insert claims_t r d))"
  by (auto simp: claim_owned_def sql_insert_def row_at_def find_snoc)

lemma claim_owned_update:
  assumes "\<And>r. P r \<Longrightarrow> c_id (f r) = c_id r" "\<And>r. c_agent_id (f r) = c_agent_id r" "claim_owned i a d"
  shows "claim_owned i a (snd (sql_update claims_t P f d))"
proof -
  obtain c where c: "row_at claims_t i d = Some c" "c_agent_id c = a" using assms(3) by (auto simp: claim_owned_def)
  have "row_at claims_t i (snd (sql_update claims_t P f d)) = Some (if P c then f c else c)"
    using claims.row_at_update [of P f i d] c(1) assms(1) by simp
  then show ?thesis using c(2) assms(2) by (simp add: claim_owned_def)
qed

lemma claim_owned_frame:
  "claim_owned i a (d\<lparr>db_memory := m\<rparr>) = claim_owned i a d" "claim_owned i a (d\<lparr>db_tasks := ts\<rparr>) = claim_owned i a d"
  "claim_owned i a (d\<lparr>db_task_notes := ns\<rparr>) = claim_owned i a d"
  "claim_owned i a (d\<lparr>db_task_notes := ns, db_note_seq := k\<rparr>) = claim_owned i a d"
  "claim_owned i a (d\<lparr>db_agents := as\<rparr>) = claim_owned i a d"
  "claim_owned i a (d\<lparr>db_discovery_channels := cs\<rparr>) = claim_owned i a d"
  "claim_owned i a (d\<lparr>db_discovery_roles := rs\<rparr>) = claim_owned i a d"
  "claim_owned i a (d\<lparr>db_claim_queue := qs\<rparr>) = claim_owned i a d" "claim_owned i a (d\<lparr>db_todos := td\<rparr>) = claim_owned i a d"
  "claim_owned i a (d\<lparr>db_captured_sessions := ss\<rparr>) = claim_owned i a d"
  by (simp_all add: claim_owned_def row_at_def)

lemma claim_owned_bodies:
  "tx_body (CreateClaim_tx c now) (claim_owned i a)" "tx_body (ReleaseClaim_tx j) (claim_owned i a)"
  "tx_body (RenewClaim_tx j e) (claim_owned i a)" "tx_body ExpireOldClaims_tx (claim_owned i a)"
proof -
  show "tx_body (CreateClaim_tx c now) (claim_owned i a)"
    by (rule tx_bodyI, unfold CreateClaim_tx_def, intro tx_pres) (rule claim_owned_insert)
  show "tx_body (RenewClaim_tx j e) (claim_owned i a)"
    by (rule tx_bodyI, unfold RenewClaim_tx_def Let_def, intro tx_pres) (simp_all add: claim_owned_update)
  show "tx_body (ReleaseClaim_tx j) (claim_owned i a)" "tx_body ExpireOldClaims_tx (claim_owned i a)"
    by (rule promotions_frame; simp add: claim_owned_insert claim_owned_update claim_owned_frame)+
qed

interpretation owned: store_invariant "claim_owned i a" "\<lambda>_. True" for i a
  by (rule store_invariant.intro, rule guarded_invariant.intro)
    (simp_all add: claim_owned_bodies claim_owned_frame memory_frame task_frame agent_frame directory_frame
      todo_frame session_frame queue_frame)

end
