(* ===== verification/Guarantees.thy ===== *)
theory Guarantees
  imports System
begin

text \<open>
  What the whole store guarantees along every run: the invariants of \<^verbatim>\<open>internal/store\<close> and the refusals
  of \<^verbatim>\<open>internal/handlers\<close>, over the databases reachable by calls of the store in any interleaving.
\<close>

section \<open>More invariants\<close>

text \<open>The agent of a todo never changes; the identifier of a new todo is fresh.\<close>

lemma todo_owned_subset: "set (db_todos d') \<subseteq> set (db_todos d) \<Longrightarrow> todo_owned i a d \<Longrightarrow> todo_owned i a d'"
  by (auto simp: todo_owned_def)

lemma todo_owned_update:
  assumes "\<And>r. d_id (f r) = d_id r" "\<And>r. d_agent_id (f r) = d_agent_id r" "todo_owned i a d"
  shows "todo_owned i a (snd (sql_update todos_t P f d))"
  using assms by (auto simp: todo_owned_def sql_update_def)

lemma todo_owned_delete: "todo_owned i a d \<Longrightarrow> todo_owned i a (snd (sql_delete todos_t P d))"
  by (rule todo_owned_subset) (auto simp: sql_delete_def)

lemma todo_owned_frame:
  "todo_owned i a (d\<lparr>db_memory := m\<rparr>) = todo_owned i a d" "todo_owned i a (d\<lparr>db_tasks := ts\<rparr>) = todo_owned i a d"
  "todo_owned i a (d\<lparr>db_task_notes := ns\<rparr>) = todo_owned i a d"
  "todo_owned i a (d\<lparr>db_task_notes := ns, db_note_seq := k\<rparr>) = todo_owned i a d"
  "todo_owned i a (d\<lparr>db_agents := as\<rparr>) = todo_owned i a d"
  "todo_owned i a (d\<lparr>db_discovery_channels := cs\<rparr>) = todo_owned i a d"
  "todo_owned i a (d\<lparr>db_discovery_roles := rs\<rparr>) = todo_owned i a d"
  "todo_owned i a (d\<lparr>db_claim_queue := qs\<rparr>) = todo_owned i a d" "todo_owned i a (d\<lparr>db_claims := cl\<rparr>) = todo_owned i a d"
  "todo_owned i a (d\<lparr>db_captured_sessions := ss\<rparr>) = todo_owned i a d"
  by (simp_all add: todo_owned_def)

lemma todo_owned_bodies:
  "d_id r \<noteq> i \<Longrightarrow> tx_body (CreateTodo_tx r) (todo_owned i a)" "tx_body (UpdateTodo_tx j upd) (todo_owned i a)"
  "tx_body (DeleteTodo_tx j) (todo_owned i a)" "tx_body (PruneDoneTodos_tx ag cutoff) (todo_owned i a)"
  "tx_body (ReorderTodos_tx ag ids) (todo_owned i a)"
proof -
  show "tx_body (CreateTodo_tx r) (todo_owned i a)" if "d_id r \<noteq> i"
    by (rule tx_bodyI, unfold CreateTodo_tx_def, intro tx_pres)
      (use that in \<open>auto simp: todo_owned_def sql_insert_def\<close>)
  show "tx_body (UpdateTodo_tx j upd) (todo_owned i a)" "tx_body (DeleteTodo_tx j) (todo_owned i a)"
    "tx_body (PruneDoneTodos_tx ag cutoff) (todo_owned i a)"
    by ((rule tx_bodyI, unfold UpdateTodo_tx_def DeleteTodo_tx_def PruneDoneTodos_tx_def todo_set_field_def,
        intro tx_pres; simp add: todo_owned_update todo_owned_delete sql_select_def))+
  have "preserves (todo_owned i a) (reorder_each ag now A k ids)" for now A k
    by (induction ids arbitrary: k) (auto intro!: tx_pres simp: todo_owned_update)
  then show "tx_body (ReorderTodos_tx ag ids) (todo_owned i a)"
    by (intro tx_bodyI) (simp add: ReorderTodos_tx_def)
qed

lemma claims_frame:
  assumes "\<And>t d. J (t_put claims_t t d) = J d" "\<And>t d. J (t_put claim_queue_t t d) = J d"
  shows "tx_body (CreateClaim_tx c now) J" "tx_body (ReleaseClaim_tx j) J" "tx_body (RenewClaim_tx j e) J"
    "tx_body ExpireOldClaims_tx J"
proof -
  note f = frame_stmts [of J, OF assms(1)]
  show "tx_body (CreateClaim_tx c now) J" "tx_body (RenewClaim_tx j e) J"
    by ((rule tx_bodyI, unfold CreateClaim_tx_def RenewClaim_tx_def Let_def, intro tx_pres; simp add: f))+
  show "tx_body (ReleaseClaim_tx j) J" "tx_body ExpireOldClaims_tx J"
    by (rule promotions_frame [of J, OF assms(2)]; simp add: f)+
qed

interpretation todo_own: store_invariant "todo_owned i a" "\<lambda>E. sv_uuid E \<noteq> i" for i a
  by (rule store_invariant.intro, rule guarded_invariant.intro)
    (simp_all add: todo_owned_bodies todo_owned_frame memory_frame task_frame agent_frame directory_frame
      claims_frame session_frame queue_frame todo_insert_row_def new_todo_def Let_def)

text \<open>The statuses a task can take.\<close>

definition status_of :: "string \<Rightarrow> TaskStatus set \<Rightarrow> database \<Rightarrow> bool" where
  "status_of i S d \<longleftrightarrow> (\<forall>r. row_at tasks_t i d = Some r \<longrightarrow> t_status r \<in> S)"

lemma status_frame:
  "status_of i S (d\<lparr>db_memory := m\<rparr>) = status_of i S d" "status_of i S (d\<lparr>db_agents := as\<rparr>) = status_of i S d"
  "status_of i S (d\<lparr>db_discovery_channels := cs\<rparr>) = status_of i S d"
  "status_of i S (d\<lparr>db_discovery_roles := rs\<rparr>) = status_of i S d"
  "status_of i S (d\<lparr>db_claim_queue := qs\<rparr>) = status_of i S d" "status_of i S (d\<lparr>db_claims := cl\<rparr>) = status_of i S d"
  "status_of i S (d\<lparr>db_todos := td\<rparr>) = status_of i S d" 
  "status_of i S (d\<lparr>db_captured_sessions := ss\<rparr>) = status_of i S d"
  "status_of i S (d\<lparr>db_task_notes := ns\<rparr>) = status_of i S d"
  "status_of i S (d\<lparr>db_task_notes := ns, db_note_seq := k\<rparr>) = status_of i S d"
  by (simp_all add: status_of_def row_at_def)

lemma status_in_of: "status_in i S = (\<lambda>d. db_ok d \<and> status_of i S d)"
  by (simp add: fun_eq_iff status_in_def status_of_def)

lemma status_bodies:
  "ta_ID t \<noteq> i \<Longrightarrow> tx_body (CreateTask_tx t now) (status_of i S)" "tx_body (DeleteTask_tx j) (status_of i S)"
proof -
  show "tx_body (CreateTask_tx t now) (status_of i S)" if "ta_ID t \<noteq> i"
    by (rule tx_bodyI, unfold CreateTask_tx_def, intro tx_pres)
      (use that in \<open>auto simp: status_of_def sql_insert_def row_at_def find_snoc task_insert_row_def split: option.splits\<close>)
  have "status_of i S (snd (sql_delete_task j d))" if "status_of i S d" for d
    using that tasks.row_at_delete_key [of i j d] 
    by (auto simp: sql_delete_task_def status_of_def row_at_def split: prod.split if_splits)
  then show "tx_body (DeleteTask_tx j) (status_of i S)"
    by (intro tx_bodyI, unfold DeleteTask_tx_def, intro tx_pres) simp_all
qed

text \<open>A set of statuses closed under the allowed moves.\<close>

lemma status_store_invariant:
  assumes "closed_statuses S"
  shows "store_invariant (\<lambda>d. db_ok d \<and> status_of i S d) (\<lambda>E. sv_uuid E \<noteq> i)"
proof -
  have up: "tx_body (UpdateTask_tx j upd) (\<lambda>d. db_ok d \<and> status_of i S d)" for j upd
    using status_body [OF assms, where i = i] by (simp add: status_in_of)
  note wf_facts = wf.upsert_memory wf.delete_memory create_task.tx_body_axioms wf.delete_task wf.heartbeat wf.agent_token wf.create_claim
    wf.enqueue_claim wf.release_claim wf.renew_claim expire_claims.tx_body_axioms wf.upsert_channel wf.upsert_role wf.upsert_meta
    wf.create_todo wf.update_todo wf.delete_todo wf.prune_todos wf.reorder_todos wf.create_session
  show ?thesis
    by (rule store_invariant.intro, rule guarded_invariant.intro)
      (simp_all add: up wf_facts [simplified] tx_body_conj wf.delete_channel wf.delete_role status_bodies status_frame memory_frame agent_frame directory_frame
        claims_frame session_frame queue_frame todo_frame new_task_def Let_def)
qed

lemma reachable_statuses_closed: "closed_statuses {t. IsValidTransition\<^sup>*\<^sup>* s t}"
  by (auto simp: closed_statuses_def)

interpretation task_runs: store_invariant "\<lambda>d. db_ok d \<and> status_of i {t. IsValidTransition\<^sup>*\<^sup>* s t} d"
    "\<lambda>E. sv_uuid E \<noteq> i" for i s
  by (rule status_store_invariant) (rule reachable_statuses_closed)

lemma final_stays: "IsValidTransition\<^sup>*\<^sup>* s t \<Longrightarrow> validTransitions s = None \<Longrightarrow> t = s"
proof (induction rule: converse_rtranclp_induct)
  case (step y z)
  then have "y = z" by (auto simp: IsValidTransition_def split: if_splits)
  then show ?case using step by simp
qed simp

text \<open>The statuses of all claims, and of all tasks.\<close>

definition claim_statuses :: "string set" where
  "claim_statuses = {ClaimStatusActive, ClaimStatusReleased, ClaimStatusExpired}"

definition claims_typed :: "database \<Rightarrow> bool" where
  "claims_typed d \<longleftrightarrow> (\<forall>c \<in> set (db_claims d). c_status c \<in> claim_statuses)"

lemma claim_statuses [simp]:
  "ClaimStatusActive \<in> claim_statuses" "ClaimStatusReleased \<in> claim_statuses" "ClaimStatusExpired \<in> claim_statuses"
  by (simp_all add: claim_statuses_def)

lemma claims_typed_stmts:
  "claims_typed d \<Longrightarrow> c_status c \<in> claim_statuses \<Longrightarrow> claims_typed (snd (sql_insert claims_t c d))"
  "claims_typed d \<Longrightarrow> (\<And>r. P r \<Longrightarrow> c_status (f r) \<in> claim_statuses \<or> c_status (f r) = c_status r) \<Longrightarrow>
     claims_typed (snd (sql_update claims_t P f d))"
  by (auto simp: claims_typed_def sql_insert_def sql_update_def) metis

lemma claims_typed_frame:
  "claims_typed (d\<lparr>db_memory := m\<rparr>) = claims_typed d" "claims_typed (d\<lparr>db_tasks := ts\<rparr>) = claims_typed d"
  "claims_typed (d\<lparr>db_task_notes := ns\<rparr>) = claims_typed d"
  "claims_typed (d\<lparr>db_task_notes := ns, db_note_seq := k\<rparr>) = claims_typed d"
  "claims_typed (d\<lparr>db_agents := as\<rparr>) = claims_typed d"
  "claims_typed (d\<lparr>db_discovery_channels := cs\<rparr>) = claims_typed d"
  "claims_typed (d\<lparr>db_discovery_roles := rs\<rparr>) = claims_typed d"
  "claims_typed (d\<lparr>db_claim_queue := qs\<rparr>) = claims_typed d" "claims_typed (d\<lparr>db_todos := td\<rparr>) = claims_typed d"
  "claims_typed (d\<lparr>db_captured_sessions := ss\<rparr>) = claims_typed d"
  by (simp_all add: claims_typed_def)

lemma claims_typed_bodies:
  "cl_Status c = ClaimStatusActive \<Longrightarrow> tx_body (CreateClaim_tx c now) claims_typed"
  "tx_body (ReleaseClaim_tx j) claims_typed" "tx_body (RenewClaim_tx j e) claims_typed"
  "tx_body ExpireOldClaims_tx claims_typed"
proof -
  show "tx_body (CreateClaim_tx c now) claims_typed" if "cl_Status c = ClaimStatusActive"
    by (rule tx_bodyI, unfold CreateClaim_tx_def, intro tx_pres)
      (use that in \<open>simp add: claims_typed_stmts claim_insert_row_def\<close>)
  show "tx_body (RenewClaim_tx j e) claims_typed"
    by (rule tx_bodyI, unfold RenewClaim_tx_def Let_def, intro tx_pres) (simp_all add: claims_typed_stmts)
  show "tx_body (ReleaseClaim_tx j) claims_typed" "tx_body ExpireOldClaims_tx claims_typed"
    by (rule promotions_frame; auto simp: claims_typed_stmts claims_typed_frame promoted_row_def)+
qed

interpretation typed_claims: store_invariant claims_typed "\<lambda>_. True"
  by (rule store_invariant.intro, rule guarded_invariant.intro)
    (simp_all add: claims_typed_bodies claims_typed_frame memory_frame task_frame agent_frame directory_frame
      todo_frame session_frame queue_frame new_claim_def Let_def)

definition task_statuses :: "TaskStatus set" where
  "task_statuses = {TaskStatusOpen, TaskStatusClaimed, TaskStatusInProgress, TaskStatusDone, TaskStatusFailed,
     TaskStatusCancelled}"

definition tasks_typed :: "database \<Rightarrow> bool" where
  "tasks_typed d \<longleftrightarrow> (\<forall>i. status_of i task_statuses d)"

lemma task_statuses_closed: "closed_statuses task_statuses"
proof -
  have "set l \<subseteq> task_statuses" if "validTransitions a = Some l" for a l
    using that by (auto simp: validTransitions_def task_statuses_def split: if_splits)
  then show ?thesis
    by (auto simp: closed_statuses_def IsValidTransition_def split: if_splits option.splits)
qed

lemma tasks_typed_create: "ta_Status t = TaskStatusOpen \<Longrightarrow> tx_body (CreateTask_tx t now) tasks_typed"
  by (rule tx_bodyI, unfold CreateTask_tx_def, intro tx_pres)
    (auto simp: tasks_typed_def status_of_def sql_insert_def row_at_def find_snoc task_insert_row_def task_statuses_def
      split: option.splits)

lemma tasks_typed_update: "tx_body (UpdateTask_tx j upd) (\<lambda>d. db_ok d \<and> tasks_typed d)"
proof -
  have "tx_body (UpdateTask_tx j upd) (\<lambda>d. db_ok d \<and> status_of i task_statuses d)" for i
    using status_body [OF task_statuses_closed, where i = i] by (simp add: status_in_of)
  then show ?thesis unfolding tx_body_def tasks_typed_def by blast
qed

lemma tasks_typed_frame:
  "tasks_typed (d\<lparr>db_memory := m\<rparr>) = tasks_typed d" "tasks_typed (d\<lparr>db_agents := as\<rparr>) = tasks_typed d"
  "tasks_typed (d\<lparr>db_discovery_channels := cs\<rparr>) = tasks_typed d"
  "tasks_typed (d\<lparr>db_discovery_roles := rs\<rparr>) = tasks_typed d"
  "tasks_typed (d\<lparr>db_claim_queue := qs\<rparr>) = tasks_typed d" "tasks_typed (d\<lparr>db_claims := cl\<rparr>) = tasks_typed d"
  "tasks_typed (d\<lparr>db_todos := td\<rparr>) = tasks_typed d" "tasks_typed (d\<lparr>db_captured_sessions := ss\<rparr>) = tasks_typed d"
  by (simp_all add: tasks_typed_def status_frame)

lemma tasks_typed_delete: "tx_body (DeleteTask_tx j) tasks_typed"
  using status_bodies(2) [of j _ task_statuses] unfolding tx_body_def tasks_typed_def by blast

interpretation typed_tasks: store_invariant "\<lambda>d. db_ok d \<and> tasks_typed d" "\<lambda>_. True"
proof -
  note wf_facts = wf.upsert_memory wf.delete_memory create_task.tx_body_axioms wf.delete_task wf.heartbeat wf.agent_token
    wf.create_claim wf.enqueue_claim wf.release_claim wf.renew_claim expire_claims.tx_body_axioms wf.upsert_channel wf.upsert_role
    wf.upsert_meta wf.create_todo wf.update_todo wf.delete_todo wf.prune_todos wf.reorder_todos wf.create_session
  show "store_invariant (\<lambda>d. db_ok d \<and> tasks_typed d) (\<lambda>_. True)"
    by (rule store_invariant.intro, rule guarded_invariant.intro)
      (simp_all add: tasks_typed_update wf_facts [simplified] tx_body_conj wf.delete_channel wf.delete_role tasks_typed_create
        tasks_typed_delete tasks_typed_frame memory_frame agent_frame directory_frame claims_frame session_frame
        queue_frame todo_frame new_task_def Let_def)
qed

section \<open>The guarantees\<close>

lemma empty_wf: "db_ok empty_db" "claims_typed empty_db" "tasks_typed empty_db"
  by (simp_all add: db_ok_def table_ok_def notes_ok_def empty_db_def uniq_keys_def claims_typed_def tasks_typed_def
      status_of_def row_at_def)

lemma row_of_task:
  assumes "db_ok d" "t \<in> set (db_tasks d)"
  shows "row_at tasks_t (t_id t) d = Some t"
proof -
  obtain x where x: "row_at tasks_t (t_id t) d = Some x"
    using assms(2) tasks.row_at_None [of "t_id t" d] by (cases "row_at tasks_t (t_id t) d") auto
  have "inj_on t_id (set (db_tasks d))"
    using assms(1) by (simp add: db_ok_def table_ok_def distinct_map)
  then show ?thesis using tasks.row_atD [OF x] x assms(2) by (auto dest: inj_onD)
qed

lemma map_filter_if: "List.map_filter (\<lambda>r. if P r then Some (f r) else None) xs = map f (filter P xs)"
  by (induction xs) (simp_all add: List.map_filter_simps)

text \<open>
  C1. Every database the server can reach, whatever calls run interleaved, fail or are retried, is
  consistent: identifiers are unique, a resource has at most one active claim, and every note belongs to
  a task.
\<close>

theorem reachable_stores_consistent:
  assumes "reaches (\<lambda>_. True) empty_db db"
  shows "distinct (map c_id (db_claims db)) \<and>
    distinct (map c_resource (filter (\<lambda>c. c_status c = ClaimStatusActive) (db_claims db))) \<and>
    distinct (map q_id (db_claim_queue db)) \<and> distinct (map t_id (db_tasks db)) \<and>
    distinct (map d_id (db_todos db)) \<and> distinct (map a_id (db_agents db)) \<and> distinct (map m_key (db_memory db)) \<and>
    (\<forall>n \<in> set (db_task_notes db). n_task_id n \<in> t_id ` set (db_tasks db))"
proof -
  have "db_ok db" by (rule wf.reaches_keeps [OF assms empty_wf(1)])
  then show ?thesis by (simp add: db_ok_def table_ok_def notes_ok_def uniq_keys_def map_filter_if)
qed

theorem reachable_stores_consistent_witness:
  "distinct (map c_resource (filter (\<lambda>c. c_status c = ClaimStatusActive) (db_claims
     (run_call (OnClaims (CallCreateClaim (demo_claim ''bob''))) (quiet_senv (demo_time 1) ''c2'')
       (run_call (OnClaims (CallCreateClaim (demo_claim ''ann''))) (quiet_senv (demo_time 0) ''c1'') empty_db)))))"
proof -
  have "reaches (\<lambda>_. True) empty_db
     (run_call (OnClaims (CallCreateClaim (demo_claim ''bob''))) (quiet_senv (demo_time 1) ''c2'')
       (run_call (OnClaims (CallCreateClaim (demo_claim ''ann''))) (quiet_senv (demo_time 0) ''c1'') empty_db))"
    by (rule reaches_call [OF reaches_call [OF here quiet_admissible] quiet_admissible]) simp_all
  from reachable_stores_consistent [OF this] show ?thesis by blast
qed

text \<open>
  C27. The status columns stay within their types: in every reachable database a claim is active, released
  or expired and a task has one of the six statuses, although no check constraint of the schema and no
  check of the store says so.
\<close>

theorem reachable_statuses_typed:
  assumes "reaches (\<lambda>_. True) empty_db db"
  shows "(\<forall>c \<in> set (db_claims db). c_status c \<in> {ClaimStatusActive, ClaimStatusReleased, ClaimStatusExpired}) \<and>
    (\<forall>t \<in> set (db_tasks db). t_status t \<in> {TaskStatusOpen, TaskStatusClaimed, TaskStatusInProgress, TaskStatusDone,
       TaskStatusFailed, TaskStatusCancelled})"
proof -
  have "claims_typed db" by (rule typed_claims.reaches_keeps [OF assms empty_wf(2)])
  moreover have ok: "db_ok db \<and> tasks_typed db"
    by (rule typed_tasks.reaches_keeps [OF assms]) (simp add: empty_wf)
  moreover have "row_at tasks_t (t_id t) db = Some t" if "t \<in> set (db_tasks db)" for t
    using that ok by (intro row_of_task) simp_all
  ultimately show ?thesis
    unfolding claims_typed_def tasks_typed_def status_of_def claim_statuses_def task_statuses_def by blast
qed

theorem reachable_statuses_typed_witness:
  "c_status ` set (db_claims (run_call (OnClaims (CallCreateClaim (demo_claim ''ann''))) (quiet_senv (demo_time 0) ''c1'')
     empty_db)) \<subseteq> {ClaimStatusActive, ClaimStatusReleased, ClaimStatusExpired}"
proof -
  have "reaches (\<lambda>_. True) empty_db
     (run_call (OnClaims (CallCreateClaim (demo_claim ''ann''))) (quiet_senv (demo_time 0) ''c1'') empty_db)"
    by (rule reaches_call [OF here quiet_admissible]) simp_all
  from reachable_statuses_typed [OF this] show ?thesis by blast
qed

text \<open>
  C13. The life of a task.  Along every run in which no call draws the task's identifier afresh, its status
  only moves along allowed transitions, and a done, failed or cancelled task never changes status again.
\<close>

theorem task_status_history:
  assumes "reaches (\<lambda>E. sv_uuid E \<noteq> i) d d'" "db_ok d" "row_at tasks_t i d = Some r" "row_at tasks_t i d' = Some r'"
  shows "IsValidTransition\<^sup>*\<^sup>* (t_status r) (t_status r') \<and>
    (t_status r \<in> {TaskStatusDone, TaskStatusFailed, TaskStatusCancelled} \<longrightarrow> t_status r' = t_status r)"
proof -
  have "db_ok d' \<and> status_of i {t. IsValidTransition\<^sup>*\<^sup>* (t_status r) t} d'"
    by (rule task_runs.reaches_keeps [OF assms(1)]) (use assms(2,3) in \<open>simp add: status_of_def\<close>)
  then have path: "IsValidTransition\<^sup>*\<^sup>* (t_status r) (t_status r')"
    using assms(4) by (simp add: status_of_def)
  moreover have "validTransitions s = None" if "s \<in> {TaskStatusDone, TaskStatusFailed, TaskStatusCancelled}" for s
    using that by (auto simp: validTransitions_def TaskStatus_defs)
  ultimately show ?thesis using final_stays by blast
qed

theorem task_status_history_witness:
  "\<exists>r. row_at tasks_t ''t1'' (run_call (OnTasks (CallUpdateTask ''t1'' (to_status TaskStatusClaimed)))
      (quiet_senv (demo_time 0) []) demo_tasks) = Some r \<and> IsValidTransition\<^sup>*\<^sup>* TaskStatusOpen (t_status r)"
proof -
  let ?E = "quiet_senv (demo_time 0) []" and ?upd = "to_status TaskStatusClaimed"
  have run: "reaches (\<lambda>E. sv_uuid E \<noteq> ''t1'') demo_tasks (run_call (OnTasks (CallUpdateTask ''t1'' ?upd)) ?E demo_tasks)"
    by (rule reaches_call [OF here quiet_admissible]) simp_all
  have "\<not> invalid_move ?upd (demo_task ''t1'' TaskStatusOpen)" by code_simp
  then have "snd (UpdateTask ?E ''t1'' ?upd demo_tasks) =
      updated_db ''t1'' ?upd (in_UTC (demo_time 0)) (demo_task ''t1'' TaskStatusOpen) demo_tasks"
    using UpdateTask_run [OF quiet_senv_simps(2) demo_tasks_facts(1), of "demo_time 0" "[]" "''t1''" ?upd]
    by (simp add: demo_tasks_facts Let_def)
  then obtain r where r: "row_at tasks_t ''t1'' (run_call (OnTasks (CallUpdateTask ''t1'' ?upd)) ?E demo_tasks) = Some r"
    by (simp add: row_at_updated [OF demo_tasks_facts(2)])
  from task_status_history [OF run demo_tasks_facts(1,2) r] r show ?thesis
    by (auto simp: demo_task_def)
qed

text \<open>
  C8. Ownership of claims, end to end.  However a claim of \<open>owner\<close> has fared since, a caller that names
  itself as another agent can neither release nor renew it: the answer is 403 whenever the handler's own
  look-up succeeds, an error in any case, and the request changes nothing itself.
\<close>

theorem claims_of_others_refused:
  assumes "claim_owned i owner d" "reaches (\<lambda>_. True) d db" "admissible (\<lambda>_. True) E1" "agent \<noteq> owner" "agent \<noteq> []"
  shows "(\<exists>h. claimRelease E1 E2 \<lparr>cri_XAgentID = agent, cri_ID = i\<rparr> db = (Inl h, ac_others (sv_access E1 0) db) \<and>
      (ac_fate (sv_access E1 0) = Committed \<longrightarrow> he_status h = 403)) \<and>
    (\<exists>h. claimRenew rnd E1 E2 hnow \<lparr>cni_XAgentID = agent, cni_ID = i, cni_ExpiresIn = s\<rparr> db =
        (Inl h, ac_others (sv_access E1 0) db) \<and>
      (ac_fate (sv_access E1 0) = Committed \<longrightarrow> he_status h = 403))"
proof -
  have "reaches (\<lambda>_. True) d (ac_others (sv_access E1 0) db)"
    using assms(2,3) reaches_trans unfolding admissible_def by blast
  then have "claim_owned i owner (ac_others (sv_access E1 0) db)"
    by (rule owned.reaches_keeps) (rule assms(1))
  note refused = claim_stranger_refused [OF this assms(5,4)]
  show ?thesis by (rule conjI, rule refused(1), rule refused(2))
qed

theorem claims_of_others_refused_witness:
  "\<exists>h db'. claimRelease (quiet_senv (demo_time 9) []) (quiet_senv (demo_time 9) [])
      \<lparr>cri_XAgentID = ''eve'', cri_ID = ''c1''\<rparr>
      (run_call (OnClaims (CallReleaseClaim ''c1'')) (quiet_senv (demo_time 0) ''c7'') demo_db) = (Inl h, db') \<and>
    he_status h = 403"
proof -
  have own: "claim_owned ''c1'' ''ann'' demo_db"
    by (simp add: claim_owned_def row_at_def demo_db_def demo_claim_row_def)
  have run: "reaches (\<lambda>_. True) demo_db (run_call (OnClaims (CallReleaseClaim ''c1'')) (quiet_senv (demo_time 0) ''c7'') demo_db)"
    by (rule reaches_call [OF here quiet_admissible]) simp_all
  have E: "admissible (\<lambda>_. True) (quiet_senv (demo_time 9) [])" by (rule quiet_admissible) simp_all
  have c: "ac_fate (sv_access (quiet_senv (demo_time 9) []) 0) = Committed" by (simp add: quiet_senv_def)
  show ?thesis
    using claims_of_others_refused [OF own run E, of "''eve''" "quiet_senv (demo_time 9) []" id "demo_time 0" "[]"] c
    by auto
qed

text \<open>
  Ownership of todos, end to end: whatever happened to a todo of \<open>owner\<close>, another agent's update or
  delete is refused with 403, or with 404 once the todo is gone, and changes nothing itself.
\<close>

theorem todos_of_others_refused:
  assumes "todo_owned i owner d" "reaches (\<lambda>E. sv_uuid E \<noteq> i) d db" "admissible (\<lambda>E. sv_uuid E \<noteq> i) E1"
    "agent \<noteq> owner" "agent \<noteq> []" "tdu_ID inp = i" "tdu_XAgentID inp = agent"
  shows "(\<exists>h. todoUpdate E1 E2 inp db = (Inl h, ac_others (sv_access E1 0) db) \<and>
        (ac_fate (sv_access E1 0) = Committed \<longrightarrow> he_status h \<in> {403, 404})) \<and>
    (\<exists>h. todoDelete E1 E2 \<lparr>tdd_ID = i, tdd_XAgentID = agent\<rparr> db = (Inl h, ac_others (sv_access E1 0) db) \<and>
        (ac_fate (sv_access E1 0) = Committed \<longrightarrow> he_status h \<in> {403, 404}))"
proof -
  have "reaches (\<lambda>E. sv_uuid E \<noteq> i) d (ac_others (sv_access E1 0) db)"
    using assms(2,3) reaches_trans unfolding admissible_def by blast
  then have "todo_owned i owner (ac_others (sv_access E1 0) db)"
    by (rule todo_own.reaches_keeps) (rule assms(1))
  note refused = todo_stranger_refused [OF this assms(4,5)]
  show ?thesis by (rule conjI, rule refused(1) [OF assms(6,7)], rule refused(2))
qed

theorem todos_of_others_refused_witness:
  "\<exists>h db'. todoDelete (quiet_senv (demo_time 9) ''x'') (quiet_senv (demo_time 9) ''x'')
      \<lparr>tdd_ID = ''b'', tdd_XAgentID = ''eve''\<rparr>
      (run_call (OnTodos (CallPruneDoneTodos [] 0)) (quiet_senv (demo_time 0) ''x'') demo_todos) = (Inl h, db') \<and>
    he_status h \<in> {403, 404}"
proof -
  have own: "todo_owned ''b'' ''ann'' demo_todos"
    by (simp add: todo_owned_def demo_todos_def demo_todo_def)
  have run: "reaches (\<lambda>E. sv_uuid E \<noteq> ''b'') demo_todos
      (run_call (OnTodos (CallPruneDoneTodos [] 0)) (quiet_senv (demo_time 0) ''x'') demo_todos)"
    by (rule reaches_call [OF here quiet_admissible]) simp_all
  have E: "admissible (\<lambda>E. sv_uuid E \<noteq> ''b'') (quiet_senv (demo_time 9) ''x'')" by (rule quiet_admissible) simp_all
  have c: "ac_fate (sv_access (quiet_senv (demo_time 9) ''x'') 0) = Committed" by (simp add: quiet_senv_def)
  show ?thesis
    using todos_of_others_refused [OF own run E, where agent = "''eve''" and ?E2.0 = "quiet_senv (demo_time 9) ''x''"
        and inp = "\<lparr>tdu_ID = ''b'', tdu_XAgentID = ''eve'', tdu_Title = None, tdu_Status = None, tdu_Context = None\<rparr>"] c
    by auto
qed

end
