(* ===== verification/Api.thy ===== *)
theory Api
  imports ClaimApi TodoApi TaskApi AgentApi
begin

text \<open>
  The operations \<^verbatim>\<open>internal/handlers\<close> registers (the functions \<^verbatim>\<open>registerMemory\<close> ... \<^verbatim>\<open>registerTodos\<close>): for each
  its method, path, default status and handler.  An operation comes here with its decoded input: how inputs are
  read and validated is in \<open>Inputs\<close>, how answers are encoded in \<open>Wire\<close>.
\<close>

section \<open>Operations and answers\<close>

datatype memory_op = OpUpsertMemory memoryUpsertInput | OpListMemory MemoryFilter | OpGetMemory string | OpDeleteMemory string

datatype task_op =
    OpCreateTask taskCreateInput | OpListTasks TaskFilter | OpGetTask string | OpUpdateTask taskUpdateInput | OpDeleteTask string

datatype agent_op =
    OpHeartbeat agentHeartbeatInput | OpListAgents | OpGetAgent string | OpUsage string UsageReport | OpOnboard string

datatype discovery_op =
    OpDiscoveryAgents | OpDiscoveryAgent string | OpPutAgentMeta string DiscoveryAgentMeta
  | OpChannels | OpChannel string | OpPutChannel string discoveryChannelBody
  | OpRoles | OpRole string | OpPutRole string discoveryRoleBody | OpRouting string

datatype claim_op =
    OpCreateClaim claimCreateInput | OpListClaims ClaimFilter | OpGetClaim string
  | OpReleaseClaim claimReleaseInput | OpRenewClaim claimRenewInput

datatype session_op = OpCreateSession string "CapturedSession option" | OpGetSession string | OpListSessions sessionListInput

datatype todo_op =
    OpCreateTodo todoCreateInput | OpListTodos todoListInput | OpGetTodo string | OpUpdateTodo todoUpdateInput
  | OpDeleteTodo todoDeleteInput | OpPruneDone string | OpReorder todoReorderInput

datatype api_op =
    MemoryOp memory_op | TaskOp task_op | AgentOp agent_op | DiscoveryOp discovery_op | ClaimOp claim_op
  | SessionOp session_op | TodoOp todo_op

datatype body =
    NoBody | BMemory MemoryEntry | BMemories "MemoryEntry list" | BTask Task | BTasks "Task list"
  | BAgent Agent | BAgents "Agent list" | BAccepted bool | BOnboarded Agent string
  | BDiscoveryAgent DiscoveryAgent | BDiscoveryAgents "DiscoveryAgent list" | BChannel DiscoveryChannel
  | BChannels "DiscoveryChannel list" | BRole DiscoveryRole | BRoles "DiscoveryRole list" | BRouting DiscoveryRouting
  | BClaim Claim | BClaims "Claim list" | BClaimCreated "Claim option" "bool option" "int option" string
  | BReleased ClaimReleaseResult | BSession CapturedSession | BSessions "CapturedSession list"
  | BTodo Todo | BTodos "Todo list" | BPruned nat

text \<open>The answer of an operation: status, body, and the calls of the relay it starts.\<close>

record api_answer =
  an_Status :: int
  an_Body :: body
  an_Relay :: "relay_call list"

record operation =
  op_Method :: string
  op_Path :: string
  op_ID :: string
  op_DefaultStatus :: int

definition operation :: "string \<Rightarrow> string \<Rightarrow> string \<Rightarrow> int \<Rightarrow> operation" where
  "operation m path i st = \<lparr>op_Method = m, op_Path = ''/api/v1'' @ path, op_ID = i, op_DefaultStatus = st\<rparr>"

section \<open>Registration\<close>

primrec registerMemory :: "memory_op \<Rightarrow> operation" where
  "registerMemory (OpUpsertMemory inp) = operation ''POST'' ''/memory'' ''upsert-memory'' 200"
| "registerMemory (OpListMemory f) = operation ''GET'' ''/memory'' ''list-memory'' 200"
| "registerMemory (OpGetMemory k) = operation ''GET'' ''/memory/{key}'' ''get-memory'' 200"
| "registerMemory (OpDeleteMemory k) = operation ''DELETE'' ''/memory/{key}'' ''delete-memory'' 204"

primrec registerTasks :: "task_op \<Rightarrow> operation" where
  "registerTasks (OpCreateTask inp) = operation ''POST'' ''/tasks'' ''create-task'' 201"
| "registerTasks (OpListTasks f) = operation ''GET'' ''/tasks'' ''list-tasks'' 200"
| "registerTasks (OpGetTask i) = operation ''GET'' ''/tasks/{id}'' ''get-task'' 200"
| "registerTasks (OpUpdateTask inp) = operation ''PATCH'' ''/tasks/{id}'' ''update-task'' 200"
| "registerTasks (OpDeleteTask i) = operation ''DELETE'' ''/tasks/{id}'' ''delete-task'' 204"

primrec registerAgents :: "agent_op \<Rightarrow> operation" where
  "registerAgents (OpHeartbeat inp) = operation ''POST'' ''/agents/{id}/heartbeat'' ''agent-heartbeat'' 200"
| "registerAgents OpListAgents = operation ''GET'' ''/agents'' ''list-agents'' 200"
| "registerAgents (OpGetAgent i) = operation ''GET'' ''/agents/{id}'' ''get-agent'' 200"
| "registerAgents (OpUsage i u) = operation ''POST'' ''/agents/{id}/usage'' ''agent-usage'' 200"
| "registerAgents (OpOnboard i) = operation ''POST'' ''/agents/{id}/onboard'' ''onboard-agent'' 200"

primrec registerDiscovery :: "discovery_op \<Rightarrow> operation" where
  "registerDiscovery OpDiscoveryAgents = operation ''GET'' ''/discovery/agents'' ''discovery-list-agents'' 200"
| "registerDiscovery (OpDiscoveryAgent i) = operation ''GET'' ''/discovery/agents/{id}'' ''discovery-get-agent'' 200"
| "registerDiscovery (OpPutAgentMeta i m) = operation ''PUT'' ''/discovery/agents/{id}'' ''discovery-put-agent-meta'' 200"
| "registerDiscovery OpChannels = operation ''GET'' ''/discovery/channels'' ''discovery-list-channels'' 200"
| "registerDiscovery (OpChannel i) = operation ''GET'' ''/discovery/channels/{id}'' ''discovery-get-channel'' 200"
| "registerDiscovery (OpPutChannel i b) = operation ''PUT'' ''/discovery/channels/{id}'' ''discovery-put-channel'' 200"
| "registerDiscovery OpRoles = operation ''GET'' ''/discovery/roles'' ''discovery-list-roles'' 200"
| "registerDiscovery (OpRole i) = operation ''GET'' ''/discovery/roles/{id}'' ''discovery-get-role'' 200"
| "registerDiscovery (OpPutRole i b) = operation ''PUT'' ''/discovery/roles/{id}'' ''discovery-put-role'' 200"
| "registerDiscovery (OpRouting i) = operation ''GET'' ''/discovery/routing/{agent_id}'' ''discovery-get-routing'' 200"

primrec registerClaims :: "claim_op \<Rightarrow> operation" where
  "registerClaims (OpCreateClaim inp) = operation ''POST'' ''/claims'' ''create-claim'' 200"
| "registerClaims (OpListClaims f) = operation ''GET'' ''/claims'' ''list-claims'' 200"
| "registerClaims (OpGetClaim i) = operation ''GET'' ''/claims/{id}'' ''get-claim'' 200"
| "registerClaims (OpReleaseClaim inp) = operation ''DELETE'' ''/claims/{id}'' ''release-claim'' 200"
| "registerClaims (OpRenewClaim inp) = operation ''PATCH'' ''/claims/{id}'' ''renew-claim'' 200"

primrec registerSessions :: "session_op \<Rightarrow> operation" where
  "registerSessions (OpCreateSession a b) = operation ''POST'' ''/sessions'' ''session-create'' 200"
| "registerSessions (OpGetSession i) = operation ''GET'' ''/sessions/{id}'' ''session-get'' 200"
| "registerSessions (OpListSessions inp) = operation ''GET'' ''/sessions'' ''session-list'' 200"

primrec registerTodos :: "todo_op \<Rightarrow> operation" where
  "registerTodos (OpCreateTodo inp) = operation ''POST'' ''/todos'' ''create-todo'' 201"
| "registerTodos (OpListTodos inp) = operation ''GET'' ''/todos'' ''list-todos'' 200"
| "registerTodos (OpGetTodo i) = operation ''GET'' ''/todos/{id}'' ''get-todo'' 200"
| "registerTodos (OpUpdateTodo inp) = operation ''PATCH'' ''/todos/{id}'' ''update-todo'' 200"
| "registerTodos (OpDeleteTodo inp) = operation ''DELETE'' ''/todos/{id}'' ''delete-todo'' 204"
| "registerTodos (OpPruneDone a) = operation ''DELETE'' ''/todos/done'' ''prune-done-todos'' 200"
| "registerTodos (OpReorder inp) = operation ''POST'' ''/todos/reorder'' ''reorder-todos'' 204"

primrec routes :: "api_op \<Rightarrow> operation" where
  "routes (MemoryOp p) = registerMemory p"
| "routes (TaskOp p) = registerTasks p"
| "routes (AgentOp p) = registerAgents p"
| "routes (DiscoveryOp p) = registerDiscovery p"
| "routes (ClaimOp p) = registerClaims p"
| "routes (SessionOp p) = registerSessions p"
| "routes (TodoOp p) = registerTodos p"

section \<open>Handling an operation\<close>

text \<open>
  What a request finds: the environments of the store calls its handler makes (at most two), its own
  reading of the clock, the rounding of \<^verbatim>\<open>float64\<close>, whether a relay is configured, PostgreSQL's text of a
  JSONB value, and its context.
\<close>

record handler_env =
  hv_E1 :: senv
  hv_E2 :: senv
  hv_now :: gotime
  hv_rnd :: "rat \<Rightarrow> rat"
  hv_relay :: bool
  hv_text :: "json \<Rightarrow> string"

definition sent :: "int \<Rightarrow> ('a \<Rightarrow> body) \<Rightarrow> 'a reply \<times> database \<Rightarrow> api_answer reply \<times> database" where
  "sent st b rd = map_reply (\<lambda>x. \<lparr>an_Status = st, an_Body = b x, an_Relay = []\<rparr>) rd"

primrec memory_handle :: "memory_op \<Rightarrow> int \<Rightarrow> handler_env \<Rightarrow> Context \<Rightarrow> database \<Rightarrow> api_answer reply \<times> database" where
  "memory_handle (OpUpsertMemory inp) st v ctx db = sent st BMemory (memoryUpsert (hv_E1 v) ctx inp db)"
| "memory_handle (OpListMemory f) st v ctx db = sent st BMemories (memoryList (hv_E1 v) f db)"
| "memory_handle (OpGetMemory k) st v ctx db = sent st BMemory (memoryGet (hv_E1 v) k db)"
| "memory_handle (OpDeleteMemory k) st v ctx db = sent st (\<lambda>_. NoBody) (memoryDelete (hv_E1 v) k db)"

primrec task_handle :: "task_op \<Rightarrow> int \<Rightarrow> handler_env \<Rightarrow> Context \<Rightarrow> database \<Rightarrow> api_answer reply \<times> database" where
  "task_handle (OpCreateTask inp) st v ctx db = sent st BTask (taskCreate (hv_E1 v) ctx inp db)"
| "task_handle (OpListTasks f) st v ctx db = sent st BTasks (taskList (hv_E1 v) f db)"
| "task_handle (OpGetTask i) st v ctx db = sent st BTask (taskGet (hv_E1 v) i db)"
| "task_handle (OpUpdateTask inp) st v ctx db = sent st BTask (taskUpdate (hv_E1 v) ctx inp db)"
| "task_handle (OpDeleteTask i) st v ctx db = sent st (\<lambda>_. NoBody) (taskDelete (hv_E1 v) i db)"

primrec agent_handle :: "agent_op \<Rightarrow> int \<Rightarrow> handler_env \<Rightarrow> database \<Rightarrow> api_answer reply \<times> database" where
  "agent_handle (OpHeartbeat inp) st v db =
     (case agentHeartbeat (hv_relay v) (hv_E1 v) inp db of
        ((Inl h, calls), d) \<Rightarrow> (Inl h, d)
      | ((Inr agent, calls), d) \<Rightarrow> (Inr \<lparr>an_Status = st, an_Body = BAgent agent, an_Relay = calls\<rparr>, d))"
| "agent_handle OpListAgents st v db = sent st BAgents (agentList (hv_E1 v) db)"
| "agent_handle (OpGetAgent i) st v db = sent st BAgent (agentGet (hv_E1 v) i db)"
| "agent_handle (OpUsage i u) st v db =
     (case agentUsage (hv_relay v) i u of
        (accepted, calls) \<Rightarrow> (Inr \<lparr>an_Status = st, an_Body = BAccepted accepted, an_Relay = calls\<rparr>, db))"
| "agent_handle (OpOnboard i) st v db = sent st (\<lambda>(a, token). BOnboarded a token) (agentOnboard (hv_E1 v) i db)"

primrec discovery_handle :: "discovery_op \<Rightarrow> int \<Rightarrow> handler_env \<Rightarrow> database \<Rightarrow> api_answer reply \<times> database" where
  "discovery_handle OpDiscoveryAgents st v db = sent st BDiscoveryAgents (discoveryListAgents (hv_E1 v) db)"
| "discovery_handle (OpDiscoveryAgent i) st v db = sent st BDiscoveryAgent (discoveryGetAgent (hv_E1 v) i db)"
| "discovery_handle (OpPutAgentMeta i m) st v db = sent st BDiscoveryAgent (discoveryPutAgentMeta (hv_E1 v) i m db)"
| "discovery_handle OpChannels st v db = sent st BChannels (discoveryListChannels (hv_E1 v) db)"
| "discovery_handle (OpChannel i) st v db = sent st BChannel (discoveryGetChannel (hv_E1 v) i db)"
| "discovery_handle (OpPutChannel i b) st v db = sent st BChannel (discoveryPutChannel (hv_E1 v) i b db)"
| "discovery_handle OpRoles st v db = sent st BRoles (discoveryListRoles (hv_E1 v) db)"
| "discovery_handle (OpRole i) st v db = sent st BRole (discoveryGetRole (hv_E1 v) i db)"
| "discovery_handle (OpPutRole i b) st v db = sent st BRole (discoveryPutRole (hv_E1 v) i b db)"
| "discovery_handle (OpRouting i) st v db = sent st BRouting (discoveryGetRouting (hv_E1 v) i db)"

text \<open>A claim created or queued carries its own status, and so does a session.\<close>

primrec claim_handle :: "claim_op \<Rightarrow> int \<Rightarrow> handler_env \<Rightarrow> Context \<Rightarrow> database \<Rightarrow> api_answer reply \<times> database" where
  "claim_handle (OpCreateClaim inp) st v ctx db = map_reply
     (\<lambda>r. \<lparr>an_Status = cco_Status r, an_Body = BClaimCreated (cco_Claim r) (cco_Queued r) (cco_Position r) (cco_WaiterID r),
        an_Relay = []\<rparr>)
     (claimCreate (hv_rnd v) (hv_E1 v) (hv_E2 v) (hv_now v) ctx inp db)"
| "claim_handle (OpListClaims f) st v ctx db = sent st BClaims (claimList (hv_E1 v) f db)"
| "claim_handle (OpGetClaim i) st v ctx db = sent st BClaim (claimGet (hv_E1 v) i db)"
| "claim_handle (OpReleaseClaim inp) st v ctx db = sent st BReleased (claimRelease (hv_E1 v) (hv_E2 v) inp db)"
| "claim_handle (OpRenewClaim inp) st v ctx db =
     sent st BClaim (claimRenew (hv_rnd v) (hv_E1 v) (hv_E2 v) (hv_now v) inp db)"

primrec session_handle :: "session_op \<Rightarrow> int \<Rightarrow> handler_env \<Rightarrow> database \<Rightarrow> api_answer reply \<times> database" where
  "session_handle (OpCreateSession agent b) st v db = map_reply
     (\<lambda>(status, cs). \<lparr>an_Status = status, an_Body = BSession cs, an_Relay = []\<rparr>) (sessionCreate (hv_E1 v) agent b db)"
| "session_handle (OpGetSession i) st v db = sent st BSession (sessionGet (hv_E1 v) i db)"
| "session_handle (OpListSessions inp) st v db = sent st BSessions (sessionList (hv_text v) (hv_E1 v) inp db)"

primrec todo_handle :: "todo_op \<Rightarrow> int \<Rightarrow> handler_env \<Rightarrow> database \<Rightarrow> api_answer reply \<times> database" where
  "todo_handle (OpCreateTodo inp) st v db = sent st BTodo (todoCreate (hv_E1 v) inp db)"
| "todo_handle (OpListTodos inp) st v db = sent st BTodos (todoList (hv_E1 v) inp db)"
| "todo_handle (OpGetTodo i) st v db = sent st BTodo (todoGet (hv_E1 v) i db)"
| "todo_handle (OpUpdateTodo inp) st v db = sent st BTodo (todoUpdate (hv_E1 v) (hv_E2 v) inp db)"
| "todo_handle (OpDeleteTodo inp) st v db = sent st (\<lambda>_. NoBody) (todoDelete (hv_E1 v) (hv_E2 v) inp db)"
| "todo_handle (OpPruneDone agent) st v db = sent st BPruned (todoPruneDone (hv_E1 v) agent db)"
| "todo_handle (OpReorder inp) st v db = sent st (\<lambda>_. NoBody) (todoReorder (hv_E1 v) inp db)"

fun api_handle :: "api_op \<Rightarrow> handler_env \<Rightarrow> Context \<Rightarrow> database \<Rightarrow> api_answer reply \<times> database" where
  "api_handle (MemoryOp p) v ctx db = memory_handle p (op_DefaultStatus (routes (MemoryOp p))) v ctx db"
| "api_handle (TaskOp p) v ctx db = task_handle p (op_DefaultStatus (routes (TaskOp p))) v ctx db"
| "api_handle (AgentOp p) v ctx db = agent_handle p (op_DefaultStatus (routes (AgentOp p))) v db"
| "api_handle (DiscoveryOp p) v ctx db = discovery_handle p (op_DefaultStatus (routes (DiscoveryOp p))) v db"
| "api_handle (ClaimOp p) v ctx db = claim_handle p (op_DefaultStatus (routes (ClaimOp p))) v ctx db"
| "api_handle (SessionOp p) v ctx db = session_handle p (op_DefaultStatus (routes (SessionOp p))) v db"
| "api_handle (TodoOp p) v ctx db = todo_handle p (op_DefaultStatus (routes (TodoOp p))) v db"

lemma sent_db [simp]: "snd (sent st b rd) = snd rd"
  by (simp add: sent_def)

end
