(* ===== verification/Ui.thy ===== *)
theory Ui
  imports ClaimApi TaskApi AgentApi
begin

text \<open>
  \<^verbatim>\<open>internal/ui/ui.go\<close>: the read-only pages.  A page is the data its template is given; the execution of the
  templates (\<^verbatim>\<open>html/template\<close> on embedded files) is left out.  \<open>q\<close> is \<^verbatim>\<open>r.URL.Query().Get\<close>.
\<close>

section \<open>The code\<close>

text \<open>\<^verbatim>\<open>strconv.Atoi\<close> on a 64-bit machine.\<close>

definition Atoi :: "string \<Rightarrow> int option" where
  "Atoi s =
     (let signed = (s \<noteq> [] \<and> (hd s = CHR ''-'' \<or> hd s = CHR ''+''));
          ds = (if signed then tl s else s)
      in if ds = [] \<or> \<not> list_all is_digit ds then None
      else let n = (if signed \<and> hd s = CHR ''-'' then - dec_val ds else dec_val ds)
        in if - (2 ^ 63) \<le> n \<and> n < 2 ^ 63 then Some n else None)"

definition query_limit :: "int \<Rightarrow> (string \<Rightarrow> string) \<Rightarrow> int" where
  "query_limit dflt q =
     (let l = (case (if q ''limit'' \<noteq> [] then Atoi (q ''limit'') else None) of Some n \<Rightarrow> n | None \<Rightarrow> 0)
      in if l = 0 then dflt else l)"

record dashboard =
  dp_Agents :: "Agent list"
  dp_Tasks :: "Task list"
  dp_Claims :: "Claim list"
  dp_Memory :: "MemoryEntry list"
  dp_OnlineAgents :: nat
  dp_OpenTasks :: nat
  dp_ActiveClaims :: nat

datatype ui_page =
    DashboardPage dashboard
  | AgentsPage "Agent list"
  | TasksPage "Task list" TaskFilter
  | ClaimsPage "Claim list" ClaimFilter
  | MemoryPage "MemoryEntry list" MemoryFilter
  | SessionsPage "CapturedSession list" SessionFilter
  | StaticFile string

definition pageTemplates :: "string list" where
  "pageTemplates = [''dashboard.html'', ''agents.html'', ''tasks.html'', ''claims.html'', ''memory.html'',
     ''sessions.html'']"

definition render :: "string \<Rightarrow> ui_page \<Rightarrow> ui_page reply" where
  "render page data =
     (if page \<in> set pageTemplates then Inr data else Inl (http_err 404 ''Template not found''))"

text \<open>What every page does with the answer of the store: 500 with a text, or the page.\<close>

definition shown :: "string \<Rightarrow> (goerr + 'a) \<times> 'd \<Rightarrow> 'a reply \<times> 'd" where
  "shown failed rd = answers [] (http_err 500 failed) rd"

definition uiDashboard :: "(nat \<Rightarrow> senv) \<Rightarrow> database \<Rightarrow> ui_page reply \<times> database" where
  "uiDashboard es db =
     and_then (shown ''Failed to fetch agents'' (ListAgents (es 0) db)) (\<lambda>agents d1.
     and_then (shown ''Failed to fetch tasks'' (ListTasks (es 1)
         \<lparr>tf_Status = [], tf_Assignee = [], tf_Creator = [], tf_SessionKey = [], tf_Limit = 10, tf_Offset = 0\<rparr> d1))
       (\<lambda>tasks d2.
     and_then (shown ''Failed to fetch claims'' (ListClaims (es 2)
         \<lparr>cf_Type = [], cf_AgentID = [], cf_Resource = [], cf_Status = ''active'', cf_SessionKey = [],
            cf_Limit = 10, cf_Offset = 0\<rparr> d2)) (\<lambda>claims d3.
     and_then (shown ''Failed to fetch memory'' (ListMemory (es 3)
         \<lparr>mf_Tag = [], mf_Agent = [], mf_Prefix = [], mf_SessionKey = [], mf_Limit = 10, mf_Offset = 0\<rparr> d3))
       (\<lambda>memory d4.
     (render ''dashboard.html'' (DashboardPage
        \<lparr>dp_Agents = agents, dp_Tasks = tasks, dp_Claims = claims, dp_Memory = memory,
         dp_OnlineAgents = length (filter (\<lambda>a. ag_Status a = AgentStatusOnline) agents),
         dp_OpenTasks = length (filter (\<lambda>t. ta_Status t = TaskStatusOpen) tasks),
         dp_ActiveClaims = length claims\<rparr>), d4)))))"

definition uiAgents :: "senv \<Rightarrow> database \<Rightarrow> ui_page reply \<times> database" where
  "uiAgents E db = and_then (shown ''Failed to fetch agents'' (ListAgents E db))
     (\<lambda>agents d. (render ''agents.html'' (AgentsPage agents), d))"

definition tasks_query :: "(string \<Rightarrow> string) \<Rightarrow> TaskFilter" where
  "tasks_query q = \<lparr>tf_Status = q ''status'', tf_Assignee = q ''assignee'', tf_Creator = q ''creator'',
     tf_SessionKey = [], tf_Limit = query_limit 50 q, tf_Offset = 0\<rparr>"

definition uiTasks :: "senv \<Rightarrow> (string \<Rightarrow> string) \<Rightarrow> database \<Rightarrow> ui_page reply \<times> database" where
  "uiTasks E q db = and_then (shown ''Failed to fetch tasks'' (ListTasks E (tasks_query q) db))
     (\<lambda>tasks d. (render ''tasks.html'' (TasksPage tasks (tasks_query q)), d))"

definition claims_query :: "(string \<Rightarrow> string) \<Rightarrow> ClaimFilter" where
  "claims_query q = \<lparr>cf_Type = [], cf_AgentID = q ''agent'', cf_Resource = [], cf_Status = q ''status'',
     cf_SessionKey = [], cf_Limit = query_limit 50 q, cf_Offset = 0\<rparr>"

definition uiClaims :: "senv \<Rightarrow> (string \<Rightarrow> string) \<Rightarrow> database \<Rightarrow> ui_page reply \<times> database" where
  "uiClaims E q db = and_then (shown ''Failed to fetch claims'' (ListClaims E (claims_query q) db))
     (\<lambda>claims d. (render ''claims.html'' (ClaimsPage claims (claims_query q)), d))"

definition memory_query :: "(string \<Rightarrow> string) \<Rightarrow> MemoryFilter" where
  "memory_query q = \<lparr>mf_Tag = q ''tag'', mf_Agent = q ''agent'', mf_Prefix = q ''prefix'', mf_SessionKey = [],
     mf_Limit = query_limit 50 q, mf_Offset = 0\<rparr>"

definition uiMemory :: "senv \<Rightarrow> (string \<Rightarrow> string) \<Rightarrow> database \<Rightarrow> ui_page reply \<times> database" where
  "uiMemory E q db = and_then (shown ''Failed to fetch memory'' (ListMemory E (memory_query q) db))
     (\<lambda>memory d. (render ''memory.html'' (MemoryPage memory (memory_query q)), d))"

definition sessions_query :: "(string \<Rightarrow> string) \<Rightarrow> SessionFilter" where
  "sessions_query q = \<lparr>sf_AgentID = q ''agent'', sf_Repo = q ''repo'', sf_Path = [], sf_Since = zero_time,
     sf_Limit = query_limit 25 q\<rparr>"

definition uiSessions ::
  "(json \<Rightarrow> string) \<Rightarrow> senv \<Rightarrow> (string \<Rightarrow> string) \<Rightarrow> database \<Rightarrow> ui_page reply \<times> database" where
  "uiSessions jt E q db =
     and_then (shown ''Failed to fetch sessions'' (ListCapturedSessions jt E (sessions_query q) db))
     (\<lambda>sessions d. (render ''sessions.html'' (SessionsPage sessions (sessions_query q)), d))"

text \<open>
  The router, on a path without the prefix \<^verbatim>\<open>/ui\<close>: the pages answer GET only (405 otherwise), the static
  files, whose content is embedded at build time, any method.
\<close>

datatype ui_route = UiDashboard | UiAgents | UiTasks | UiClaims | UiMemory | UiSessions | UiStatic string

definition ui_pages :: "(string \<times> ui_route) list" where
  "ui_pages = [(''/'', UiDashboard), (''/agents'', UiAgents), (''/tasks'', UiTasks), (''/claims'', UiClaims),
     (''/memory'', UiMemory), (''/sessions'', UiSessions)]"

definition ui_Routes :: "string \<Rightarrow> string \<Rightarrow> http_error + ui_route" where
  "ui_Routes method path =
     (if HasPrefix path ''/static/'' then Inr (UiStatic path)
      else case map_of ui_pages path of
          None \<Rightarrow> Inl (http_err 404 ''404 page not found'')
        | Some p \<Rightarrow> if method = ''GET'' then Inr p else Inl (http_err 405 []))"

primrec ui_serve ::
  "ui_route \<Rightarrow> (string \<Rightarrow> http_error + string) \<Rightarrow> (json \<Rightarrow> string) \<Rightarrow> (nat \<Rightarrow> senv) \<Rightarrow> (string \<Rightarrow> string) \<Rightarrow> database \<Rightarrow>
   ui_page reply \<times> database" where
  "ui_serve UiDashboard fs jt es q db = uiDashboard es db"
| "ui_serve UiAgents fs jt es q db = uiAgents (es 0) db"
| "ui_serve UiTasks fs jt es q db = uiTasks (es 0) q db"
| "ui_serve UiClaims fs jt es q db = uiClaims (es 0) q db"
| "ui_serve UiMemory fs jt es q db = uiMemory (es 0) q db"
| "ui_serve UiSessions fs jt es q db = uiSessions jt (es 0) q db"
| "ui_serve (UiStatic path) fs jt es q db = (map_sum id StaticFile (fs path), db)"

section \<open>The helpers of the templates\<close>

text \<open>\<^verbatim>\<open>Duration.Minutes\<close> and \<^verbatim>\<open>Duration.Hours\<close>, with the rounding \<open>rnd\<close> of \<^verbatim>\<open>float64\<close>.\<close>

definition float_units :: "(rat \<Rightarrow> rat) \<Rightarrow> duration \<Rightarrow> duration \<Rightarrow> rat" where
  "float_units rnd u d =
     (let whole = go_quot d u; nsec = d - u * whole
      in rnd (rnd (of_int whole) + rnd (rnd (of_int nsec) / of_int u)))"

text \<open>\<open>diff\<close> is \<^verbatim>\<open>time.Since(t)\<close>.\<close>

definition timeAgo :: "(rat \<Rightarrow> rat) \<Rightarrow> duration \<Rightarrow> string" where
  "timeAgo rnd diff =
     (if diff < Minute then ''just now''
      else if diff < Hour then show_int (trunc (float_units rnd Minute diff)) @ ''m ago''
      else if diff < 24 * Hour then show_int (trunc (float_units rnd Hour diff)) @ ''h ago''
      else let days = trunc (rnd (float_units rnd Hour diff / 24))
        in if days = 1 then ''1 day ago'' else show_int days @ '' days ago'')"

definition formatTime :: "gotime \<Rightarrow> string" where
  "formatTime t = (case civil_of (local_secs t) of (y, m, d) \<Rightarrow>
     fmt_year y @ ''-'' @ pad_dec 2 m @ ''-'' @ pad_dec 2 d @ '' '' @ fmt_clock (local_secs t mod 86400))"

text \<open>The three bytes of the ellipsis.  A negative length panics: \<open>None\<close>.\<close>

definition ellipsis :: string where
  "ellipsis = [char_of (226 :: nat), char_of (128 :: nat), char_of (166 :: nat)]"

definition truncate :: "string \<Rightarrow> int \<Rightarrow> string option" where
  "truncate s n =
     (if int (length s) \<le> n then Some s
      else if n < 0 then None
      else Some (take (nat n) s @ ellipsis))"

definition statusClass :: "string \<Rightarrow> string" where
  "statusClass status =
     (if status = ''online'' then ''text-green-400''
      else if status = ''offline'' then ''text-red-400''
      else if status = ''idle'' then ''text-yellow-400''
      else if status = ''open'' then ''text-blue-400''
      else if status = ''in_progress'' then ''text-orange-400''
      else if status = ''done'' then ''text-green-400''
      else if status = ''failed'' then ''text-red-400''
      else if status = ''active'' then ''text-green-400''
      else if status = ''expired'' then ''text-red-400''
      else ''text-gray-400'')"

section \<open>What the pages show\<close>

lemma render_page [simp]:
  "render ''dashboard.html'' p = Inr p" "render ''agents.html'' p = Inr p" "render ''tasks.html'' p = Inr p"
  "render ''claims.html'' p = Inr p" "render ''memory.html'' p = Inr p" "render ''sessions.html'' p = Inr p"
  by (simp_all add: render_def pageTemplates_def)

lemma Atoi_show_int:
  assumes "- (2 ^ 63) \<le> n" "n < 2 ^ 63"
  shows "Atoi (show_int n) = Some n"
proof -
  have d: "list_all is_digit (show_pos m)" for m using show_pos_digits by (simp add: list_all_iff)
  have h: "hd (show_pos m) \<noteq> CHR ''-''" "hd (show_pos m) \<noteq> CHR ''+''" for m
    using show_pos_digits [of m] show_pos_nonempty [of m] by (cases "show_pos m"; force simp: is_digit_def)+
  show ?thesis
    using assms d h show_pos_nonempty by (auto simp: Atoi_def show_int_def Let_def dec_val_show_pos)
qed

text \<open>A page made of what an operation of the API answered.\<close>

definition page_of :: "string \<Rightarrow> ('a \<Rightarrow> ui_page) \<Rightarrow> 'a reply \<times> 'd \<Rightarrow> ui_page reply \<times> 'd" where
  "page_of failed mk rd = (case rd of (Inl h, d) \<Rightarrow> (Inl (http_err 500 failed), d) | (Inr x, d) \<Rightarrow> (Inr (mk x), d))"

lemma page_of_answers:
  "and_then (shown failed rd) (\<lambda>x d. (Inr (mk x), d)) = page_of failed mk (answers [] h rd)"
  by (cases rd; cases "fst rd") (auto simp: page_of_def shown_def)

text \<open>
  The dashboard, undisturbed.  Its task count looks at the ten latest tasks only and its count of active
  claims stops at ten; the agents it counts as online are all those reported online within five minutes.
\<close>

theorem dashboard_counts:
  assumes "\<And>k. quiet (es k)"
  shows "\<exists>p. uiDashboard es db = (Inr (DashboardPage p), db) \<and>
    dp_ActiveClaims p = min 10 (length (filter (\<lambda>c. c_status c = ClaimStatusActive) (db_claims db))) \<and>
    dp_OpenTasks p = length (filter (\<lambda>t. t_status t = TaskStatusOpen) (take 10 (order_desc t_created_at (db_tasks db)))) \<and>
    length (dp_Agents p) = length (db_agents db)"
proof -
  have q: "calm_access (sv_access (es k) j)" for k j using assms unfolding quiet_def by blast
  let ?ft = "\<lparr>tf_Status = [], tf_Assignee = [], tf_Creator = [], tf_SessionKey = [], tf_Limit = 10, tf_Offset = 0\<rparr>"
  have rows: "paginate 50 (tf_Limit ?ft) (tf_Offset ?ft) (order_desc t_created_at (filter (task_matches ?ft) (db_tasks db))) =
      take 10 (order_desc t_created_at (db_tasks db))"
    by (simp add: paginate_def task_matches_def [abs_def])
  obtain ts where ts: "ListTasks (es 1) ?ft db = (Inr ts, db)"
    "map ta_Status ts = map t_status (take 10 (order_desc t_created_at (db_tasks db)))"
    using ListTasks_statuses [OF assms, of 1 ?ft db] unfolding rows by blast
  obtain as where as: "ListAgents (es 0) db = (Inr as, db)" "length as = length (db_agents db)"
    using q [of 0 0] by (simp add: ListAgents_def query_rows_def calm_access_def)
  let ?fc = "\<lparr>cf_Type = [], cf_AgentID = [], cf_Resource = [], cf_Status = ''active'', cf_SessionKey = [],
      cf_Limit = 10, cf_Offset = 0\<rparr>"
  obtain cs where cs: "ListClaims (es 2) ?fc db = (Inr cs, db)"
    "length cs = min 10 (length (filter (\<lambda>c. c_status c = ClaimStatusActive) (db_claims db)))"
    using q [of 2 0] by (simp add: ListClaims_def select_claims_def query_rows_def calm_access_def paginate_def
        claim_matches_def [abs_def] ClaimStatusActive_def min.commute)
  obtain ms where ms: "ListMemory (es 3)
      \<lparr>mf_Tag = [], mf_Agent = [], mf_Prefix = [], mf_SessionKey = [], mf_Limit = 10, mf_Offset = 0\<rparr> db = (Inr ms, db)"
    using q [of 3 0] by (simp add: ListMemory_def select_memory_def query_rows_def calm_access_def)
  have "length (filter (\<lambda>t. ta_Status t = TaskStatusOpen) ts) = length (filter (\<lambda>s. s = TaskStatusOpen) (map ta_Status ts))"
    by (simp add: filter_map comp_def)
  also have "\<dots> = length (filter (\<lambda>t. t_status t = TaskStatusOpen) (take 10 (order_desc t_created_at (db_tasks db))))"
    unfolding ts(2) by (simp add: filter_map comp_def)
  finally show ?thesis
    using as cs ms ts(1) by (simp add: uiDashboard_def shown_def)
qed

theorem dashboard_counts_witness:
  "\<exists>p. uiDashboard (\<lambda>_. quiet_senv (demo_time 0) []) demo_db = (Inr (DashboardPage p), demo_db) \<and>
     dp_ActiveClaims p = 1 \<and> dp_OpenTasks p = 0"
proof -
  have "length (filter (\<lambda>c. c_status c = ClaimStatusActive) (db_claims demo_db)) = 1" "db_tasks demo_db = []"
    by (simp_all add: demo_db_def demo_claim_row_def empty_db_def ClaimStatus_distinct)
  then show ?thesis
    using dashboard_counts [of "\<lambda>_. quiet_senv (demo_time 0) []" demo_db] quiet_senv_simps(2)
    by (auto simp: order_desc_def)
qed

text \<open>\<open>truncate\<close> bounds the length, and cuts through a character of two bytes.\<close>

lemma truncate_bound: "0 \<le> n \<Longrightarrow> \<exists>t. truncate s n = Some t \<and> length t \<le> nat n + 3"
  by (auto simp: truncate_def ellipsis_def)

lemma truncate_cuts_character:
  "truncate [char_of (195 :: nat), char_of (169 :: nat)] 1 = Some (char_of (195 :: nat) # ellipsis)"
  by (simp add: truncate_def)

end
