(* ===== verification/Migration.thy ===== *)
theory Migration
  imports Retry
begin

text \<open>
  The schema of \<^verbatim>\<open>internal/store/store.go\<close> as data (\<^verbatim>\<open>schemaTables\<close>, \<^verbatim>\<open>schemaIndexes\<close>), what its statements do
  to the catalogue of a database of any age, and the columns the INSERT statements of the store name.
  An \<^verbatim>\<open>ExecContext\<close> of several statements is one transaction: all of them take effect or none.
\<close>

section \<open>Statements and catalogues\<close>

datatype column_type = TEXT | JSONB | INTEGER | BIGSERIAL | BOOLEAN

record column =
  co_name :: string
  co_type :: column_type
  co_not_null :: bool
  co_default :: "string option"
  co_primary :: bool
  co_references :: "(string \<times> string) option"

abbreviation column :: "string \<Rightarrow> column_type \<Rightarrow> column" where
  "column n ty \<equiv> \<lparr>co_name = n, co_type = ty, co_not_null = True, co_default = None, co_primary = False, co_references = None\<rparr>"

abbreviation default_column :: "string \<Rightarrow> column_type \<Rightarrow> string \<Rightarrow> column" where
  "default_column n ty d \<equiv> (column n ty)\<lparr>co_default := Some d\<rparr>"

abbreviation nullable_column :: "string \<Rightarrow> column_type \<Rightarrow> column" where
  "nullable_column n ty \<equiv> (column n ty)\<lparr>co_not_null := False\<rparr>"

abbreviation key_column :: "string \<Rightarrow> column" where
  "key_column n \<equiv> (column n TEXT)\<lparr>co_primary := True\<rparr>"

abbreviation serial_column :: "string \<Rightarrow> column" where
  "serial_column n \<equiv> (column n BIGSERIAL)\<lparr>co_primary := True\<rparr>"

text \<open>\<^verbatim>\<open>REFERENCES t(c) ON DELETE CASCADE\<close>.\<close>

abbreviation reference_column :: "string \<Rightarrow> string \<Rightarrow> string \<Rightarrow> column" where
  "reference_column n t c \<equiv> (column n TEXT)\<lparr>co_references := Some (t, c)\<rparr>"

datatype row_filter = AllRows | WhereEq string string | WhereNotNull string

record index =
  ix_unique :: bool
  ix_table :: string
  ix_columns :: "string list"
  ix_where :: row_filter

text \<open>The columns an index needs: those it is on and the one its \<^verbatim>\<open>WHERE\<close> names.\<close>

fun filter_columns :: "row_filter \<Rightarrow> string list" where
  "filter_columns AllRows = []"
| "filter_columns (WhereEq c v) = [c]"
| "filter_columns (WhereNotNull c) = [c]"

definition index_uses :: "index \<Rightarrow> string list" where
  "index_uses ix = ix_columns ix @ filter_columns (ix_where ix)"

text \<open>A statement says \<^verbatim>\<open>IF NOT EXISTS\<close> or does not; one that does not fails when its object is there.\<close>

datatype guard = IfNotExists | Unguarded

datatype ddl = CreateTable guard string "column list" | AddColumn guard string column | CreateIndex guard string index

abbreviation plain_index :: "string \<Rightarrow> string \<Rightarrow> string list \<Rightarrow> ddl" where
  "plain_index n t cs \<equiv> CreateIndex IfNotExists n \<lparr>ix_unique = False, ix_table = t, ix_columns = cs, ix_where = AllRows\<rparr>"

abbreviation partial_index :: "string \<Rightarrow> string \<Rightarrow> string list \<Rightarrow> row_filter \<Rightarrow> ddl" where
  "partial_index n t cs w \<equiv> CreateIndex IfNotExists n \<lparr>ix_unique = False, ix_table = t, ix_columns = cs, ix_where = w\<rparr>"

abbreviation unique_index :: "string \<Rightarrow> string \<Rightarrow> string list \<Rightarrow> row_filter \<Rightarrow> ddl" where
  "unique_index n t cs w \<equiv> CreateIndex IfNotExists n \<lparr>ix_unique = True, ix_table = t, ix_columns = cs, ix_where = w\<rparr>"

text \<open>A catalogue; and what matters of the rows: which tables have some, and which unique indexes they break.\<close>

record catalog =
  ca_tables :: "string \<Rightarrow> column list option"
  ca_indexes :: "string \<Rightarrow> index option"

record contents =
  ct_rows :: "string \<Rightarrow> bool"
  ct_breaks :: "index \<Rightarrow> bool"

text \<open>
  A transaction works on the catalogue and the columns it has added itself: CockroachDB refuses an index on
  those, as the comment on \<^verbatim>\<open>migrate\<close> says.
\<close>

record ddl_state =
  ds_catalog :: catalog
  ds_added :: "(string \<times> string) list"

definition missing_table :: goerr where "missing_table = PgError ''42P01''"
definition missing_column :: goerr where "missing_column = PgError ''42703''"
definition duplicate_object :: goerr where "duplicate_object = PgError ''42P07''"
definition duplicate_column :: goerr where "duplicate_column = PgError ''42701''"
definition unsupported :: goerr where "unsupported = PgError ''0A000''"
definition not_null_violation :: goerr where "not_null_violation = PgError ''23502''"
definition index_violation :: goerr where "index_violation = PgError ''23505''"

definition put_table :: "string \<Rightarrow> column list \<Rightarrow> ddl_state \<Rightarrow> ddl_state" where
  "put_table t cols s = s\<lparr>ds_catalog := (ds_catalog s)\<lparr>ca_tables := (ca_tables (ds_catalog s))(t \<mapsto> cols)\<rparr>\<rparr>"

fun exec_ddl :: "contents \<Rightarrow> ddl \<Rightarrow> ddl_state \<Rightarrow> goerr + ddl_state" where
  "exec_ddl ct (CreateTable g t cols) s =
     (case ca_tables (ds_catalog s) t of
        Some _ \<Rightarrow> if g = IfNotExists then Inr s else Inl duplicate_object
      | None \<Rightarrow>
          if list_all (\<lambda>c. case co_references c of None \<Rightarrow> True | Some (u, _) \<Rightarrow> ca_tables (ds_catalog s) u \<noteq> None) cols
          then Inr (put_table t cols s) else Inl missing_table)"
| "exec_ddl ct (AddColumn g t c) s =
     (case ca_tables (ds_catalog s) t of
        None \<Rightarrow> Inl missing_table
      | Some cols \<Rightarrow>
          if co_name c \<in> set (map co_name cols)
          then (if g = IfNotExists then Inr s else Inl duplicate_column)
          else if co_not_null c \<and> co_default c = None \<and> ct_rows ct t then Inl not_null_violation
          else Inr (put_table t (cols @ [c]) s\<lparr>ds_added := (t, co_name c) # ds_added s\<rparr>))"
| "exec_ddl ct (CreateIndex g n ix) s =
     (case ca_indexes (ds_catalog s) n of
        Some _ \<Rightarrow> if g = IfNotExists then Inr s else Inl duplicate_object
      | None \<Rightarrow> (case ca_tables (ds_catalog s) (ix_table ix) of
            None \<Rightarrow> Inl missing_table
          | Some cols \<Rightarrow>
              if \<not> set (index_uses ix) \<subseteq> set (map co_name cols) then Inl missing_column
              else if list_ex (\<lambda>c. (ix_table ix, c) \<in> set (ds_added s)) (index_uses ix) then Inl unsupported
              else if ix_unique ix \<and> ct_breaks ct ix then Inl index_violation
              else Inr (s\<lparr>ds_catalog := (ds_catalog s)\<lparr>ca_indexes := (ca_indexes (ds_catalog s))(n \<mapsto> ix)\<rparr>\<rparr>)))"

fun exec_ddls :: "contents \<Rightarrow> ddl list \<Rightarrow> ddl_state \<Rightarrow> goerr + ddl_state" where
  "exec_ddls ct [] s = Inr s"
| "exec_ddls ct (d # ds) s = (case exec_ddl ct d s of Inl e \<Rightarrow> Inl e | Inr s1 \<Rightarrow> exec_ddls ct ds s1)"

definition exec_batch :: "contents \<Rightarrow> ddl list \<Rightarrow> catalog \<Rightarrow> goerr option \<times> catalog" where
  "exec_batch ct ds c = (case exec_ddls ct ds \<lparr>ds_catalog = c, ds_added = []\<rparr> of
       Inl e \<Rightarrow> (Some e, c) | Inr s \<Rightarrow> (None, ds_catalog s))"

definition empty_catalog :: catalog where
  "empty_catalog = \<lparr>ca_tables = (\<lambda>_. None), ca_indexes = (\<lambda>_. None)\<rparr>"

definition no_rows :: contents where
  "no_rows = \<lparr>ct_rows = (\<lambda>_. False), ct_breaks = (\<lambda>_. False)\<rparr>"

section \<open>The schema\<close>

definition memory_table :: ddl where
  "memory_table = CreateTable IfNotExists ''memory''
     [key_column ''key'', default_column ''value'' TEXT [], default_column ''agent_id'' TEXT [],
      default_column ''tags'' JSONB ''[]'', default_column ''version'' INTEGER ''1'', column ''created_at'' TEXT,
      column ''updated_at'' TEXT]"

definition tasks_table :: ddl where
  "tasks_table = CreateTable IfNotExists ''tasks''
     [key_column ''id'', column ''title'' TEXT, default_column ''description'' TEXT [],
      default_column ''status'' TEXT ''open'', column ''creator'' TEXT, default_column ''assignee'' TEXT [],
      default_column ''priority'' INTEGER ''0'', default_column ''tags'' JSONB ''[]'', column ''created_at'' TEXT,
      column ''updated_at'' TEXT]"

definition task_notes_table :: ddl where
  "task_notes_table = CreateTable IfNotExists ''task_notes''
     [serial_column ''id'', reference_column ''task_id'' ''tasks'' ''id'', column ''note'' TEXT,
      default_column ''agent_id'' TEXT [], column ''created_at'' TEXT]"

definition agents_table :: ddl where
  "agents_table = CreateTable IfNotExists ''agents''
     [key_column ''id'', default_column ''name'' TEXT [], default_column ''status'' TEXT ''offline'',
      default_column ''capabilities'' JSONB ''[]'', column ''last_heartbeat'' TEXT, column ''registered_at'' TEXT]"

definition discovery_channels_table :: ddl where
  "discovery_channels_table = CreateTable IfNotExists ''discovery_channels''
     [key_column ''id'', default_column ''name'' TEXT [], default_column ''discord_id'' TEXT [],
      default_column ''purpose'' TEXT [], default_column ''category'' TEXT [],
      default_column ''members'' JSONB ''[]'', column ''created_at'' TEXT, column ''updated_at'' TEXT]"

definition discovery_roles_table :: ddl where
  "discovery_roles_table = CreateTable IfNotExists ''discovery_roles''
     [key_column ''id'', default_column ''name'' TEXT [], default_column ''discord_id'' TEXT [],
      default_column ''members'' JSONB ''[]'', column ''created_at'' TEXT, column ''updated_at'' TEXT]"

definition agents_columns :: "ddl list" where
  "agents_columns = map (AddColumn IfNotExists ''agents'')
     [default_column ''discord_user_id'' TEXT [], default_column ''home_channel'' TEXT [],
      default_column ''mention_format'' TEXT [], default_column ''channels'' JSONB ''[]'',
      default_column ''hive_local_version'' TEXT [], default_column ''hive_plugin_version'' TEXT [],
      default_column ''activity'' TEXT [], nullable_column ''token'' TEXT]"

definition claims_table :: ddl where
  "claims_table = CreateTable IfNotExists ''claims''
     [key_column ''id'', column ''type'' TEXT, column ''resource'' TEXT, column ''agent_id'' TEXT,
      default_column ''status'' TEXT ''active'', default_column ''metadata'' JSONB ''{}'',
      column ''claimed_at'' TEXT, column ''expires_at'' TEXT, column ''updated_at'' TEXT]"

text \<open>The session columns, the same for three tables.\<close>

definition session_columns :: "string \<Rightarrow> ddl list" where
  "session_columns t = map (AddColumn IfNotExists t)
     [default_column ''session_key'' TEXT [], default_column ''session_id'' TEXT [],
      default_column ''channel'' TEXT [], default_column ''sender_id'' TEXT [],
      default_column ''sender_is_owner'' BOOLEAN ''false'', default_column ''sandboxed'' BOOLEAN ''false'']"

definition claim_queue_table :: ddl where
  "claim_queue_table = CreateTable IfNotExists ''claim_queue''
     [key_column ''id'', column ''resource'' TEXT, column ''agent_id'' TEXT, column ''type'' TEXT,
      default_column ''metadata'' JSONB ''{}'', default_column ''session_key'' TEXT [],
      default_column ''session_id'' TEXT [], default_column ''channel'' TEXT [],
      default_column ''sender_id'' TEXT [], default_column ''sender_is_owner'' BOOLEAN ''false'',
      default_column ''sandboxed'' BOOLEAN ''false'', default_column ''expires_in_sec'' INTEGER ''3600'',
      column ''queued_at'' TEXT]"

definition todos_table :: ddl where
  "todos_table = CreateTable IfNotExists ''todos''
     [key_column ''id'', column ''agent_id'' TEXT, column ''title'' TEXT, default_column ''status'' TEXT ''pending'',
      default_column ''sort_order'' INTEGER ''0'', default_column ''parent_task'' TEXT [],
      default_column ''context'' TEXT [], column ''created_at'' TEXT, column ''updated_at'' TEXT]"

definition captured_sessions_table :: ddl where
  "captured_sessions_table = CreateTable IfNotExists ''captured_sessions''
     [key_column ''id'', default_column ''agent_id'' TEXT [], default_column ''session_key'' TEXT [],
      default_column ''session_id'' TEXT [], default_column ''channel'' TEXT [],
      default_column ''sender_id'' TEXT [], default_column ''model'' TEXT [], default_column ''provider'' TEXT [],
      default_column ''started_at'' TEXT [], default_column ''finished_at'' TEXT [], default_column ''repo'' TEXT [],
      default_column ''paths'' JSONB ''[]'', default_column ''summary'' TEXT [],
      default_column ''turns'' JSONB ''[]'', default_column ''tool_calls'' JSONB ''[]'',
      default_column ''metadata'' JSONB ''{}'', default_column ''parent_session_id'' TEXT [],
      default_column ''usage'' JSONB ''{}'', default_column ''created_at'' TEXT []]"

definition schemaTables :: "ddl list" where
  "schemaTables =
     [memory_table, tasks_table, task_notes_table, agents_table, discovery_channels_table, discovery_roles_table] @
     agents_columns @ [claims_table] @
     session_columns ''memory'' @ session_columns ''tasks'' @ session_columns ''claims'' @
     [claim_queue_table, todos_table, captured_sessions_table, todos_table]"

definition schemaIndexes :: "ddl list" where
  "schemaIndexes =
     [plain_index ''idx_memory_agent'' ''memory'' [''agent_id''],
      partial_index ''idx_agents_token'' ''agents'' [''token''] (WhereNotNull ''token''),
      plain_index ''idx_tasks_status'' ''tasks'' [''status''],
      plain_index ''idx_tasks_assignee'' ''tasks'' [''assignee''],
      plain_index ''idx_tasks_creator'' ''tasks'' [''creator''],
      plain_index ''idx_task_notes_task'' ''task_notes'' [''task_id''],
      plain_index ''idx_discovery_channels_discord'' ''discovery_channels'' [''discord_id''],
      plain_index ''idx_discovery_roles_discord'' ''discovery_roles'' [''discord_id''],
      unique_index ''idx_claims_active_resource'' ''claims'' [''resource''] (WhereEq ''status'' ''active''),
      plain_index ''idx_claims_agent'' ''claims'' [''agent_id''],
      plain_index ''idx_claims_status'' ''claims'' [''status''],
      plain_index ''idx_memory_session'' ''memory'' [''session_key''],
      plain_index ''idx_tasks_session'' ''tasks'' [''session_key''],
      plain_index ''idx_claims_session'' ''claims'' [''session_key''],
      plain_index ''idx_claim_queue_resource'' ''claim_queue'' [''resource'', ''queued_at''],
      plain_index ''idx_claim_queue_agent'' ''claim_queue'' [''agent_id''],
      plain_index ''idx_todos_agent'' ''todos'' [''agent_id''],
      plain_index ''idx_todos_agent_status'' ''todos'' [''agent_id'', ''status''],
      plain_index ''idx_captured_sessions_agent'' ''captured_sessions'' [''agent_id''],
      plain_index ''idx_captured_sessions_repo'' ''captured_sessions'' [''repo''],
      plain_index ''idx_captured_sessions_started'' ''captured_sessions'' [''started_at''],
      plain_index ''idx_todos_agent'' ''todos'' [''agent_id''],
      plain_index ''idx_todos_agent_status'' ''todos'' [''agent_id'', ''status'']]"

section \<open>Migrating\<close>

text \<open>\<^verbatim>\<open>migrate\<close>: the tables in one transaction, then the indexes in another; \<open>fate\<close> is what becomes of the
  first and the second \<^verbatim>\<open>ExecContext\<close>.\<close>

definition exec_schema :: "commit_fate \<Rightarrow> contents \<Rightarrow> ddl list \<Rightarrow> catalog \<Rightarrow> goerr option \<times> catalog" where
  "exec_schema fate ct ds c = (case fate of
       Committed \<Rightarrow> exec_batch ct ds c
     | NotCommitted e \<Rightarrow> (Some e, c)
     | MaybeCommitted e \<Rightarrow> (Some e, snd (exec_batch ct ds c)))"

definition migrate :: "commit_fate \<Rightarrow> commit_fate \<Rightarrow> contents \<Rightarrow> catalog \<Rightarrow> goerr option \<times> catalog" where
  "migrate fate1 fate2 ct c = (case exec_schema fate1 ct schemaTables c of
       (Some e, c1) \<Rightarrow> (Some e, c1)
     | (None, c1) \<Rightarrow> exec_schema fate2 ct schemaIndexes c1)"

section \<open>Migrating again\<close>

fun established :: "ddl \<Rightarrow> catalog \<Rightarrow> bool" where
  "established (CreateTable g t cols) c \<longleftrightarrow> ca_tables c t \<noteq> None"
| "established (AddColumn g t col) c \<longleftrightarrow> (case ca_tables c t of None \<Rightarrow> False | Some cols \<Rightarrow> co_name col \<in> co_name ` set cols)"
| "established (CreateIndex g n ix) c \<longleftrightarrow> ca_indexes c n \<noteq> None"

lemma put_table_simps [simp]:
  "ca_tables (ds_catalog (put_table t cols s)) = (ca_tables (ds_catalog s))(t \<mapsto> cols)"
  "ca_indexes (ds_catalog (put_table t cols s)) = ca_indexes (ds_catalog s)"
  "ds_added (put_table t cols s) = ds_added s"
  by (simp_all add: put_table_def)

lemma exec_establishes: "exec_ddl ct d s = Inr s1 \<Longrightarrow> established d (ds_catalog s1)"
  by (cases "(ct, d, s)" rule: exec_ddl.cases) (auto split: option.splits if_splits)

lemma exec_keeps_established:
  "exec_ddl ct d s = Inr s1 \<Longrightarrow> established e (ds_catalog s) \<Longrightarrow> established e (ds_catalog s1)"
  by (cases "(ct, d, s)" rule: exec_ddl.cases; cases "(e, ds_catalog s)" rule: established.cases)
    (auto split: option.splits if_splits)

text \<open>A guarded statement whose object is there does nothing, and every statement of the schema is guarded.\<close>

fun guarded :: "ddl \<Rightarrow> bool" where
  "guarded (CreateTable g t cols) \<longleftrightarrow> g = IfNotExists"
| "guarded (AddColumn g t c) \<longleftrightarrow> g = IfNotExists"
| "guarded (CreateIndex g n ix) \<longleftrightarrow> g = IfNotExists"

lemma schema_guarded: "list_all guarded (schemaTables @ schemaIndexes)"
  by code_simp

lemma exec_established: "guarded d \<Longrightarrow> established d (ds_catalog s) \<Longrightarrow> exec_ddl ct d s = Inr s"
  by (cases "(ct, d, s)" rule: exec_ddl.cases) (auto split: option.splits if_splits)

lemma execs_keep_established:
  "exec_ddls ct ds s = Inr s1 \<Longrightarrow> established e (ds_catalog s) \<Longrightarrow> established e (ds_catalog s1)"
  by (induction ct ds s rule: exec_ddls.induct) (auto split: sum.splits dest: exec_keeps_established)

lemma execs_establish: "exec_ddls ct ds s = Inr s1 \<Longrightarrow> d \<in> set ds \<Longrightarrow> established d (ds_catalog s1)"
  by (induction ct ds s rule: exec_ddls.induct)
    (auto split: sum.splits dest: exec_establishes execs_keep_established)

lemma execs_established:
  "\<forall>d \<in> set ds. guarded d \<and> established d (ds_catalog s) \<Longrightarrow> exec_ddls ct ds s = Inr s"
  by (induction ds) (simp_all add: exec_established)

lemma batch_establishes:
  assumes "exec_batch ct ds c = (None, c1)"
  shows "\<forall>d \<in> set ds. established d c1" "established e c \<Longrightarrow> established e c1"
proof -
  obtain s where s: "exec_ddls ct ds \<lparr>ds_catalog = c, ds_added = []\<rparr> = Inr s" "c1 = ds_catalog s"
    using assms by (auto simp: exec_batch_def split: sum.splits)
  show "\<forall>d \<in> set ds. established d c1" using execs_establish [OF s(1)] s(2) by blast
  show "established e c \<Longrightarrow> established e c1" using execs_keep_established [OF s(1)] s(2) by simp
qed

lemma batch_established:
  "ds \<in> {schemaTables, schemaIndexes} \<Longrightarrow> \<forall>d \<in> set ds. established d c \<Longrightarrow> exec_batch ct ds c = (None, c)"
  using schema_guarded by (auto simp: exec_batch_def execs_established list_all_iff)

definition migrated :: "catalog \<Rightarrow> bool" where
  "migrated c \<longleftrightarrow> (\<forall>d \<in> set (schemaTables @ schemaIndexes). established d c)"

lemma migrated_stays: "migrated c \<Longrightarrow> migrate Committed Committed ct c = (None, c)"
  by (simp add: migrate_def exec_schema_def batch_established migrated_def)

lemma migrate_migrates:
  assumes "migrate f1 f2 ct c = (None, c1)"
  shows "migrated c1"
proof -
  obtain c0 where c0: "exec_batch ct schemaTables c = (None, c0)" "exec_batch ct schemaIndexes c0 = (None, c1)"
    using assms by (auto simp: migrate_def exec_schema_def split: prod.splits option.splits commit_fate.splits)
  show ?thesis using batch_establishes [OF c0(1)] batch_establishes [OF c0(2)] by (auto simp: migrated_def)
qed

text \<open>Interrupted attempts, one after the other.\<close>

fun attempts :: "(commit_fate \<times> commit_fate) list \<Rightarrow> contents \<Rightarrow> catalog \<Rightarrow> catalog" where
  "attempts [] ct c = c"
| "attempts ((f1, f2) # fs) ct c = attempts fs ct (snd (migrate f1 f2 ct c))"

lemma attempt_resumes:
  assumes "migrate Committed Committed ct c = (None, c1)"
  shows "migrate Committed Committed ct (snd (migrate f1 f2 ct c)) = (None, c1)"
proof -
  obtain c0 where c0: "exec_batch ct schemaTables c = (None, c0)" "exec_batch ct schemaIndexes c0 = (None, c1)"
    using assms by (auto simp: migrate_def exec_schema_def split: prod.splits option.splits)
  have "snd (migrate f1 f2 ct c) \<in> {c, c0, c1}"
    using c0 by (auto simp: migrate_def exec_schema_def split: commit_fate.split)
  moreover have "migrate Committed Committed ct c0 = (None, c1)"
    using c0 batch_established [OF _ batch_establishes(1) [OF c0(1)]] by (simp add: migrate_def exec_schema_def)
  ultimately show ?thesis using assms migrated_stays [OF migrate_migrates [OF assms]] by auto
qed

text \<open>An empty database is migrated.\<close>

lemma fresh_start: "fst (migrate Committed Committed no_rows empty_catalog) = None"
  by code_simp

text \<open>In one transaction the schema would be refused, which is why there are two.\<close>

lemma one_transaction_refused:
  "fst (exec_batch no_rows (schemaTables @ schemaIndexes) empty_catalog) = Some unsupported"
  by code_simp

section \<open>What the statements of the store need\<close>

text \<open>The table and the columns of each INSERT of the store, and of the reads that name others.\<close>

type_synonym column_use = "string \<times> string list"

definition session_use :: "string list" where
  "session_use = [''session_key'', ''session_id'', ''channel'', ''sender_id'', ''sender_is_owner'', ''sandboxed'']"

definition insert_memory :: column_use where
  "insert_memory = (''memory'', [''key'', ''value'', ''agent_id'', ''tags'', ''version''] @ session_use @ [''created_at'', ''updated_at''])"

definition insert_task :: column_use where
  "insert_task = (''tasks'', [''id'', ''title'', ''description'', ''status'', ''creator'', ''assignee'', ''priority'', ''tags''] @
     session_use @ [''created_at'', ''updated_at''])"

definition insert_note :: column_use where
  "insert_note = (''task_notes'', [''task_id'', ''note'', ''agent_id'', ''created_at''])"

definition insert_heartbeat :: column_use where
  "insert_heartbeat = (''agents'', [''id'', ''name'', ''status'', ''activity'', ''capabilities'', ''last_heartbeat'',
     ''registered_at'', ''hive_local_version'', ''hive_plugin_version''])"

definition insert_token :: column_use where
  "insert_token = (''agents'', [''id'', ''name'', ''status'', ''capabilities'', ''last_heartbeat'', ''registered_at'', ''token''])"

definition insert_channel :: column_use where
  "insert_channel = (''discovery_channels'', [''id'', ''name'', ''discord_id'', ''purpose'', ''category'', ''members'',
     ''created_at'', ''updated_at''])"

definition insert_role :: column_use where
  "insert_role = (''discovery_roles'', [''id'', ''name'', ''discord_id'', ''members'', ''created_at'', ''updated_at''])"

definition insert_claim :: column_use where
  "insert_claim = (''claims'', [''id'', ''type'', ''resource'', ''agent_id'', ''status'', ''metadata''] @ session_use @
     [''claimed_at'', ''expires_at'', ''updated_at''])"

definition insert_waiter :: column_use where
  "insert_waiter = (''claim_queue'', [''id'', ''resource'', ''agent_id'', ''type'', ''metadata''] @ session_use @
     [''expires_in_sec'', ''queued_at''])"

definition insert_todo :: column_use where
  "insert_todo = (''todos'', [''id'', ''agent_id'', ''title'', ''status'', ''sort_order'', ''parent_task'', ''context'',
     ''created_at'', ''updated_at''])"

definition insert_session :: column_use where
  "insert_session = (''captured_sessions'', [''id'', ''agent_id'', ''session_key'', ''session_id'', ''channel'', ''sender_id'',
     ''model'', ''provider'', ''started_at'', ''finished_at'', ''repo'', ''paths'', ''summary'', ''turns'', ''tool_calls'',
     ''metadata'', ''parent_session_id'', ''usage'', ''created_at''])"

definition select_agent :: column_use where
  "select_agent = (''agents'', [''id'', ''name'', ''status'', ''activity'', ''capabilities'', ''last_heartbeat'',
     ''registered_at'', ''hive_local_version'', ''hive_plugin_version'', ''token''])"

definition select_discovery_agent :: column_use where
  "select_discovery_agent = (''agents'', [''id'', ''name'', ''status'', ''capabilities'', ''last_heartbeat'',
     ''registered_at'', ''discord_user_id'', ''home_channel'', ''mention_format'', ''channels''])"

definition store_inserts :: "column_use list" where
  "store_inserts = [insert_memory, insert_task, insert_note, insert_heartbeat, insert_token, insert_channel, insert_role,
     insert_claim, insert_waiter, insert_todo, insert_session]"

definition store_selects :: "column_use list" where
  "store_selects = [select_agent, select_discovery_agent, (''task_notes'', [''id'', ''note'', ''task_id'', ''created_at''])]"

text \<open>The columns that a row cannot do without.\<close>

definition required :: "column list \<Rightarrow> string list" where
  "required cols = map co_name (filter (\<lambda>c. co_not_null c \<and> co_default c = None \<and> co_type c \<noteq> BIGSERIAL) cols)"

definition readable :: "catalog \<Rightarrow> column_use \<Rightarrow> bool" where
  "readable c u = (case ca_tables c (fst u) of None \<Rightarrow> False | Some cols \<Rightarrow> set (snd u) \<subseteq> co_name ` set cols)"

definition insertable :: "catalog \<Rightarrow> column_use \<Rightarrow> bool" where
  "insertable c u = (case ca_tables c (fst u) of
       None \<Rightarrow> False
     | Some cols \<Rightarrow> set (snd u) \<subseteq> co_name ` set cols \<and> set (required cols) \<subseteq> set (snd u))"

text \<open>
  A database of some age: the tables it has were created with the columns of the statement of today at least,
  and none of its other columns is one a row cannot do without.
\<close>

fun created :: "ddl \<Rightarrow> (string \<times> column list) list" where
  "created (CreateTable g t cols) = [(t, cols)]"
| "created d = []"

definition base_tables :: "(string \<times> column list) list" where
  "base_tables = concat (map created schemaTables)"

definition aged :: "catalog \<Rightarrow> bool" where
  "aged c \<longleftrightarrow> (\<forall>t cols old. map_of base_tables t = Some cols \<longrightarrow> ca_tables c t = Some old \<longrightarrow>
     co_name ` set cols \<subseteq> co_name ` set old \<and> set (required old) \<subseteq> set (required cols))"

text \<open>Following the statements with the columns that are certainly there and those that may be required.\<close>

type_synonym known = "(string \<times> string list \<times> string list) list"

fun learn :: "ddl \<Rightarrow> known \<Rightarrow> known" where
  "learn (CreateTable g t cols) K = (if map_of K t = None then (t, map co_name cols, required cols) # K else K)"
| "learn (AddColumn g t c) K = (case map_of K t of None \<Rightarrow> K | Some (ns, rs) \<Rightarrow> (t, co_name c # ns, rs) # K)"
| "learn (CreateIndex g n ix) K = K"

fun runnable :: "(string \<times> string) list \<Rightarrow> known \<Rightarrow> ddl \<Rightarrow> bool" where
  "runnable F K (CreateTable g t cols) \<longleftrightarrow> g = IfNotExists \<and> map_of base_tables t = Some cols \<and>
     list_all (\<lambda>c. case co_references c of None \<Rightarrow> True | Some (u, _) \<Rightarrow> map_of K u \<noteq> None) cols"
| "runnable F K (AddColumn g t c) \<longleftrightarrow> g = IfNotExists \<and> map_of K t \<noteq> None \<and> (co_not_null c \<longrightarrow> co_default c \<noteq> None)"
| "runnable F K (CreateIndex g n ix) \<longleftrightarrow> g = IfNotExists \<and> (case map_of K (ix_table ix) of
       None \<Rightarrow> False | Some (ns, rs) \<Rightarrow> set (index_uses ix) \<subseteq> set ns \<and> \<not> list_ex (\<lambda>c. (ix_table ix, c) \<in> set F) (index_uses ix))"

fun adds :: "ddl \<Rightarrow> (string \<times> string) list" where
  "adds (AddColumn g t c) = [(t, co_name c)]"
| "adds d = []"

fun runs :: "(string \<times> string) list \<Rightarrow> known \<Rightarrow> ddl list \<Rightarrow> known option" where
  "runs F K [] = Some K"
| "runs F K (d # ds) = (if runnable F K d then runs (adds d @ F) (learn d K) ds else None)"

definition covers :: "catalog \<Rightarrow> known \<Rightarrow> bool" where
  "covers c K \<longleftrightarrow> (\<forall>t ns rs. map_of K t = Some (ns, rs) \<longrightarrow>
     (\<exists>cols. ca_tables c t = Some cols \<and> set ns \<subseteq> co_name ` set cols \<and> set (required cols) \<subseteq> set rs))"

lemma required_simps [simp]: "required (cols @ [c]) = required cols @ required [c]"
  by (simp add: required_def)

lemma coversD:
  "covers c K \<Longrightarrow> map_of K t = Some (ns, rs) \<Longrightarrow>
     \<exists>cols. ca_tables c t = Some cols \<and> set ns \<subseteq> co_name ` set cols \<and> set (required cols) \<subseteq> set rs"
  by (simp add: covers_def)

lemma covers_put:
  assumes "covers (ds_catalog s) K" "\<And>old. ca_tables (ds_catalog s) t = Some old \<Longrightarrow>
      co_name ` set old \<subseteq> co_name ` set cols \<and> set (required cols) \<subseteq> set (required old)"
  shows "covers (ds_catalog (put_table t cols s)) K"
  unfolding covers_def
proof (intro allI impI)
  fix u ns rs
  assume u: "map_of K u = Some (ns, rs)"
  obtain c where c: "ca_tables (ds_catalog s) u = Some c" "set ns \<subseteq> co_name ` set c" "set (required c) \<subseteq> set rs"
    using coversD [OF assms(1) u] by blast
  show "\<exists>c. ca_tables (ds_catalog (put_table t cols s)) u = Some c \<and> set ns \<subseteq> co_name ` set c \<and> set (required c) \<subseteq> set rs"
  proof (cases "u = t")
    case True
    then have "co_name ` set c \<subseteq> co_name ` set cols \<and> set (required cols) \<subseteq> set (required c)" using assms(2) c(1) by simp
    then show ?thesis using True c by auto
  qed (use c in simp)
qed

lemma covers_None: "covers c K \<Longrightarrow> ca_tables c t = None \<Longrightarrow> map_of K t = None"
  using coversD [of c K t] by (cases "map_of K t") auto

lemma covers_learn:
  assumes "covers c K" "ca_tables c t = Some cols" "set ns \<subseteq> co_name ` set cols" "set (required cols) \<subseteq> set rs"
  shows "covers c ((t, ns, rs) # K)"
  using assms by (auto simp: covers_def)

lemma covers_add: "covers c K \<Longrightarrow> covers (c\<lparr>ca_indexes := f\<rparr>) K"
  by (simp add: covers_def)

lemma runnable_create:
  assumes "covers (ds_catalog s) K" "aged (ds_catalog s)" "runnable F K (CreateTable g t cols)"
  shows "\<exists>s1. exec_ddl ct (CreateTable g t cols) s = Inr s1 \<and> covers (ds_catalog s1) (learn (CreateTable g t cols) K) \<and>
    aged (ds_catalog s1) \<and> ds_added s1 = ds_added s"
proof (cases "ca_tables (ds_catalog s) t")
  case (Some old)
  then show ?thesis using assms covers_learn [OF assms(1) Some] by (auto simp: aged_def)
next
  case None
  then have K: "map_of K t = None" by (rule covers_None [OF assms(1)])
  have refs: "list_all (\<lambda>c. case co_references c of None \<Rightarrow> True | Some (u, _) \<Rightarrow> ca_tables (ds_catalog s) u \<noteq> None) cols"
    using assms(3) covers_None [OF assms(1)] by (fastforce simp: list_all_iff split: option.splits)
  have "covers (ds_catalog (put_table t cols s)) K" using None by (intro covers_put assms(1)) auto
  then have "covers (ds_catalog (put_table t cols s)) (learn (CreateTable g t cols) K)"
    using K by (auto intro!: covers_learn)
  moreover have "aged (ds_catalog (put_table t cols s))" using assms(2,3) by (auto simp: aged_def)
  ultimately show ?thesis using None refs by simp
qed

lemma aged_add:
  assumes "aged (ds_catalog s)" "ca_tables (ds_catalog s) t = Some cols" "required [c] = []"
  shows "aged (ds_catalog (put_table t (cols @ [c]) s))"
  unfolding aged_def
proof (intro allI impI)
  fix u base old
  assume u: "map_of base_tables u = Some base" "ca_tables (ds_catalog (put_table t (cols @ [c]) s)) u = Some old"
  show "co_name ` set base \<subseteq> co_name ` set old \<and> set (required old) \<subseteq> set (required base)"
  proof (cases "u = t")
    case True
    then have "co_name ` set base \<subseteq> co_name ` set cols \<and> set (required cols) \<subseteq> set (required base)"
      using assms(1,2) u(1) unfolding aged_def by blast
    then show ?thesis using True u(2) assms(3) by auto
  next
    case False
    then show ?thesis using assms(1) u unfolding aged_def by simp
  qed
qed

lemma runnable_add:
  assumes "covers (ds_catalog s) K" "aged (ds_catalog s)" "runnable F K (AddColumn g t c)"
  shows "\<exists>s1. exec_ddl ct (AddColumn g t c) s = Inr s1 \<and> covers (ds_catalog s1) (learn (AddColumn g t c) K) \<and>
    aged (ds_catalog s1) \<and> set (ds_added s1) \<subseteq> insert (t, co_name c) (set (ds_added s))"
proof -
  obtain ns rs where K: "map_of K t = Some (ns, rs)" using assms(3) by auto
  obtain cols where cols: "ca_tables (ds_catalog s) t = Some cols" "set ns \<subseteq> co_name ` set cols" "set (required cols) \<subseteq> set rs"
    using coversD [OF assms(1) K] by blast
  have free: "g = IfNotExists" "required [c] = []" "\<not> (co_not_null c \<and> co_default c = None)" using assms(3) by (auto simp: required_def)
  show ?thesis
  proof (cases "co_name c \<in> co_name ` set cols")
    case True
    then show ?thesis using K cols assms(2) free(1) covers_learn [OF assms(1) cols(1), of "co_name c # ns" rs]
      by (auto simp: subset_insertI)
  next
    case False
    have "covers (ds_catalog (put_table t (cols @ [c]) s)) K"
      using cols free by (intro covers_put assms(1)) auto
    then have "covers (ds_catalog (put_table t (cols @ [c]) s)) ((t, co_name c # ns, rs) # K)"
      using cols free by (auto intro!: covers_learn)
    moreover have "aged (ds_catalog (put_table t (cols @ [c]) s))" by (rule aged_add) (use assms(2) cols free in simp_all)
    moreover have "exec_ddl ct (AddColumn g t c) s =
        Inr (put_table t (cols @ [c]) s\<lparr>ds_added := (t, co_name c) # ds_added s\<rparr>)" using cols False free(3) by auto
    ultimately show ?thesis using K by simp
  qed
qed

lemma runnable_index:
  assumes "covers (ds_catalog s) K" "runnable F K (CreateIndex g n ix)" "set (ds_added s) \<subseteq> set F" "\<not> ct_breaks ct ix"
  shows "\<exists>s1. exec_ddl ct (CreateIndex g n ix) s = Inr s1 \<and> ca_tables (ds_catalog s1) = ca_tables (ds_catalog s) \<and>
    ds_added s1 = ds_added s"
proof (cases "ca_indexes (ds_catalog s) n")
  case None
  obtain ns rs where K: "map_of K (ix_table ix) = Some (ns, rs)" "set (index_uses ix) \<subseteq> set ns"
    "\<not> list_ex (\<lambda>c. (ix_table ix, c) \<in> set F) (index_uses ix)" using assms(2) by (auto split: option.splits)
  obtain cols where "ca_tables (ds_catalog s) (ix_table ix) = Some cols" "set ns \<subseteq> co_name ` set cols"
    using coversD [OF assms(1) K(1)] by blast
  moreover have "\<not> list_ex (\<lambda>c. (ix_table ix, c) \<in> set (ds_added s)) (index_uses ix)"
    using K(3) assms(3) by (auto simp: list_ex_iff)
  ultimately show ?thesis using None K(2) assms(4) by auto
qed (use assms(2) in simp)

lemma runnable_runs:
  assumes "covers (ds_catalog s) K" "aged (ds_catalog s)" "runnable F K d" "set (ds_added s) \<subseteq> set F"
    "\<And>ix. \<not> ct_breaks ct ix"
  shows "\<exists>s1. exec_ddl ct d s = Inr s1 \<and> covers (ds_catalog s1) (learn d K) \<and> aged (ds_catalog s1) \<and>
    set (ds_added s1) \<subseteq> set (adds d @ F)"
proof (cases d)
  case (CreateTable g t cols)
  then obtain s1 where "exec_ddl ct d s = Inr s1" "covers (ds_catalog s1) (learn d K)" "aged (ds_catalog s1)"
    "ds_added s1 = ds_added s" using runnable_create [OF assms(1,2)] assms(3) by blast
  then show ?thesis using assms(4) CreateTable by auto
next
  case (AddColumn g t c)
  then obtain s1 where "exec_ddl ct d s = Inr s1" "covers (ds_catalog s1) (learn d K)" "aged (ds_catalog s1)"
    "set (ds_added s1) \<subseteq> insert (t, co_name c) (set (ds_added s))" using runnable_add [OF assms(1,2)] assms(3) by blast
  then show ?thesis using assms(4) AddColumn by auto
next
  case (CreateIndex g n ix)
  then obtain s1 where "exec_ddl ct d s = Inr s1" "ca_tables (ds_catalog s1) = ca_tables (ds_catalog s)"
    "ds_added s1 = ds_added s" using runnable_index [OF assms(1) _ assms(4)] assms(3,5) by blast
  then show ?thesis using assms(1,2,4) CreateIndex by (simp add: covers_def aged_def)
qed

lemma runs_run:
  assumes "runs F K ds = Some K1" "covers (ds_catalog s) K" "aged (ds_catalog s)" "set (ds_added s) \<subseteq> set F"
    "\<And>ix. \<not> ct_breaks ct ix"
  shows "\<exists>s1. exec_ddls ct ds s = Inr s1 \<and> covers (ds_catalog s1) K1 \<and> aged (ds_catalog s1)"
  using assms(1-4)
proof (induction ds arbitrary: F K s)
  case (Cons d ds)
  then have "runnable F K d" "runs (adds d @ F) (learn d K) ds = Some K1" by (simp_all split: if_splits)
  with runnable_runs [OF Cons.prems(2,3) _ Cons.prems(4) assms(5), of d] Cons.IH show ?case by fastforce
qed simp

lemma schema_runs:
  "map_option (\<lambda>K. runs [] K schemaIndexes = Some K \<and>
       list_all (\<lambda>(t, cs). case map_of K t of None \<Rightarrow> False | Some (ns, rs) \<Rightarrow> set cs \<subseteq> set ns \<and> set rs \<subseteq> set cs) store_inserts \<and>
       list_all (\<lambda>(t, cs). case map_of K t of None \<Rightarrow> False | Some (ns, rs) \<Rightarrow> set cs \<subseteq> set ns) store_selects)
     (runs [] [] schemaTables) = Some True"
  by code_simp

lemma covers_insertable:
  assumes "covers c K" "case map_of K (fst u) of None \<Rightarrow> False | Some (ns, rs) \<Rightarrow> set (snd u) \<subseteq> set ns \<and> set rs \<subseteq> set (snd u)"
  shows "insertable c u"
proof -
  obtain ns rs where "map_of K (fst u) = Some (ns, rs)" "set (snd u) \<subseteq> set ns" "set rs \<subseteq> set (snd u)"
    using assms(2) by (auto split: option.splits)
  with coversD [OF assms(1)] show ?thesis by (fastforce simp: insertable_def)
qed

lemma covers_readable:
  assumes "covers c K" "case map_of K (fst u) of None \<Rightarrow> False | Some (ns, rs) \<Rightarrow> set (snd u) \<subseteq> set ns"
  shows "readable c u"
proof -
  obtain ns rs where "map_of K (fst u) = Some (ns, rs)" "set (snd u) \<subseteq> set ns"
    using assms(2) by (auto split: option.splits)
  with coversD [OF assms(1)] show ?thesis by (fastforce simp: readable_def)
qed

lemma aged_migrates:
  assumes "aged c" "\<And>ix. \<not> ct_breaks ct ix"
  shows "\<exists>c1. migrate Committed Committed ct c = (None, c1) \<and> list_all (insertable c1) store_inserts \<and>
    list_all (readable c1) store_selects"
proof -
  obtain K where K: "runs [] [] schemaTables = Some K" "runs [] K schemaIndexes = Some K"
    "list_all (\<lambda>(t, cs). case map_of K t of None \<Rightarrow> False | Some (ns, rs) \<Rightarrow> set cs \<subseteq> set ns \<and> set rs \<subseteq> set cs) store_inserts"
    "list_all (\<lambda>(t, cs). case map_of K t of None \<Rightarrow> False | Some (ns, rs) \<Rightarrow> set cs \<subseteq> set ns) store_selects"
    using schema_runs by (auto simp: map_option_eq_Some)
  obtain s1 where s1: "exec_ddls ct schemaTables \<lparr>ds_catalog = c, ds_added = []\<rparr> = Inr s1" "covers (ds_catalog s1) K"
    "aged (ds_catalog s1)"
    using runs_run [OF K(1), of "\<lparr>ds_catalog = c, ds_added = []\<rparr>" ct] assms by (auto simp: covers_def)
  obtain s2 where s2: "exec_ddls ct schemaIndexes \<lparr>ds_catalog = ds_catalog s1, ds_added = []\<rparr> = Inr s2" "covers (ds_catalog s2) K"
    using runs_run [OF K(2), of "\<lparr>ds_catalog = ds_catalog s1, ds_added = []\<rparr>" ct] s1 assms(2) by auto
  have "migrate Committed Committed ct c = (None, ds_catalog s2)"
    using s1(1) s2(1) by (simp add: migrate_def exec_schema_def exec_batch_def)
  moreover have "list_all (insertable (ds_catalog s2)) store_inserts"
    using K(3) covers_insertable [OF s2(2)] by (fastforce simp: list_all_iff)
  moreover have "list_all (readable (ds_catalog s2)) store_selects"
    using K(4) covers_readable [OF s2(2)] by (fastforce simp: list_all_iff)
  ultimately show ?thesis by blast
qed

text \<open>
  C15. Upgrading.  On a database of any age (with some of the tables or none, each with the columns it was
  first created with and perhaps some of the later ones, rows or no rows) whose rows do not break the unique
  index, the migration succeeds; and then every table and column the INSERT and SELECT statements of the
  store name exists, and every INSERT names all columns that a row cannot do without.
\<close>

theorem migration_serves_store:
  assumes "aged c" "\<And>ix. \<not> ct_breaks ct ix"
  shows "\<exists>c1. migrate Committed Committed ct c = (None, c1) \<and> list_all (insertable c1) store_inserts \<and>
    list_all (readable c1) store_selects"
  using assms by (rule aged_migrates)

text \<open>Witness: the agents of a first version, before any column was added, with rows.\<close>

definition first_agents :: "column list" where
  "first_agents = (case map_of base_tables ''agents'' of Some cols \<Rightarrow> cols | None \<Rightarrow> [])"

definition first_version :: catalog where
  "first_version = empty_catalog\<lparr>ca_tables := [''agents'' \<mapsto> first_agents]\<rparr>"

lemma first_version_aged: "aged first_version"
  by (auto simp: aged_def first_version_def empty_catalog_def first_agents_def split: if_splits)

theorem migration_serves_store_witness:
  "\<exists>c1. migrate Committed Committed \<lparr>ct_rows = (\<lambda>t. t = ''agents''), ct_breaks = (\<lambda>_. False)\<rparr> first_version = (None, c1) \<and>
     insertable c1 insert_token \<and> \<not> insertable first_version insert_token"
proof -
  from migration_serves_store [OF first_version_aged, of "\<lparr>ct_rows = (\<lambda>t. t = ''agents''), ct_breaks = (\<lambda>_. False)\<rparr>"]
  obtain c1 where "migrate Committed Committed \<lparr>ct_rows = (\<lambda>t. t = ''agents''), ct_breaks = (\<lambda>_. False)\<rparr> first_version = (None, c1)"
    "list_all (insertable c1) store_inserts" by auto
  moreover have "\<not> insertable first_version insert_token" by code_simp
  ultimately show ?thesis by (auto simp: store_inserts_def)
qed

text \<open>
  C16. Starting again.  On a database of any age (as for C15) whose rows do not break the unique index, after
  any number of interrupted attempts at migrating, in which the driver loses either transaction or only its
  answer, at any point, migrating again succeeds and ends with one and the same catalogue; and once it has
  succeeded, every later start finds nothing to do, whatever the tables then hold.  This is what the
  \<^verbatim>\<open>IF NOT EXISTS\<close> of every one of the statements is for.
\<close>

theorem migration_resumes:
  assumes "aged c" "\<And>ix. \<not> ct_breaks ct ix"
  shows "\<exists>c1. (\<forall>fs. migrate Committed Committed ct (attempts fs ct c) = (None, c1)) \<and>
    (\<forall>ct'. migrate Committed Committed ct' c1 = (None, c1))"
proof -
  obtain c1 where c1: "migrate Committed Committed ct c = (None, c1)" using aged_migrates [OF assms] by blast
  have "migrate Committed Committed ct (attempts fs ct c) = (None, c1)" for fs
    using c1 by (induction fs ct c rule: attempts.induct) (simp_all add: attempt_resumes)
  then show ?thesis using migrated_stays [OF migrate_migrates [OF c1]] by blast
qed

text \<open>Witness: that first version; a start whose second transaction is lost, one that loses its answer, and a third.\<close>

theorem migration_resumes_witness:
  "fst (migrate Committed Committed no_rows
     (attempts [(Committed, NotCommitted (DriverError ''gone'')), (MaybeCommitted (DriverError ''gone''), Committed)] no_rows
        first_version)) = None"
proof -
  from migration_resumes [OF first_version_aged, of no_rows] show ?thesis by (auto simp: no_rows_def simp del: attempts.simps)
qed

end
