(* ===== verification/Startup.thy ===== *)
theory Startup
  imports ClaimStore TodoStore Migration
begin

text \<open>
  How the program starts and what it runs beside the handlers: \<^verbatim>\<open>cmd/hive-server/serve.go\<close> (configuration),
  \<^verbatim>\<open>store.New\<close> and \<^verbatim>\<open>migrate\<close> (\<^verbatim>\<open>internal/store/store.go\<close>), \<^verbatim>\<open>Server.Run\<close> and the two background
  loops (\<^verbatim>\<open>internal/server/server.go\<close>).  Flags, environment, driver and listener are parameters.
\<close>

section \<open>Configuration\<close>

record Config =
  cfg_BindAddr :: string
  cfg_DatabaseURL :: string
  cfg_Token :: string
  cfg_OnlyClawsURL :: string
  cfg_OnlyClawsToken :: string
  cfg_GitHubWebhookSecret :: string

definition defaultDatabaseURL :: string where
  "defaultDatabaseURL = ''postgresql://root@localhost:26257/hive?sslmode=disable''"

definition defaultPort :: string where
  "defaultPort = ''8080''"

text \<open>\<^verbatim>\<open>net.JoinHostPort\<close> for a host without colons.\<close>

definition JoinHostPort :: "string \<Rightarrow> string \<Rightarrow> string" where
  "JoinHostPort host port = host @ '':'' @ port"

definition serve_config :: "(string \<Rightarrow> string) \<Rightarrow> (string \<Rightarrow> string) \<Rightarrow> Config" where
  "serve_config flag getenv =
     (let bind = (if flag ''bind'' = []
            then JoinHostPort ''0.0.0.0'' (if getenv ''PORT'' = [] then defaultPort else getenv ''PORT'')
            else flag ''bind'');
          db1 = (if flag ''database-url'' = [] then getenv ''DATABASE_URL'' else flag ''database-url'');
          dbURL = (if db1 = [] then defaultDatabaseURL else db1)
      in \<lparr>cfg_BindAddr = bind, cfg_DatabaseURL = dbURL, cfg_Token = getenv ''HIVE_TOKEN'',
          cfg_OnlyClawsURL = getenv ''ONLY_CLAWS_URL'', cfg_OnlyClawsToken = getenv ''ONLY_CLAWS_TOKEN'',
          cfg_GitHubWebhookSecret = getenv ''GITHUB_WEBHOOK_SECRET''\<rparr>)"

section \<open>Opening the store\<close>

text \<open>What the program does to the outside, in order.\<close>

datatype action = OpenDB string | PingDB | Migrate | CloseDB | StartExpiry | StartPrune | Listen string

text \<open>
  What the outside decides: whether opening, the ping and listening fail, what becomes of the two
  transactions of the migration, and the rows they find.
\<close>

record world =
  wd_error :: "action \<Rightarrow> goerr option"
  wd_tables :: commit_fate
  wd_indexes :: commit_fate
  wd_contents :: contents

definition store_New :: "world \<Rightarrow> string \<Rightarrow> catalog \<Rightarrow> (goerr option \<times> catalog) \<times> action list" where
  "store_New wd url c = (case wd_error wd (OpenDB url) of
       Some e \<Rightarrow> ((Some (Wrapped ''open db'' e), c), [OpenDB url])
     | None \<Rightarrow> (case wd_error wd PingDB of
           Some e \<Rightarrow> ((Some (Wrapped ''ping db'' e), c), [OpenDB url, PingDB, CloseDB])
         | None \<Rightarrow> (case migrate (wd_tables wd) (wd_indexes wd) (wd_contents wd) c of
               (Some e, c1) \<Rightarrow> ((Some (Wrapped ''migrate'' e), c1), [OpenDB url, PingDB, Migrate, CloseDB])
             | (None, c1) \<Rightarrow> ((None, c1), [OpenDB url, PingDB, Migrate]))))"

section \<open>Running the server\<close>

text \<open>
  \<^verbatim>\<open>Run\<close> up to the return of \<^verbatim>\<open>ListenAndServe\<close>, which always returns an error: \<open>None\<close> stands for
  \<^verbatim>\<open>http.ErrServerClosed\<close>, the end of a graceful shutdown.
\<close>

definition Run :: "world \<Rightarrow> Config \<Rightarrow> catalog \<Rightarrow> (goerr option \<times> catalog) \<times> action list" where
  "Run wd cfg c = (case store_New wd (cfg_DatabaseURL cfg) c of
       ((Some e, c1), acts) \<Rightarrow> ((Some (Wrapped ''open store'' e), c1), acts)
     | ((None, c1), acts) \<Rightarrow>
         (((case wd_error wd (Listen (cfg_BindAddr cfg)) of None \<Rightarrow> None | Some e \<Rightarrow> Some (Wrapped ''listen'' e)), c1),
          acts @ [StartExpiry, StartPrune, Listen (cfg_BindAddr cfg), CloseDB]))"

section \<open>The background loops\<close>

datatype loop_event = CtxDone | Tick senv

text \<open>The loops on the events of their \<^verbatim>\<open>select\<close>: the database and the lines logged.\<close>

fun runClaimExpiry :: "loop_event list \<Rightarrow> database \<Rightarrow> database \<times> string list" where
  "runClaimExpiry [] db = (db, [])"
| "runClaimExpiry (CtxDone # evs) db = (db, [])"
| "runClaimExpiry (Tick E # evs) db =
     (case ExpireOldClaims E db of
        (Inl e, db1) \<Rightarrow> (case runClaimExpiry evs db1 of (d, ls) \<Rightarrow> (d, ''expire claims'' # ls))
      | (Inr n, db1) \<Rightarrow> (case runClaimExpiry evs db1 of
            (d, ls) \<Rightarrow> (d, if n > 0 then (''expired '' @ show_int n @ '' stale claim(s)'') # ls else ls)))"

definition todoMaxAge :: duration where
  "todoMaxAge = 24 * Hour"

fun runTodoPrune :: "loop_event list \<Rightarrow> database \<Rightarrow> database \<times> string list" where
  "runTodoPrune [] db = (db, [])"
| "runTodoPrune (CtxDone # evs) db = (db, [])"
| "runTodoPrune (Tick E # evs) db =
     (case PruneDoneTodos E [] todoMaxAge db of
        (Inl e, db1) \<Rightarrow> (case runTodoPrune evs db1 of (d, ls) \<Rightarrow> (d, ''prune todos'' # ls))
      | (Inr n, db1) \<Rightarrow> (case runTodoPrune evs db1 of
            (d, ls) \<Rightarrow> (d, if n > 0 then (''pruned '' @ show_int (int n) @ '' completed todo(s)'') # ls else ls)))"

section \<open>What starting guarantees\<close>

text \<open>The database is closed exactly once if and only if it was opened, on every path; nothing is served
  and no loop is started before the migration has succeeded.\<close>

lemma store_New_closes:
  assumes "store_New wd url c = ((res, c1), acts)"
  shows "count_list acts CloseDB = (if res \<noteq> None \<and> wd_error wd (OpenDB url) = None then 1 else 0)"
    "res = None \<Longrightarrow> acts = [OpenDB url, PingDB, Migrate] \<and> migrated c1"
    "set acts \<inter> {StartExpiry, StartPrune, Listen addr} = {}"
  using assms by (auto simp: store_New_def migrate_migrates split: option.splits prod.splits)

lemma Run_closes:
  assumes "Run wd cfg c = ((res, c1), acts)"
  shows "count_list acts CloseDB = (if wd_error wd (OpenDB (cfg_DatabaseURL cfg)) = None then 1 else 0)"
    "a \<in> {StartExpiry, StartPrune, Listen addr} \<Longrightarrow> a \<in> set acts \<Longrightarrow> migrated c1"
proof -
  obtain r c0 as where new: "store_New wd (cfg_DatabaseURL cfg) c = ((r, c0), as)"
    by (metis surj_pair)
  have "r = None \<Longrightarrow> wd_error wd (OpenDB (cfg_DatabaseURL cfg)) = None"
    using new by (auto simp: store_New_def split: option.splits)
  then show "count_list acts CloseDB = (if wd_error wd (OpenDB (cfg_DatabaseURL cfg)) = None then 1 else 0)"
    using assms store_New_closes(1,2) [OF new] new by (cases r) (auto simp: Run_def)
  show "a \<in> {StartExpiry, StartPrune, Listen addr} \<Longrightarrow> a \<in> set acts \<Longrightarrow> migrated c1"
    using assms new store_New_closes(2) [OF new] store_New_closes(3) [OF new, of addr] by (cases r) (auto simp: Run_def)
qed

end
