(* ===== verification/Program.thy ===== *)
theory Program
  imports Guarantees Api Ui Startup
begin

text \<open>
  The server as a whole: requests through the version header, the mux, authentication and a router to the
  operations of the API and the pages, deliveries of the webhook, and the ticks of the background loops.
  What decides the operation or page of a request and decodes its input (huma and chi) is the parameter
  \<open>router\<close>; the JSON syntax of a delivery is \<open>pg_decode\<close>.
\<close>

section \<open>A request\<close>

record router =
  ro_api :: "http_req \<Rightarrow> goerr + string \<Rightarrow> http_error + api_op"
  ro_static :: "string \<Rightarrow> http_error + string"
  ro_query :: "http_req \<Rightarrow> string \<Rightarrow> string"

record program =
  pg_config :: Config
  pg_version :: VersionInfo
  pg_router :: router
  pg_decode :: "string \<Rightarrow> json option"

text \<open>The environments of the calls a request may make.\<close>

record request_env =
  rv_lookup :: senv
  rv_handler :: handler_env
  rv_pages :: "nat \<Rightarrow> senv"
  rv_hook :: "nat \<Rightarrow> senv"
  rv_now :: gotime
  rv_ping :: "string option"

datatype served = ApiAnswer api_answer | UiPage ui_page | Redirect string

text \<open>
  The mux behind authentication: the pages below \<^verbatim>\<open>/ui/\<close>, the API everywhere else.  A subtree pattern makes
  \<^verbatim>\<open>http.ServeMux\<close> redirect its root without the slash.
\<close>

definition authed :: "router \<Rightarrow> request_env \<Rightarrow> goerr + string \<Rightarrow> http_req \<Rightarrow> database \<Rightarrow> served reply \<times> database" where
  "authed ro v body r db =
     (if hq_Path r = ''/ui'' then (Inr (Redirect ''/ui/''), db)
      else if HasPrefix (hq_Path r) ''/ui/''
      then (case ui_Routes (hq_Method r) (drop 3 (hq_Path r)) of
              Inl h \<Rightarrow> (Inl h, db)
            | Inr p \<Rightarrow> map_reply UiPage
                (ui_serve p (ro_static ro) (hv_text (rv_handler v)) (rv_pages v) (ro_query ro r) db))
      else (case ro_api ro r body of
              Inl h \<Rightarrow> (Inl h, db)
            | Inr p \<Rightarrow> map_reply ApiAnswer (api_handle p (rv_handler v) (hq_Context r) db)))"

lemma not_ui: "\<not> HasPrefix p ''/ui'' \<Longrightarrow> p \<noteq> ''/ui'' \<and> \<not> HasPrefix p ''/ui/''"
  by (auto simp: HasPrefix_iff)

definition hook_request :: "http_req \<Rightarrow> goerr + string \<Rightarrow> webhook_request" where
  "hook_request r body = \<lparr>wr_Method = hq_Method r, wr_Body = body, wr_Header = hq_Header r\<rparr>"

definition serve :: "program \<Rightarrow> request_env \<Rightarrow> http_req \<Rightarrow> goerr + string \<Rightarrow> database \<Rightarrow>
    ((string \<times> string) list \<times> served response) \<times> database" where
  "serve pg v r body db =
     versionHeaderMiddleware (pg_version pg)
       (BuildMux (pg_version pg) (\<lambda>d. (rv_ping v, d))
          (\<lambda>r d. ServeHTTP (pg_decode pg) hive_store (rv_hook v) (rv_now v) (cfg_GitHubWebhookSecret (pg_config pg))
             (hook_request r body) d)
          (cfg_Token (pg_config pg)) (GetAgent (rv_lookup v)) (authed (pg_router pg) v body)) r db"

text \<open>Whether the credential of a request is good.\<close>

definition credential :: "program \<Rightarrow> request_env \<Rightarrow> http_req \<Rightarrow> database \<Rightarrow> bool" where
  "credential pg v r d = fst (auth_valid (cfg_Token (pg_config pg)) (GetAgent (rv_lookup v)) r d)"

section \<open>Runs\<close>

datatype event = Request request_env http_req "goerr + string" | ExpiryTick senv | PruneTick senv

primrec handle_event :: "program \<Rightarrow> event \<Rightarrow> database \<Rightarrow> database" where
  "handle_event pg (Request v r body) db = snd (serve pg v r body db)"
| "handle_event pg (ExpiryTick E) db = fst (runClaimExpiry [Tick E] db)"
| "handle_event pg (PruneTick E) db = fst (runTodoPrune [Tick E] db)"

primrec run_program :: "program \<Rightarrow> event list \<Rightarrow> database \<Rightarrow> database" where
  "run_program pg [] db = db"
| "run_program pg (ev # evs) db = run_program pg evs (handle_event pg ev db)"

primrec event_ok :: "(senv \<Rightarrow> bool) \<Rightarrow> event \<Rightarrow> bool" where
  "event_ok ok (Request v r body) \<longleftrightarrow> ok (rv_lookup v) \<and> ok (hv_E1 (rv_handler v)) \<and> ok (hv_E2 (rv_handler v)) \<and>
     (\<forall>k. ok (rv_pages v k)) \<and> (\<forall>k. ok (rv_hook v k))"
| "event_ok ok (ExpiryTick E) \<longleftrightarrow> ok E"
| "event_ok ok (PruneTick E) \<longleftrightarrow> ok E"

section \<open>Everything the server does is calls of the store\<close>

text \<open>What an operation needs of the calls its handler may make.\<close>

primrec task_allowed :: "(store_call \<Rightarrow> bool) \<Rightarrow> task_op \<Rightarrow> bool" where
  "task_allowed may (OpCreateTask inp) \<longleftrightarrow> (\<forall>t. ta_Title t = tkc_Title inp \<longrightarrow> may (OnTasks (CallCreateTask t)))"
| "task_allowed may (OpListTasks f) \<longleftrightarrow> True"
| "task_allowed may (OpGetTask i) \<longleftrightarrow> True"
| "task_allowed may (OpUpdateTask inp) \<longleftrightarrow> True"
| "task_allowed may (OpDeleteTask i) \<longleftrightarrow> True"

primrec claim_allowed :: "(store_call \<Rightarrow> bool) \<Rightarrow> claim_op \<Rightarrow> bool" where
  "claim_allowed may (OpCreateClaim inp) \<longleftrightarrow>
     (\<forall>c. cl_Type c = cci_Type inp \<and> cl_Resource c = cci_Resource inp \<longrightarrow> may (OnClaims (CallCreateClaim c))) \<and>
     (\<forall>w. cw_Type w = cci_Type inp \<and> cw_Resource w = cci_Resource inp \<longrightarrow> may (OnClaims (CallEnqueueClaim w)))"
| "claim_allowed may (OpListClaims f) \<longleftrightarrow> True"
| "claim_allowed may (OpGetClaim i) \<longleftrightarrow> True"
| "claim_allowed may (OpReleaseClaim inp) \<longleftrightarrow> may (OnClaims (CallReleaseClaim (cri_ID inp)))"
| "claim_allowed may (OpRenewClaim inp) \<longleftrightarrow> (\<forall>t. may (OnClaims (CallRenewClaim (cni_ID inp) t)))"

primrec todo_allowed :: "(store_call \<Rightarrow> bool) \<Rightarrow> todo_op \<Rightarrow> bool" where
  "todo_allowed may (OpCreateTodo inp) \<longleftrightarrow> (\<forall>t. td_Title t = tdc_Title inp \<longrightarrow> may (OnTodos (CallCreateTodo t)))"
| "todo_allowed may (OpListTodos inp) \<longleftrightarrow> True"
| "todo_allowed may (OpGetTodo i) \<longleftrightarrow> True"
| "todo_allowed may (OpUpdateTodo inp) \<longleftrightarrow> (\<forall>u. may (OnTodos (CallUpdateTodo (tdu_ID inp) u)))"
| "todo_allowed may (OpDeleteTodo inp) \<longleftrightarrow> may (OnTodos (CallDeleteTodo (tdd_ID inp)))"
| "todo_allowed may (OpPruneDone a) \<longleftrightarrow> (\<forall>age. may (OnTodos (CallPruneDoneTodos a age)))"
| "todo_allowed may (OpReorder inp) \<longleftrightarrow> may (OnTodos (CallReorderTodos (tdr_XAgentID inp) (tdr_IDs inp)))"

primrec allowed :: "(store_call \<Rightarrow> bool) \<Rightarrow> api_op \<Rightarrow> bool" where
  "allowed may (MemoryOp p) \<longleftrightarrow> True"
| "allowed may (TaskOp p) \<longleftrightarrow> task_allowed may p"
| "allowed may (AgentOp p) \<longleftrightarrow> True"
| "allowed may (DiscoveryOp p) \<longleftrightarrow> True"
| "allowed may (ClaimOp p) \<longleftrightarrow> claim_allowed may p"
| "allowed may (SessionOp p) \<longleftrightarrow> True"
| "allowed may (TodoOp p) \<longleftrightarrow> todo_allowed may p"

lemma allowed_all [simp]:
  "task_allowed (\<lambda>_. True) t" "claim_allowed (\<lambda>_. True) c" "todo_allowed (\<lambda>_. True) d" "allowed (\<lambda>_. True) p"
proof -
  show t: "task_allowed (\<lambda>_. True) t" for t by (cases t) simp_all
  show c: "claim_allowed (\<lambda>_. True) c" for c by (cases c) simp_all
  show d: "todo_allowed (\<lambda>_. True) d" for d by (cases d) simp_all
  show "allowed (\<lambda>_. True) p" by (cases p) (simp_all add: t c d)
qed

text \<open>
  The interface the layers above the store rely on: whatever its methods keep, they keep.  The calls may be
  limited to those that satisfy \<open>may\<close>.
\<close>

locale guarded_user =
  fixes I :: "database \<Rightarrow> bool" and ok :: "senv \<Rightarrow> bool" and may :: "store_call \<Rightarrow> bool"
  assumes run: "may c \<Longrightarrow> ok E \<Longrightarrow> I d \<Longrightarrow> I (run_call c E d)"
    and free: "unrestricted c \<Longrightarrow> may c"
begin

lemma memory_ops:
  assumes "ok E" "I d"
  shows "I (snd (UpsertMemory E e d))" "I (snd (GetMemory E k d))" "I (snd (ListMemory E mf d))" "I (snd (DeleteMemory E k d))"
  using run [OF _ assms, of "OnMemory (CallUpsertMemory e)"] run [OF _ assms, of "OnMemory (CallGetMemory k)"]
    run [OF _ assms, of "OnMemory (CallListMemory mf)"] run [OF _ assms, of "OnMemory (CallDeleteMemory k)"]
  by (simp_all add: free)

lemma task_ops:
  assumes "ok E" "I d"
  shows "may (OnTasks (CallCreateTask t)) \<Longrightarrow> I (snd (CreateTask E t d))" "I (snd (GetTask E i d))"
    "I (snd (ListTasks E tf d))" "I (snd (UpdateTask E i upd d))" "I (snd (DeleteTask E i d))"
  using run [OF _ assms, of "OnTasks (CallCreateTask t)"] run [OF _ assms, of "OnTasks (CallGetTask i)"]
    run [OF _ assms, of "OnTasks (CallListTasks tf)"] run [OF _ assms, of "OnTasks (CallUpdateTask i upd)"]
    run [OF _ assms, of "OnTasks (CallDeleteTask i)"]
  by (simp_all add: free)

lemma agent_ops:
  assumes "ok E" "I d"
  shows "I (snd (Heartbeat E i caps st act lv pv d))" "I (snd (GetAgent E i d))" "I (snd (ListAgents E d))"
    "I (snd (GenerateAgentToken E i d))"
  using run [OF _ assms, of "OnAgents (CallHeartbeat i caps st act lv pv)"] run [OF _ assms, of "OnAgents (CallGetAgent i)"]
    run [OF _ assms, of "OnAgents CallListAgents"] run [OF _ assms, of "OnAgents (CallGenerateAgentToken i)"]
  by (simp_all add: free)

lemma claim_ops:
  assumes "ok E" "I d"
  shows "may (OnClaims (CallCreateClaim c)) \<Longrightarrow> I (snd (CreateClaim E c d))"
    "may (OnClaims (CallEnqueueClaim w)) \<Longrightarrow> I (snd (EnqueueClaim E w d))" "I (snd (GetClaim E i d))"
    "I (snd (ListClaims E cf d))" "may (OnClaims (CallReleaseClaim i)) \<Longrightarrow> I (snd (ReleaseClaim E i d))"
    "may (OnClaims (CallRenewClaim i t)) \<Longrightarrow> I (snd (RenewClaim E i t d))"
    "may (OnClaims CallExpireOldClaims) \<Longrightarrow> I (snd (ExpireOldClaims E d))"
  using run [OF _ assms, of "OnClaims (CallCreateClaim c)"] run [OF _ assms, of "OnClaims (CallEnqueueClaim w)"]
    run [OF _ assms, of "OnClaims (CallGetClaim i)"] run [OF _ assms, of "OnClaims (CallListClaims cf)"]
    run [OF _ assms, of "OnClaims (CallReleaseClaim i)"] run [OF _ assms, of "OnClaims (CallRenewClaim i t)"]
    run [OF _ assms, of "OnClaims CallExpireOldClaims"]
  by (simp_all add: free)

lemma discovery_ops:
  assumes "ok E" "I d"
  shows "I (snd (UpsertChannel E ch d))" "I (snd (GetChannel E i d))" "I (snd (ListChannels E d))"
    "I (snd (UpsertRole E ro d))" "I (snd (GetRole E i d))" "I (snd (ListRoles E d))"
    "I (snd (UpsertAgentMeta E i m d))" "I (snd (GetDiscoveryAgent E i d))" "I (snd (ListDiscoveryAgents E d))"
  using run [OF _ assms, of "OnDiscovery (CallUpsertChannel ch)"] run [OF _ assms, of "OnDiscovery (CallGetChannel i)"]
    run [OF _ assms, of "OnDiscovery CallListChannels"] run [OF _ assms, of "OnDiscovery (CallUpsertRole ro)"]
    run [OF _ assms, of "OnDiscovery (CallGetRole i)"] run [OF _ assms, of "OnDiscovery CallListRoles"]
    run [OF _ assms, of "OnDiscovery (CallUpsertAgentMeta i m)"] run [OF _ assms, of "OnDiscovery (CallGetDiscoveryAgent i)"]
    run [OF _ assms, of "OnDiscovery CallListDiscoveryAgents"]
  by (simp_all add: free)

lemma todo_ops:
  assumes "ok E" "I d"
  shows "may (OnTodos (CallCreateTodo t)) \<Longrightarrow> I (snd (CreateTodo E t d))" "I (snd (GetTodo E i d))" "I (snd (ListTodos E df d))"
    "may (OnTodos (CallUpdateTodo i upd)) \<Longrightarrow> I (snd (UpdateTodo E i upd d))"
    "may (OnTodos (CallDeleteTodo i)) \<Longrightarrow> I (snd (DeleteTodo E i d))"
    "may (OnTodos (CallPruneDoneTodos a age)) \<Longrightarrow> I (snd (PruneDoneTodos E a age d))"
    "may (OnTodos (CallReorderTodos a is)) \<Longrightarrow> I (snd (ReorderTodos E a is d))"
  using run [OF _ assms, of "OnTodos (CallCreateTodo t)"] run [OF _ assms, of "OnTodos (CallGetTodo i)"]
    run [OF _ assms, of "OnTodos (CallListTodos df)"] run [OF _ assms, of "OnTodos (CallUpdateTodo i upd)"]
    run [OF _ assms, of "OnTodos (CallDeleteTodo i)"] run [OF _ assms, of "OnTodos (CallPruneDoneTodos a age)"]
    run [OF _ assms, of "OnTodos (CallReorderTodos a is)"]
  by (simp_all add: free)

lemma session_ops:
  assumes "ok E" "I d"
  shows "I (snd (CreateCapturedSession E cs d))" "I (snd (GetCapturedSession E i d))"
    "I (snd (ListCapturedSessions jt E sf d))"
  using run [OF _ assms, of "OnSessions (CallCreateCapturedSession cs)"] run [OF _ assms, of "OnSessions (CallGetCapturedSession i)"]
    run [OF _ assms, of "OnSessions (CallListCapturedSessions jt sf)"]
  by (simp_all add: free)

lemmas store_ops = memory_ops task_ops agent_ops claim_ops discovery_ops todo_ops session_ops

lemma and_then_keeps:
  "I (snd rd) \<Longrightarrow> (\<And>x d. I d \<Longrightarrow> I (snd (k x d))) \<Longrightarrow> I (snd (and_then rd k))"
  by (cases rd) (auto simp: and_then_def split: sum.split)

lemma guard_keeps: "I d \<Longrightarrow> (I d \<Longrightarrow> I (snd (k d))) \<Longrightarrow> I (snd (guard_reply b h k d))"
  by (simp add: guard_reply_def)

lemma shown_keeps: "I (snd rd) \<Longrightarrow> I (snd (shown failed rd))"
  by (simp add: shown_def)

lemma memory_handle_keeps: "ok (hv_E1 v) \<Longrightarrow> I d \<Longrightarrow> I (snd (memory_handle p st v ctx d))"
  by (cases p) (simp_all add: memoryUpsert_def memoryGet_def memoryList_def memoryDelete_def store_ops)

lemma task_handle_keeps: "allowed may (TaskOp p) \<Longrightarrow> ok (hv_E1 v) \<Longrightarrow> I d \<Longrightarrow> I (snd (task_handle p st v ctx d))"
  by (cases p) (simp_all add: taskCreate_def taskGet_def taskList_def taskUpdate_def taskDelete_def store_ops)

lemma agent_handle_keeps: "ok (hv_E1 v) \<Longrightarrow> I d \<Longrightarrow> I (snd (agent_handle p st v d))"
proof (cases p)
  case (OpHeartbeat inp)
  assume "ok (hv_E1 v)" "I d"
  then have "I (snd (Heartbeat (hv_E1 v) (hbi_ID inp) (hbi_Capabilities inp) (heartbeat_status (hbi_Status inp))
      (hbi_Activity inp) (hbi_HiveLocalVersion inp) (hbi_HivePluginVersion inp) d))" by (rule store_ops)
  then show ?thesis
    unfolding OpHeartbeat by (auto simp: agentHeartbeat_def Let_def split: prod.split sum.split)
qed (simp_all add: agentList_def agentGet_def agentUsage_def agentOnboard_def store_ops)

lemma discovery_handle_keeps: "ok (hv_E1 v) \<Longrightarrow> I d \<Longrightarrow> I (snd (discovery_handle p st v d))"
  by (cases p) (simp_all add: discoveryListAgents_def discoveryGetAgent_def discoveryPutAgentMeta_def
      discoveryListChannels_def discoveryGetChannel_def discoveryPutChannel_def discoveryListRoles_def discoveryGetRole_def
      discoveryPutRole_def discoveryGetRouting_def store_ops)

lemma claimCreate_keeps:
  assumes "allowed may (ClaimOp (OpCreateClaim inp))" "ok E1" "ok E2" "I d"
  shows "I (snd (claimCreate rnd E1 E2 hnow ctx inp d))"
proof (cases "cci_XAgentID inp = [] \<or> (\<exists>h. claim_duration rnd (cci_ExpiresIn inp) = Inl h)")
  case False
  then obtain dur where dur: "cci_XAgentID inp \<noteq> []" "claim_duration rnd (cci_ExpiresIn inp) = Inr dur"
    by (cases "claim_duration rnd (cci_ExpiresIn inp)") auto
  obtain res d1 where run: "CreateClaim E1 (create_claim_of ctx hnow inp dur) d = (res, d1)" by fastforce
  then have d1: "I d1" using claim_ops(1) [OF assms(2,4), of "create_claim_of ctx hnow inp dur"] assms(1)
    by (simp add: create_claim_of_def)
  show ?thesis
    using dur run d1 claim_ops(2) [OF assms(3) d1, of "create_waiter_of rnd ctx inp dur"] assms(1)
    by (auto simp: claimCreate_def create_waiter_of_def split: prod.splits sum.splits)
qed (use assms(4) in \<open>auto simp: claimCreate_def\<close>)

lemma owner_check_keeps: "ok E \<Longrightarrow> I d \<Longrightarrow> I (snd (claim_owner_check denied E a i d))"
  by (simp add: claim_owner_check_def and_then_keeps claimGet_def store_ops)

lemma claim_handle_keeps: "allowed may (ClaimOp p) \<Longrightarrow> ok (hv_E1 v) \<Longrightarrow> ok (hv_E2 v) \<Longrightarrow> I d \<Longrightarrow> I (snd (claim_handle p st v ctx d))"
  by (cases p) (simp_all add: claimCreate_keeps claimList_def claimGet_def claimRelease_def claimRenew_def and_then_keeps
      owner_check_keeps store_ops split: sum.split)

lemma session_handle_keeps: "ok (hv_E1 v) \<Longrightarrow> I d \<Longrightarrow> I (snd (session_handle p st v d))"
proof (cases p)
  case (OpGetSession i)
  assume "ok (hv_E1 v)" "I d"
  then have "I (snd (GetCapturedSession (hv_E1 v) i d))" by (rule store_ops)
  then show ?thesis unfolding OpGetSession by (auto simp: sessionGet_def split: prod.split sum.split)
qed (simp_all add: sessionCreate_def sessionList_def store_ops split: option.split)

lemma todo_handle_keeps: "allowed may (TodoOp p) \<Longrightarrow> ok (hv_E1 v) \<Longrightarrow> ok (hv_E2 v) \<Longrightarrow> I d \<Longrightarrow> I (snd (todo_handle p st v d))"
  by (cases p) (simp_all add: todoCreate_def todoList_def todoGet_def todoUpdate_def todoDelete_def todoPruneDone_def
      todoReorder_def guard_keeps and_then_keeps store_ops)

lemma api_handle_keeps: "allowed may p \<Longrightarrow> ok (hv_E1 v) \<Longrightarrow> ok (hv_E2 v) \<Longrightarrow> I d \<Longrightarrow> I (snd (api_handle p v ctx d))"
  by (cases p) (simp_all add: memory_handle_keeps task_handle_keeps agent_handle_keeps discovery_handle_keeps
      claim_handle_keeps session_handle_keeps todo_handle_keeps)

lemma ui_serve_keeps: "(\<And>k. ok (es k)) \<Longrightarrow> I d \<Longrightarrow> I (snd (ui_serve p fs jt es q d))"
  by (cases p) (simp_all add: uiDashboard_def uiAgents_def uiTasks_def uiClaims_def uiMemory_def uiSessions_def
      and_then_keeps shown_keeps store_ops)

lemma serve_keeps_if:
  assumes "ok (rv_lookup v)" "\<And>k. ok (rv_pages v k)" "I d"
    and handled: "\<And>p ctx x. cfg_Token (pg_config pg) \<noteq> [] \<or> bearer_token r \<noteq> [] \<longrightarrow> credential pg v r d \<Longrightarrow>
      ro_api (pg_router pg) (auth_context r) body = Inr p \<Longrightarrow> I x \<Longrightarrow> I (snd (api_handle p (rv_handler v) ctx x))"
    and hooked: "\<And>secret wr. hq_Path r = ''/api/v1/webhooks/github'' \<Longrightarrow>
      I (snd (ServeHTTP (pg_decode pg) hive_store (rv_hook v) (rv_now v) secret wr d))"
  shows "I (snd (serve pg v r body d))"
proof -
  have lookup: "I (snd (auth_valid token (GetAgent (rv_lookup v)) r d))" for token
    using agent_ops(2) [OF assms(1,3), of "header_agent r"] assms(3)
    by (auto simp: auth_valid_def split: prod.split sum.split)
  have "I (snd (AuthMiddleware (cfg_Token (pg_config pg)) (GetAgent (rv_lookup v)) (authed (pg_router pg) v body) r d))"
  proof (cases "auth_valid (cfg_Token (pg_config pg)) (GetAgent (rv_lookup v)) r d")
    case (Pair valid d1)
    then have d1: "I d1" and valid: "credential pg v r d = valid"
      using lookup [of "cfg_Token (pg_config pg)"] by (simp_all add: credential_def)
    show ?thesis
    proof (cases "(cfg_Token (pg_config pg) \<noteq> [] \<or> bearer_token r \<noteq> []) \<and> \<not> valid")
      case False
      then have "I (snd (authed (pg_router pg) v body (auth_context r) d1))"
        using d1 by (auto simp: authed_def ui_serve_keeps assms(2) valid intro!: handled split: sum.split)
      then show ?thesis using False Pair by (auto simp: AuthMiddleware_def)
    qed (use d1 Pair in \<open>simp add: AuthMiddleware_def\<close>)
  qed
  then show ?thesis
    using assms(3) hooked by (auto simp: serve_def versionHeaderMiddleware_def BuildMux_def healthzHandler_def
        split: prod.split option.split) (metis snd_conv)+
qed

end

text \<open>With what the webhook and the loops do of their own accord allowed as well.\<close>

locale hooked_user = guarded_user +
  assumes github: "ta_Title t \<noteq> [] \<Longrightarrow> may (OnTasks (CallCreateTask t))"
    and releases: "may (OnClaims (CallReleaseClaim i))"
    and expires: "may (OnClaims CallExpireOldClaims)"
    and prunes: "may (OnTodos (CallPruneDoneTodos a age))"

sublocale hooked_user \<subseteq> hook: webhook_keeps hive_store I ok
  by unfold_locales (simp_all add: task_ops claim_ops github releases)

context hooked_user
begin

text \<open>Events whose requests the router turns into allowed operations only.\<close>

lemma event_keeps:
  assumes "event_ok ok ev" "I d" "\<And>r body p. ro_api (pg_router pg) r body = Inr p \<Longrightarrow> allowed may p"
  shows "I (handle_event pg ev d)"
proof (cases ev)
  case (Request v r body)
  then have v: "ok (rv_lookup v)" "\<And>k. ok (rv_pages v k)" "ok (hv_E1 (rv_handler v))" "ok (hv_E2 (rv_handler v))"
    "\<And>k. ok (rv_hook v k)" using assms(1) by simp_all
  have "I (snd (serve pg v r body d))"
    by (rule serve_keeps_if) (use assms(2,3) v in \<open>simp_all add: api_handle_keeps hook.ServeHTTP_keeps\<close>)
  then show ?thesis using Request by simp
next
  case (ExpiryTick E)
  then have "I (snd (ExpireOldClaims E d))" using assms(1,2) by (simp add: store_ops expires)
  then show ?thesis using ExpiryTick by (auto split: prod.split sum.split)
next
  case (PruneTick E)
  then have "I (snd (PruneDoneTodos E [] todoMaxAge d))" using assms(1,2) by (simp add: store_ops prunes)
  then show ?thesis using PruneTick by (auto split: prod.split sum.split)
qed

lemma program_keeps:
  assumes "\<And>r body p. ro_api (pg_router pg) r body = Inr p \<Longrightarrow> allowed may p"
  shows "list_all (event_ok ok) evs \<Longrightarrow> I d \<Longrightarrow> I (run_program pg evs d)"
  by (induction evs arbitrary: d) (simp_all add: event_keeps assms)

end

locale store_user = hooked_user I ok "\<lambda>_. True" for I :: "database \<Rightarrow> bool" and ok :: "senv \<Rightarrow> bool"

interpretation calls: store_user "reaches good d0" "admissible good" for good d0
  by unfold_locales (simp_all add: reaches_call)

section \<open>The server refines the store\<close>

text \<open>
  C3. Whatever the server does is calls of the store: a run of requests (whatever the router makes of them,
  authenticated or not), webhook deliveries, pages and background ticks leads from a database only to
  databases that calls of the store reach.  So every invariant of the store holds of the whole server.
\<close>

theorem server_refines_store:
  assumes "list_all (event_ok (admissible good)) evs"
  shows "reaches good d (run_program pg evs d)"
  by (rule calls.program_keeps) (simp_all add: assms here)

definition demo_program :: "string \<Rightarrow> (http_req \<Rightarrow> goerr + string \<Rightarrow> http_error + api_op) \<Rightarrow> program" where
  "demo_program token api =
     \<lparr>pg_config = (serve_config (\<lambda>_. []) (\<lambda>k. if k = ''HIVE_TOKEN'' then token else [])),
      pg_version = versionInfo,
      pg_router = \<lparr>ro_api = api, ro_static = (\<lambda>_. Inl (http_err 404 [])), ro_query = (\<lambda>_ _. [])\<rparr>,
      pg_decode = (\<lambda>_. None)\<rparr>"

definition quiet_request :: "int \<Rightarrow> request_env" where
  "quiet_request ns = (let E = quiet_senv (demo_time ns) ''u'' in
     \<lparr>rv_lookup = E, rv_handler = \<lparr>hv_E1 = E, hv_E2 = E, hv_now = demo_time ns, hv_rnd = id, hv_relay = False, hv_text = (\<lambda>_. [])\<rparr>,
      rv_pages = (\<lambda>_. E), rv_hook = (\<lambda>_. E), rv_now = demo_time ns, rv_ping = None\<rparr>)"

lemma quiet_request_ok: "event_ok (admissible (\<lambda>_. True)) (Request (quiet_request ns) r body)"
  by (simp add: quiet_request_def Let_def quiet_admissible)

theorem server_refines_store_witness:
  "reaches (\<lambda>_. True) demo_db
     (run_program (demo_program ''t'' (\<lambda>_ _. Inr (ClaimOp (OpReleaseClaim \<lparr>cri_XAgentID = ''ann'', cri_ID = ''c1''\<rparr>))))
       [Request (quiet_request 0) (demo_request ''Bearer t'' ''ann'') (Inr []), ExpiryTick (quiet_senv (demo_time 1) ''v'')]
       demo_db)"
  by (rule server_refines_store) (simp add: quiet_request_ok quiet_admissible del: event_ok.simps(1))

text \<open>
  What an agent's token is worth.  Whatever the server has done since \<open>owner\<close> claimed, a request to
  release the claim that does not carry the global token, and names another agent (with that agent's
  valid token or not), gets an error; the request itself changes nothing and the claim stays the owner's.
\<close>

theorem agent_token_cannot_release_others:
  assumes "claim_owned i owner d"
    and "list_all (event_ok (admissible (\<lambda>_. True))) evs" "event_ok (admissible (\<lambda>_. True)) (Request v r body)"
    and "\<not> open_path r" "\<not> HasPrefix (hq_Path r) ''/ui''"
    and "ro_api (pg_router pg) (auth_context r) body =
      Inr (ClaimOp (OpReleaseClaim \<lparr>cri_XAgentID = header_agent r, cri_ID = i\<rparr>))"
    and "cfg_Token (pg_config pg) \<noteq> []" "bearer_token r \<noteq> cfg_Token (pg_config pg)" "header_agent r \<noteq> owner"
  shows "\<exists>h hs db'. serve pg v r body (run_program pg evs d) = ((hs, Replied (Inl h)), db') \<and> claim_owned i owner db' \<and>
    db' \<in> {run_program pg evs d, snd (GetAgent (rv_lookup v) (header_agent r) (run_program pg evs d)),
      ac_others (sv_access (hv_E1 (rv_handler v)) 0) (snd (GetAgent (rv_lookup v) (header_agent r) (run_program pg evs d)))}"
proof -
  let ?db = "run_program pg evs d" and ?E = "hv_E1 (rv_handler v)" and ?tok = "cfg_Token (pg_config pg)"
  let ?d1 = "snd (GetAgent (rv_lookup v) (header_agent r) ?db)" and ?v = "authed (pg_router pg) v body"
  have db: "reaches (\<lambda>_. True) d ?db" by (rule server_refines_store) (rule assms(2))
  have d1: "reaches (\<lambda>_. True) d ?d1"
    by (rule calls.agent_ops(2)) (use assms(3) db in simp_all)
  have d2: "reaches (\<lambda>_. True) d (ac_others (sv_access ?E 0) ?d1)"
  proof (rule reaches_trans [OF _ d1])
    show "reaches (\<lambda>_. True) ?d1 (ac_others (sv_access ?E 0) ?d1)" using assms(3) by (simp add: admissible_def)
  qed
  have own: "claim_owned i owner x" if "reaches (\<lambda>_. True) d x" for x
    using that assms(1) by (rule owned.reaches_keeps)
  have mux: "serve pg v r body ?db = (case AuthMiddleware ?tok (GetAgent (rv_lookup v)) ?v r ?db of
      (res, x) \<Rightarrow> (([(''X-Hive-Server-Version'', vi_Version (pg_version pg))], Replied res), x))"
    by (simp add: serve_def versionHeaderMiddleware_def BuildMux_guarded [OF assms(4)] split: prod.split)
  show ?thesis
  proof (cases "bearer_token r = [] \<or> header_agent r = []")
    case True
    then have "AuthMiddleware ?tok (GetAgent (rv_lookup v)) ?v r ?db = (Inl unauthorized, ?db)"
      using assms(7,8) by (auto simp: AuthMiddleware_def auth_valid_def)
    then show ?thesis using mux own [OF db] by simp
  next
    case False
    obtain h where h: "claimRelease ?E (hv_E2 (rv_handler v)) \<lparr>cri_XAgentID = header_agent r, cri_ID = i\<rparr> ?d1 =
        (Inl h, ac_others (sv_access ?E 0) ?d1)"
      using claim_stranger_refused(1) [OF own [OF d2], of "header_agent r"] False assms(9) by blast
    have "?v (auth_context r) ?d1 = (Inl h, ac_others (sv_access ?E 0) ?d1)"
      using assms(6) h not_ui [OF assms(5)] by (simp add: authed_def sent_def)
    then have "AuthMiddleware ?tok (GetAgent (rv_lookup v)) ?v r ?db \<in>
        {(Inl unauthorized, ?d1), (Inl h, ac_others (sv_access ?E 0) ?d1)}"
      using False assms(7,8) by (auto simp: AuthMiddleware_def auth_valid_def split: prod.split sum.split)
    then show ?thesis using mux own [OF d1] own [OF d2] by auto
  qed
qed

theorem agent_token_cannot_release_others_witness:
  "\<exists>h hs db'. serve (demo_program ''t'' (\<lambda>_ _. Inr (ClaimOp (OpReleaseClaim \<lparr>cri_XAgentID = ''eve'', cri_ID = ''c1''\<rparr>))))
      (quiet_request 5) (demo_request ''Bearer x'' ''eve'') (Inr [])
      (run_program (demo_program ''t'' (\<lambda>_ _. Inr (ClaimOp (OpReleaseClaim \<lparr>cri_XAgentID = ''eve'', cri_ID = ''c1''\<rparr>))))
         [ExpiryTick (quiet_senv (demo_time 1) ''v'')] demo_db) = ((hs, Replied (Inl h)), db') \<and> claim_owned ''c1'' ''ann'' db'"
proof -
  let ?pg = "demo_program ''t'' (\<lambda>_ _. Inr (ClaimOp (OpReleaseClaim \<lparr>cri_XAgentID = ''eve'', cri_ID = ''c1''\<rparr>)))"
    and ?r = "demo_request ''Bearer x'' ''eve''"
  have own: "claim_owned ''c1'' ''ann'' demo_db"
    by (simp add: claim_owned_def row_at_def demo_db_def demo_claim_row_def)
  have evs: "list_all (event_ok (admissible (\<lambda>_. True))) [ExpiryTick (quiet_senv (demo_time 1) ''v'')]"
    by (simp add: quiet_admissible)
  have r: "\<not> open_path ?r" "\<not> HasPrefix (hq_Path ?r) ''/ui''" "header_agent ?r = ''eve''" "bearer_token ?r = ''x''"
    by (simp_all add: open_path_def demo_request_def HasPrefix_def header_agent_def bearer_token_def)
  have pg: "ro_api (pg_router ?pg) (auth_context ?r) (Inr []) =
      Inr (ClaimOp (OpReleaseClaim \<lparr>cri_XAgentID = header_agent ?r, cri_ID = ''c1''\<rparr>))"
    "cfg_Token (pg_config ?pg) = ''t''"
    by (simp_all add: demo_program_def r serve_config_def Let_def)
  have tok: "cfg_Token (pg_config ?pg) \<noteq> []" "bearer_token ?r \<noteq> cfg_Token (pg_config ?pg)" "header_agent ?r \<noteq> ''ann''"
    unfolding pg(2) r by simp_all
  from agent_token_cannot_release_others [OF own evs quiet_request_ok [where ns = 5] r(1,2) pg(1) tok]
  show ?thesis by blast
qed

end
