(* ===== verification/ReadOnly.thy ===== *)
theory ReadOnly
  imports Program
begin

text \<open>
  What a GET request may do to the database: the reads of the store, the operations registered under GET
  and the pages, up to the whole server.  The statements hold with failures of the driver at any point.
\<close>

section \<open>Safe methods\<close>

text \<open>What other sessions commit before an access outside a transaction keeps an invariant.\<close>

definition sessions_keep :: "(database \<Rightarrow> bool) \<Rightarrow> senv \<Rightarrow> bool" where
  "sessions_keep I E \<longleftrightarrow> (\<forall>k d. I d \<longrightarrow> I (ac_others (sv_access E k) d))"

lemma sessions_keepD: "sessions_keep I E \<Longrightarrow> I d \<Longrightarrow> I (ac_others (sv_access E k) d)"
  by (simp add: sessions_keep_def)

lemma note_reads: "sessions_keep I E \<Longrightarrow> I d \<Longrightarrow> I (snd (loadTaskNotes E k t d))"
  by (auto simp: loadTaskNotes_def sessions_keepD split: prod.split sum.split dest!: query_dbD)

lemma all_notes_read: "sessions_keep I E \<Longrightarrow> I d \<Longrightarrow> I (snd (load_all_notes E k ts d))"
proof (induction ts arbitrary: k d)
  case (Cons t ts)
  obtain res d1 where "loadTaskNotes E k t d = (res, d1)" by fastforce
  then show ?case
    using note_reads [OF Cons.prems, of k t] Cons.IH [OF Cons.prems(1), of d1 "Suc k"]
    by (auto split: prod.split sum.split)
qed simp

lemma store_reads:
  assumes "sessions_keep I E" "I d"
  shows "I (snd (GetMemory E k d))" "I (snd (ListMemory E mf d))" "I (snd (GetTask E i d))" "I (snd (ListTasks E tf d))"
    "I (snd (GetAgent E i d))" "I (snd (ListAgents E d))" "I (snd (GetClaim E i d))" "I (snd (ListClaims E cf d))"
    "I (snd (GetChannel E i d))" "I (snd (ListChannels E d))" "I (snd (GetRole E i d))" "I (snd (ListRoles E d))"
    "I (snd (GetDiscoveryAgent E i d))" "I (snd (ListDiscoveryAgents E d))" "I (snd (GetTodo E i d))"
    "I (snd (ListTodos E df d))" "I (snd (GetCapturedSession E i d))" "I (snd (ListCapturedSessions jt E sf d))"
proof -
  have d1: "I (ac_others (sv_access E k) d)" for k using assms by (rule sessions_keepD)
  show "I (snd (GetMemory E k d))" "I (snd (ListMemory E mf d))" "I (snd (GetAgent E i d))" "I (snd (ListAgents E d))"
    "I (snd (GetClaim E i d))" "I (snd (ListClaims E cf d))" "I (snd (GetTodo E i d))" "I (snd (ListTodos E df d))"
    "I (snd (GetCapturedSession E i d))" "I (snd (ListCapturedSessions jt E sf d))"
    by (auto simp: GetMemory_def ListMemory_def GetAgent_at_def ListAgents_def GetClaim_def ListClaims_def GetTodo_def
        ListTodos_def GetCapturedSession_def ListCapturedSessions_def d1 split: prod.split sum.split dest!: query_dbD)
  show "I (snd (GetChannel E i d))" "I (snd (ListChannels E d))" "I (snd (GetRole E i d))" "I (snd (ListRoles E d))"
    "I (snd (GetDiscoveryAgent E i d))" "I (snd (ListDiscoveryAgents E d))"
    by (auto simp: GetChannel_def ListChannels_def GetRole_def ListRoles_def GetDiscoveryAgent_def ListDiscoveryAgents_def
        d1 split: prod.split sum.split dest!: query_dbD)
  show "I (snd (GetTask E i d))"
    using note_reads [OF assms(1) d1] by (auto simp: GetTask_def d1 split: prod.split sum.split dest!: query_dbD)
  show "I (snd (ListTasks E tf d))"
    using all_notes_read [OF assms(1) d1] by (auto simp: ListTasks_def d1 split: prod.split sum.split dest!: query_dbD)
qed

text \<open>Every operation registered under GET is a read.\<close>

lemma api_get_reads:
  assumes "op_Method (routes p) = ''GET''" "sessions_keep I (hv_E1 v)" "I d"
  shows "I (snd (api_handle p v ctx d))"
proof (cases p)
  case (MemoryOp q)
  then show ?thesis using assms by (cases q) (simp_all add: operation_def memoryGet_def memoryList_def store_reads)
next
  case (TaskOp q)
  then show ?thesis using assms by (cases q) (simp_all add: operation_def taskGet_def taskList_def store_reads)
next
  case (AgentOp q)
  then show ?thesis using assms by (cases q) (simp_all add: operation_def agentGet_def agentList_def store_reads)
next
  case (DiscoveryOp q)
  then show ?thesis using assms by (cases q) (simp_all add: operation_def discoveryListAgents_def discoveryGetAgent_def
      discoveryListChannels_def discoveryGetChannel_def discoveryListRoles_def discoveryGetRole_def
      discoveryGetRouting_def store_reads)
next
  case (ClaimOp q)
  then show ?thesis using assms by (cases q) (simp_all add: operation_def claimGet_def claimList_def store_reads)
next
  case (SessionOp q)
  show ?thesis
  proof (cases q)
    case (OpGetSession i)
    then show ?thesis using SessionOp assms store_reads(17) [OF assms(2,3), of i]
      by (auto simp: sessionGet_def split: prod.split sum.split)
  qed (use SessionOp assms in \<open>simp_all add: operation_def sessionList_def store_reads split: option.split\<close>)
next
  case (TodoOp q)
  then show ?thesis using assms by (cases q) (simp_all add: operation_def todoGet_def todoList_def guard_reply_def store_reads)
qed

lemma ui_reads:
  assumes "\<And>k. sessions_keep I (es k)" "I d"
  shows "I (snd (ui_serve p fs jt es q d))"
proof -
  have next_page: "I (snd (and_then rd k))" if "I (snd rd)" "\<And>x d. I d \<Longrightarrow> I (snd (k x d))" for rd k
    using that by (cases rd) (auto simp: and_then_def split: sum.split)
  show ?thesis
    using assms by (cases p) (simp_all add: uiDashboard_def uiAgents_def uiTasks_def uiClaims_def uiMemory_def
      uiSessions_def shown_def next_page store_reads)
qed

text \<open>A router that follows the registration: an operation is chosen for requests with its method only.\<close>

definition follows_routes :: "router \<Rightarrow> bool" where
  "follows_routes ro \<longleftrightarrow> (\<forall>r body p. ro_api ro r body = Inr p \<longrightarrow> op_Method (routes p) = hq_Method r)"

text \<open>
  C12. GET is a safe method.  Whatever fails on the way, a GET request of any path, to the API, the pages
  or the probes, authenticated or not, writes nothing: an invariant the other sessions keep before each
  access (that the database is this very one, say) holds after the request as before.
\<close>

theorem get_requests_write_nothing:
  assumes "hq_Method r = ''GET''" "follows_routes (pg_router pg)"
    and "sessions_keep I (rv_lookup v)" "sessions_keep I (hv_E1 (rv_handler v))" "\<And>k. sessions_keep I (rv_pages v k)"
    and "I d"
  shows "I (snd (serve pg v r body d))"
proof -
  have lookup: "I (snd (auth_valid token (GetAgent (rv_lookup v)) r d))" for token
    using store_reads(5) [OF assms(3,6), of "header_agent r"] assms(6)
    by (auto simp: auth_valid_def split: prod.split sum.split)
  have is_get: "hq_Method (auth_context r) = ''GET''" using assms(1) by simp
  have handler: "I (snd (authed (pg_router pg) v body (auth_context r) x))" if "I x" for x
    using that is_get assms(2) by (auto simp: authed_def follows_routes_def ui_reads [OF assms(5)]
        intro!: api_get_reads [OF _ assms(4)] split: sum.split)
  have "I (snd (AuthMiddleware token (GetAgent (rv_lookup v)) (authed (pg_router pg) v body) r d))" for token
  proof (cases "auth_valid token (GetAgent (rv_lookup v)) r d")
    case (Pair valid d1)
    then show ?thesis using lookup [of token] handler by (simp add: AuthMiddleware_def)
  qed
  then show ?thesis
    using assms(1,6) by (auto simp: serve_def versionHeaderMiddleware_def BuildMux_def healthzHandler_def
        split: prod.split option.split) (metis snd_conv)+
qed

definition demo_router :: "http_req \<Rightarrow> goerr + string \<Rightarrow> http_error + api_op" where
  "demo_router r body = (if hq_Method r = ''GET'' then Inr (TaskOp (OpGetTask ''1'')) else Inl (http_err 404 []))"

theorem get_requests_write_nothing_witness:
  "snd (serve (demo_program ''t'' demo_router) (quiet_request 5) (demo_request ''Bearer t'' ''eve'') (Inr []) demo_db) = demo_db"
proof -
  have keep: "sessions_keep (\<lambda>d. d = demo_db) (quiet_senv (demo_time 5) ''u'')"
    by (simp add: sessions_keep_def quiet_senv_def)
  have "follows_routes (pg_router (demo_program ''t'' demo_router))"
    by (simp add: follows_routes_def demo_program_def demo_router_def operation_def)
  then show ?thesis
    by (intro get_requests_write_nothing [where I = "\<lambda>d. d = demo_db"])
      (simp_all add: keep quiet_request_def Let_def demo_request_def)
qed

end
