(* ===== verification/Log.thy ===== *)
theory Log
  imports GoTime
begin

text \<open>
  \<^verbatim>\<open>internal/log/log.go\<close>: the level, the current writer and the stack of earlier writers, behind one mutex.
  \<^verbatim>\<open>sync.Mutex\<close> is not reentrant: locking it in the goroutine that holds it never returns.  Writers are
  compared by identity (type \<open>'w\<close>); what they receive is recorded in \<open>lg_out\<close>.
\<close>

section \<open>The code\<close>

record 'w logger =
  lg_locked :: bool
  lg_level :: nat
  lg_writer :: 'w
  lg_orig :: "'w list"
  lg_out :: "('w \<times> string) list"

text \<open>How a call ends: it returns, panics (its deferred unlock done), or never returns.\<close>

datatype 'w outcome = Returned "'w logger" | Panicked "'w logger" | Blocked

text \<open>\<^verbatim>\<open>lock.Lock(); defer lock.Unlock()\<close> around a body.\<close>

definition locked :: "('w logger \<Rightarrow> 'w outcome) \<Rightarrow> 'w logger \<Rightarrow> 'w outcome" where
  "locked body s =
     (if lg_locked s then Blocked
      else case body (s\<lparr>lg_locked := True\<rparr>) of
          Returned t \<Rightarrow> Returned (t\<lparr>lg_locked := False\<rparr>)
        | Panicked t \<Rightarrow> Panicked (t\<lparr>lg_locked := False\<rparr>)
        | Blocked \<Rightarrow> Blocked)"

definition init_logger :: "'w \<Rightarrow> 'w logger" where
  "init_logger stdout = \<lparr>lg_locked = False, lg_level = 0, lg_writer = stdout, lg_orig = [], lg_out = []\<rparr>"

definition GetLevelName :: "nat \<Rightarrow> string" where
  "GetLevelName l =
     (if l = 0 then ''trace'' else if l = 1 then ''debug'' else if l = 2 then '' info''
      else if l = 3 then ''error'' else if l = 4 then ''  off'' else ''unknw'')"

text \<open>
  The layout of the time stamp is \<^verbatim>\<open>2006-01-02T15:04:05.002Z\<close>: \<^verbatim>\<open>002\<close> is the day of the year in three
  digits, not a fraction.
\<close>

definition log_stamp :: "gotime \<Rightarrow> string" where
  "log_stamp t = (let u = in_UTC t in
     stamp (local_secs u) @ ''.'' @ pad_dec 3 (snd (year_yday (local_secs u div 86400 + epoch_days)) + 1) @ ''Z'')"

definition emit :: "string \<Rightarrow> 'w logger \<Rightarrow> 'w logger" where
  "emit text s = s\<lparr>lg_out := lg_out s @ [(lg_writer s, text)]\<rparr>"

text \<open>\<open>v\<close> is the text of the operands.\<close>

definition log :: "gotime \<Rightarrow> nat \<Rightarrow> string \<Rightarrow> 'w logger \<Rightarrow> 'w outcome" where
  "log now l v s =
     (if l \<ge> lg_level s
      then locked (\<lambda>s. Returned (emit (log_stamp now @ '' '' @ GetLevelName (lg_level s) @ '': '' @ v @ [CHR 0x0A]) s)) s
      else Returned s)"

definition Trace :: "gotime \<Rightarrow> string \<Rightarrow> 'w logger \<Rightarrow> 'w outcome" where "Trace now = log now 0"
definition Debug :: "gotime \<Rightarrow> string \<Rightarrow> 'w logger \<Rightarrow> 'w outcome" where "Debug now = log now 1"
definition Info :: "gotime \<Rightarrow> string \<Rightarrow> 'w logger \<Rightarrow> 'w outcome" where "Info now = log now 2"
definition Error :: "gotime \<Rightarrow> string \<Rightarrow> 'w logger \<Rightarrow> 'w outcome" where "Error now = log now 3"

definition Reset :: "'w \<Rightarrow> 'w logger \<Rightarrow> 'w outcome" where
  "Reset stdout = locked (\<lambda>s. Returned
     (s\<lparr>lg_writer := (case lg_orig s of [] \<Rightarrow> stdout | w # _ \<Rightarrow> w), lg_orig := []\<rparr>))"

text \<open>The function \<^verbatim>\<open>SetWriter\<close> returns: nothing to do, or the restoring closure for \<open>w\<close>.\<close>

datatype 'w restorer = Noop | Restore 'w

definition SetWriter :: "'w \<Rightarrow> 'w logger \<Rightarrow> 'w outcome \<times> 'w restorer" where
  "SetWriter w s =
     (locked (\<lambda>s. Returned (if lg_writer s = w then s
        else s\<lparr>lg_orig := lg_orig s @ [lg_writer s], lg_writer := w\<rparr>)) s,
      if lg_writer s = w then Noop else Restore w)"

definition To :: "'w \<Rightarrow> 'w logger \<Rightarrow> 'w outcome \<times> 'w restorer" where
  "To w = SetWriter w"

text \<open>The loop removes the first occurrence of \<open>w\<close>; the last of the rest becomes the writer.\<close>

definition restore_body :: "'w \<Rightarrow> 'w \<Rightarrow> 'w logger \<Rightarrow> 'w outcome" where
  "restore_body stdout w s =
     (let orig = remove1 w (lg_orig s)
      in if length orig > 0
         then Returned (s\<lparr>lg_writer := last orig, lg_orig := butlast orig\<rparr>)
         else Reset stdout (s\<lparr>lg_orig := orig\<rparr>))"

fun restore :: "'w \<Rightarrow> 'w restorer \<Rightarrow> 'w logger \<Rightarrow> 'w outcome" where
  "restore stdout Noop s = Returned s"
| "restore stdout (Restore w) s = locked (restore_body stdout w) s"

definition level_of :: "string \<Rightarrow> nat option" where
  "level_of v =
     (if v = ''trace'' \<or> v = ''0'' then Some 0
      else if v = ''debug'' \<or> v = ''1'' then Some 1
      else if v = ''info'' \<or> v = ''2'' then Some 2
      else if v = ''error'' \<or> v = ''3'' then Some 3
      else if v = ''off'' \<or> v = ''nolog'' \<or> v = ''4'' then Some 4
      else None)"

definition SetLevel :: "string \<Rightarrow> 'w logger \<Rightarrow> 'w outcome" where
  "SetLevel v = locked (\<lambda>s. case level_of v of
       None \<Rightarrow> Panicked s | Some l \<Rightarrow> Returned (s\<lparr>lg_level := l\<rparr>))"

definition GetLevel :: "'w logger \<Rightarrow> int" where
  "GetLevel s = int (lg_level s)"

section \<open>The discipline that returns\<close>

text \<open>Code that logs, and code that runs a scope between \<open>SetWriter\<close> and its deferred restoring.\<close>

datatype 'w script = Finished | Say gotime nat string "'w script" | Scope 'w "'w script" "'w script"

fun bind_outcome :: "'w outcome \<Rightarrow> ('w logger \<Rightarrow> 'w outcome) \<Rightarrow> 'w outcome" where
  "bind_outcome (Returned s) k = k s"
| "bind_outcome (Panicked s) k = Panicked s"
| "bind_outcome Blocked k = Blocked"

fun run_script :: "'w \<Rightarrow> 'w script \<Rightarrow> 'w logger \<Rightarrow> 'w outcome" where
  "run_script stdout Finished s = Returned s"
| "run_script stdout (Say now l v rest) s = bind_outcome (log now l v s) (run_script stdout rest)"
| "run_script stdout (Scope w inner rest) s =
     bind_outcome (fst (To w s)) (\<lambda>s1. bind_outcome (run_script stdout inner s1)
       (\<lambda>s2. bind_outcome (restore stdout (snd (To w s)) s2) (run_script stdout rest)))"

text \<open>No scope takes a writer that is already waiting on the stack; the current one may be taken again.\<close>

fun fresh_scopes :: "'w \<Rightarrow> 'w set \<Rightarrow> 'w script \<Rightarrow> bool" where
  "fresh_scopes cur W Finished \<longleftrightarrow> True"
| "fresh_scopes cur W (Say now l v rest) \<longleftrightarrow> fresh_scopes cur W rest"
| "fresh_scopes cur W (Scope w inner rest) \<longleftrightarrow> fresh_scopes cur W rest \<and>
     (if w = cur then fresh_scopes cur W inner else w \<notin> W \<and> fresh_scopes w (insert cur W) inner)"

text \<open>The part of the state a well-nested script gives back.\<close>

definition same_writers :: "'w logger \<Rightarrow> 'w logger \<Rightarrow> bool" where
  "same_writers s t \<longleftrightarrow> lg_writer t = lg_writer s \<and> lg_orig t = lg_orig s \<and> lg_level t = lg_level s \<and> \<not> lg_locked t"

lemma log_returns: "\<not> lg_locked s \<Longrightarrow> \<exists>t. log now l v s = Returned t \<and> same_writers s t"
  by (simp add: log_def locked_def emit_def same_writers_def)

lemma SetWriter_returns:
  assumes "\<not> lg_locked s"
  shows "\<exists>t. SetWriter w s = (Returned t, if lg_writer s = w then Noop else Restore w) \<and> \<not> lg_locked t \<and>
    lg_writer t = w \<and> lg_orig t = (if lg_writer s = w then lg_orig s else lg_orig s @ [lg_writer s]) \<and> lg_level t = lg_level s"
  using assms by (simp add: SetWriter_def locked_def)

lemma restore_returns:
  assumes "\<not> lg_locked u" "lg_orig u = os @ [w0]" "w \<notin> set os" "w \<noteq> w0"
  shows "\<exists>t. restore stdout (Restore w) u = Returned t \<and> lg_writer t = w0 \<and> lg_orig t = os \<and>
    lg_level t = lg_level u \<and> \<not> lg_locked t"
  using assms by (simp add: locked_def restore_body_def remove1_idem Let_def)

lemma run_script_returns:
  "\<not> lg_locked s \<Longrightarrow> fresh_scopes (lg_writer s) (set (lg_orig s)) p \<Longrightarrow>
     \<exists>t. run_script stdout p s = Returned t \<and> same_writers s t"
proof (induction stdout p s rule: run_script.induct)
  case (2 stdout now l v rest s)
  obtain s1 where s1: "log now l v s = Returned s1" "same_writers s s1" using log_returns 2(2) by blast
  then show ?case using 2(1) [of s1] 2(3) by (auto simp: same_writers_def)
next
  case (3 stdout w inner rest s)
  obtain s1 where s1: "SetWriter w s = (Returned s1, if lg_writer s = w then Noop else Restore w)" "\<not> lg_locked s1"
    "lg_writer s1 = w" "lg_orig s1 = (if lg_writer s = w then lg_orig s else lg_orig s @ [lg_writer s])"
    "lg_level s1 = lg_level s" using SetWriter_returns [OF 3(3), of w] by blast
  have "fresh_scopes (lg_writer s1) (set (lg_orig s1)) inner" using 3(4) s1 by (auto split: if_splits)
  then obtain s2 where s2: "run_script stdout inner s1 = Returned s2" "same_writers s1 s2"
    using 3(1) [of s1] s1(2) by blast
  have "\<exists>s3. restore stdout (snd (SetWriter w s)) s2 = Returned s3 \<and> same_writers s s3"
    using s1 s2 restore_returns [of s2 "lg_orig s" "lg_writer s" w stdout] 3(3,4)
    by (auto simp: same_writers_def)
  then obtain s3 where s3: "restore stdout (snd (SetWriter w s)) s2 = Returned s3" "same_writers s s3" by blast
  then obtain s4 where "run_script stdout rest s3 = Returned s4" "same_writers s3 s4"
    using 3(2) [of s3] 3(4) by (auto simp: same_writers_def)
  then show ?case using s1(1) s2(1) s3 by (auto simp: To_def same_writers_def)
qed (simp add: same_writers_def)

text \<open>
  Conversely: a scope that takes a writer waiting on the stack removes it from the stack as well when it
  ends, so the stack is too short for the enclosing scopes.
\<close>

lemma run_script_not_panicked: "run_script stdout p s \<noteq> Panicked t"
proof (induction stdout p s arbitrary: t rule: run_script.induct)
  case (2 stdout now l v rest s)
  then show ?case by (cases "log now l v s") (auto simp: log_def locked_def split: if_splits)
next
  case (3 stdout w inner rest s)
  have "restore stdout (snd (To w s)) s2 \<noteq> Panicked u" for s2 u
    by (cases "snd (To w s)") (auto simp: locked_def restore_body_def Reset_def Let_def split: if_splits)
  then show ?case
    using 3 by (cases "fst (To w s)"; cases "run_script stdout inner (case fst (To w s) of Returned x \<Rightarrow> x)";
        cases "restore stdout (snd (To w s)) (case run_script stdout inner (case fst (To w s) of Returned x \<Rightarrow> x) of Returned x \<Rightarrow> x)")
      (auto simp: To_def SetWriter_def locked_def split: if_splits)
qed simp

lemma restore_shrinks:
  assumes "restore stdout (Restore w) u = Returned t" "\<not> lg_locked u"
  shows "\<not> lg_locked t" "length (lg_orig t) < length (lg_orig u)"
    and "Suc (length (lg_orig t)) = length (lg_orig u) \<Longrightarrow> w \<notin> set (lg_orig u)"
proof -
  let ?os = "remove1 w (lg_orig u)"
  have os: "?os \<noteq> []"
  proof
    assume "?os = []"
    then show False using assms by (simp add: locked_def restore_body_def Reset_def Let_def)
  qed
  then have t: "u\<lparr>lg_writer := last ?os, lg_orig := butlast ?os, lg_locked := False\<rparr> = t"
    using assms by (simp add: locked_def restore_body_def Let_def)
  show "\<not> lg_locked t" using t by auto
  have len: "length ?os = (if w \<in> set (lg_orig u) then length (lg_orig u) - 1 else length (lg_orig u))"
    by (simp add: length_remove1)
  have "length (lg_orig t) = length ?os - 1" "0 < length ?os" "0 < length (lg_orig u)" using t os by auto
  then show "length (lg_orig t) < length (lg_orig u)"
    "Suc (length (lg_orig t)) = length (lg_orig u) \<Longrightarrow> w \<notin> set (lg_orig u)"
    unfolding len by (cases "w \<in> set (lg_orig u)"; simp)+
qed

lemma returned_script_fresh:
  "\<not> lg_locked s \<Longrightarrow> run_script stdout p s = Returned t \<Longrightarrow>
     \<not> lg_locked t \<and> length (lg_orig t) \<le> length (lg_orig s) \<and>
     (length (lg_orig t) = length (lg_orig s) \<longrightarrow> fresh_scopes (lg_writer s) (set (lg_orig s)) p)"
proof (induction stdout p s arbitrary: t rule: run_script.induct)
  case (2 stdout now l v rest s)
  obtain s1 where s1: "log now l v s = Returned s1" "same_writers s s1" using log_returns 2(2) by blast
  then show ?case using 2(1) [of s1 t] 2(3) by (simp add: same_writers_def)
next
  case (3 stdout w inner rest s)
  obtain s1 where s1: "To w s = (Returned s1, if lg_writer s = w then Noop else Restore w)" "\<not> lg_locked s1"
    "lg_writer s1 = w" "lg_orig s1 = (if lg_writer s = w then lg_orig s else lg_orig s @ [lg_writer s])"
    using SetWriter_returns [OF 3(3), of w] unfolding To_def by blast
  obtain s2 where s2: "run_script stdout inner s1 = Returned s2"
    using 3(4) s1(1) by (cases "run_script stdout inner s1") auto
  obtain s3 where s3: "restore stdout (snd (To w s)) s2 = Returned s3"
    using 3(4) s1(1) s2 by (cases "restore stdout (snd (To w s)) s2") auto
  have rest: "run_script stdout rest s3 = Returned t" using 3(4) s1(1) s2 s3 by simp
  have inner: "\<not> lg_locked s2" "length (lg_orig s2) \<le> length (lg_orig s1)"
    "length (lg_orig s2) = length (lg_orig s1) \<Longrightarrow> fresh_scopes w (set (lg_orig s1)) inner"
    using 3(1) [of s1 s2] s1 s2 by auto
  have same: "same_writers s1 s2" if "length (lg_orig s2) = length (lg_orig s1)"
    using run_script_returns [of s1 inner stdout] inner(3) [OF that] s1(2,3) s2 by simp
  show ?case
  proof (cases "lg_writer s = w")
    case True
    then have "s3 = s2" using s1(1) s3 by simp
    then have t: "\<not> lg_locked t" "length (lg_orig t) \<le> length (lg_orig s2)"
      "length (lg_orig t) = length (lg_orig s2) \<Longrightarrow> fresh_scopes (lg_writer s2) (set (lg_orig s2)) rest"
      using 3(2) [of s3 t] rest inner(1) by simp_all
    have os: "lg_orig s1 = lg_orig s" using s1(4) True by simp
    have "fresh_scopes (lg_writer s) (set (lg_orig s)) (Scope w inner rest)"
      if "length (lg_orig t) = length (lg_orig s)"
    proof -
      have full: "length (lg_orig s2) = length (lg_orig s1)" using that t(2) inner(2) os by simp
      have "lg_writer s2 = lg_writer s" "lg_orig s2 = lg_orig s"
        using same [OF full] s1(3) os True by (simp_all add: same_writers_def)
      then show ?thesis using t(3) inner(3) [OF full] full that os True by simp
    qed
    then show ?thesis using t(1,2) inner(2) os by simp
  next
    case False
    have less: "\<not> lg_locked s3" "length (lg_orig s3) < length (lg_orig s2)"
      "Suc (length (lg_orig s3)) = length (lg_orig s2) \<Longrightarrow> w \<notin> set (lg_orig s2)"
      using restore_shrinks [of stdout w s2 s3] s1(1) s3 False inner(1) by simp_all
    then have t: "\<not> lg_locked t" "length (lg_orig t) \<le> length (lg_orig s3)"
      "length (lg_orig t) = length (lg_orig s3) \<Longrightarrow> fresh_scopes (lg_writer s3) (set (lg_orig s3)) rest"
      using 3(2) [of s3 t] rest by simp_all
    have os: "lg_orig s1 = lg_orig s @ [lg_writer s]" using s1(4) False by simp
    have "fresh_scopes (lg_writer s) (set (lg_orig s)) (Scope w inner rest)"
      if len: "length (lg_orig t) = length (lg_orig s)"
    proof -
      have full: "length (lg_orig s2) = length (lg_orig s1)" "length (lg_orig s3) = length (lg_orig s)"
        using len t(2) less(2) inner(2) os by simp_all
      then have s2': "lg_orig s2 = lg_orig s @ [lg_writer s]" "w \<notin> set (lg_orig s2)"
        using same [OF full(1)] os less(3) by (simp_all add: same_writers_def)
      then have "lg_writer s3 = lg_writer s" "lg_orig s3 = lg_orig s"
        using restore_returns [OF inner(1) s2'(1), of w stdout] False s1(1) s3 by auto
      then show ?thesis using t(3) inner(3) [OF full(1)] full len os s2' False by auto
    qed
    then show ?thesis using t(1,2) less(2) inner(2) os by simp
  qed
qed simp

text \<open>
  C40. Nested redirection.  Code that logs and redirects the log in properly nested scopes, each
  restoring when it ends, returns (no call deadlocks or panics), with the writer and the stack as they
  were, if no scope redirects to a writer that an enclosing scope has put aside.  That condition is
  needed: started with nothing put aside, code that breaks it deadlocks, as redirecting to one writer
  and, inside, back to the outer one.
\<close>

theorem nested_redirection_returns:
  assumes "\<not> lg_locked s"
  shows "(fresh_scopes (lg_writer s) (set (lg_orig s)) p \<longrightarrow>
      (\<exists>t. run_script stdout p s = Returned t \<and> lg_writer t = lg_writer s \<and> lg_orig t = lg_orig s \<and>
        lg_level t = lg_level s \<and> \<not> lg_locked t)) \<and>
    (lg_orig s = [] \<and> \<not> fresh_scopes (lg_writer s) {} p \<longrightarrow> run_script stdout p s = Blocked)"
proof (intro conjI impI)
  assume "fresh_scopes (lg_writer s) (set (lg_orig s)) p"
  then show "\<exists>t. run_script stdout p s = Returned t \<and> lg_writer t = lg_writer s \<and> lg_orig t = lg_orig s \<and>
      lg_level t = lg_level s \<and> \<not> lg_locked t"
    using run_script_returns [OF assms] by (auto simp: same_writers_def)
next
  assume bad: "lg_orig s = [] \<and> \<not> fresh_scopes (lg_writer s) {} p"
  show "run_script stdout p s = Blocked"
  proof (cases "run_script stdout p s")
    case (Returned t)
    then show ?thesis using returned_script_fresh [OF assms Returned] bad by simp
  qed (simp_all add: run_script_not_panicked)
qed

theorem nested_redirection_returns_witness:
  "(\<exists>t. run_script (1 :: nat) (Scope 2 (Say zero_time 2 ''in'' (Scope 3 Finished Finished)) (Scope 1 Finished Finished))
      (init_logger 1) = Returned t \<and> lg_writer t = 1) \<and>
   run_script (1 :: nat) (Scope 2 (Scope 1 Finished Finished) Finished) (init_logger 1) = Blocked"
  using nested_redirection_returns [of "init_logger (1 :: nat)"
      "Scope 2 (Say zero_time 2 ''in'' (Scope 3 Finished Finished)) (Scope 1 Finished Finished)" 1]
    nested_redirection_returns [of "init_logger (1 :: nat)" "Scope 2 (Scope 1 Finished Finished) Finished" 1]
  by (auto simp: init_logger_def)

text \<open>
  Restored in the order they were set, two redirections end in a deadlock: the first restoring already
  brings the original writer back although the second redirection is still in force, and the second one
  finds the stack empty, calls \<open>Reset\<close> and waits for the mutex it holds.
\<close>

theorem out_of_order_restore_blocks:
  assumes "\<not> lg_locked s" "lg_orig s = []" "a \<noteq> b" "lg_writer s \<notin> {a, b}"
  shows "\<exists>s1 s2 t. SetWriter a s = (Returned s1, Restore a) \<and> SetWriter b s1 = (Returned s2, Restore b) \<and>
    restore stdout (Restore a) s2 = Returned t \<and> lg_writer t = lg_writer s \<and> restore stdout (Restore b) t = Blocked"
  using assms by (simp add: SetWriter_def locked_def restore_body_def Reset_def Let_def)

theorem out_of_order_restore_blocks_witness:
  "\<exists>s1 s2 t. SetWriter 2 (init_logger (1 :: nat)) = (Returned s1, Restore 2) \<and> SetWriter 3 s1 = (Returned s2, Restore 3) \<and>
     restore 1 (Restore 2) s2 = Returned t \<and> lg_writer t = 1 \<and> restore 1 (Restore 3) t = Blocked"
  using out_of_order_restore_blocks [of "init_logger (1 :: nat)" 2 3 1] by (simp add: init_logger_def)

text \<open>A second call of the same restoring blocks as well.\<close>

lemma restore_twice_blocks:
  assumes "\<not> lg_locked s" "lg_orig s = []" "lg_writer s \<noteq> w"
  shows "\<exists>s1 t. SetWriter w s = (Returned s1, Restore w) \<and> restore stdout (Restore w) s1 = Returned t \<and>
    restore stdout (Restore w) t = Blocked"
  using assms by (simp add: SetWriter_def locked_def restore_body_def Reset_def Let_def)

text \<open>The label of an entry is the level of the log, not of the entry; and the stamp of an entry does not tell
  the times within a second apart.\<close>

lemma label_is_current_level:
  assumes "\<not> lg_locked s" "lg_level s = 0"
  shows "\<exists>t. Error now v s = Returned t \<and>
    lg_out t = lg_out s @ [(lg_writer s, log_stamp now @ '' trace: '' @ v @ [CHR 0x0A])]"
  using assms by (simp add: Error_def log_def locked_def emit_def GetLevelName_def)

lemma stamp_drops_fraction:
  "instant t div Second = instant u div Second \<Longrightarrow> log_stamp t = log_stamp u"
  by (simp add: log_stamp_def local_secs_def in_UTC_def)

end
