(* ===== verification/CommandLine.thy ===== *)
theory CommandLine
  imports ReadOnly Log
begin

text \<open>
  \<^verbatim>\<open>cmd/hive-server\<close>: the process from its arguments to its exit code.  What cobra makes of the arguments is
  the parameter \<open>parse\<close>; \<open>Printed\<close> is what it does itself (help, version, completion).  The root command
  only logs a hint, \<^verbatim>\<open>serve\<close> runs the server.
\<close>

section \<open>The code\<close>

datatype command = Printed string | RootCommand | ServeCommand "string \<Rightarrow> string"

text \<open>The variables the linker sets, \<^verbatim>\<open>-X main.version=...\<close>, are the argument of \<open>App\<close>.\<close>

definition SetVersionInfo :: "string \<Rightarrow> string \<Rightarrow> string \<Rightarrow> VersionInfo" where
  "SetVersionInfo v c d = \<lparr>vi_Version = v, vi_Commit = c, vi_Date = d\<rparr>"

record linked =
  ln_version :: string
  ln_commit :: string
  ln_date :: string

text \<open>\<^verbatim>\<open>defer log.To(cmd.OutOrStdout())()\<close> and the hint, on the process's logger.\<close>

definition root_command :: "'w \<Rightarrow> 'w \<Rightarrow> gotime \<Rightarrow> 'w logger \<Rightarrow> 'w outcome" where
  "root_command stdout out now s =
     run_script stdout (Scope out (Say now 2 ''Use a subcommand. See --help for details.'' Finished) Finished) s"

text \<open>
  The process: its environment variables and version, what the outside decides while it starts, the router
  and decoder of the server, and the events until it is told to stop.
\<close>

record process =
  pr_parse :: "string list \<Rightarrow> goerr + command"
  pr_getenv :: "string \<Rightarrow> string"
  pr_linked :: linked
  pr_world :: world
  pr_router :: router
  pr_decode :: "string \<Rightarrow> json option"
  pr_events :: "event list"

definition App :: "process \<Rightarrow> (string \<Rightarrow> string) \<Rightarrow> program" where
  "App pr flag = \<lparr>pg_config = serve_config flag (pr_getenv pr),
     pg_version = SetVersionInfo (ln_version (pr_linked pr)) (ln_commit (pr_linked pr)) (ln_date (pr_linked pr)),
     pg_router = pr_router pr, pg_decode = pr_decode pr\<rparr>"

record ending =
  en_code :: int
  en_stderr :: "goerr option"
  en_catalog :: catalog
  en_db :: database
  en_actions :: "action list"

text \<open>\<^verbatim>\<open>runServe\<close>: requests and ticks are handled once the server is set to listen; where the
  port is taken at once the list of events has no request.\<close>

definition runServe :: "process \<Rightarrow> (string \<Rightarrow> string) \<Rightarrow> catalog \<Rightarrow> database \<Rightarrow> (goerr option \<times> catalog \<times> database) \<times> action list" where
  "runServe pr flag c db =
     (let cfg = serve_config flag (pr_getenv pr) in
      case Run (pr_world pr) cfg c of ((res, c1), acts) \<Rightarrow>
        ((res, c1, if Listen (cfg_BindAddr cfg) \<in> set acts then run_program (App pr flag) (pr_events pr) db else db),
         acts))"

definition main :: "process \<Rightarrow> string list \<Rightarrow> catalog \<Rightarrow> database \<Rightarrow> ending" where
  "main pr args c db = (case pr_parse pr args of
       Inl e \<Rightarrow> \<lparr>en_code = 1, en_stderr = Some e, en_catalog = c, en_db = db, en_actions = []\<rparr>
     | Inr (ServeCommand flag) \<Rightarrow> (case runServe pr flag c db of ((res, c1, db1), acts) \<Rightarrow>
           \<lparr>en_code = (if res = None then 0 else 1), en_stderr = res, en_catalog = c1, en_db = db1, en_actions = acts\<rparr>)
     | Inr _ \<Rightarrow> \<lparr>en_code = 0, en_stderr = None, en_catalog = c, en_db = db, en_actions = []\<rparr>)"

section \<open>The life of a process\<close>

text \<open>Called without a subcommand the program returns, and writes one line.\<close>

lemma root_command_returns:
  "\<exists>t. root_command stdout out now (init_logger stdout) = Returned t \<and> length (lg_out t) = 1 \<and> lg_writer t = stdout"
  by (cases "out = stdout")
    (simp_all add: root_command_def To_def SetWriter_def locked_def init_logger_def log_def emit_def restore_body_def)

lemma main_serve:
  assumes "pr_parse pr args = Inr (ServeCommand flag)" "cfg = serve_config flag (pr_getenv pr)"
  obtains res c1 acts where "Run (pr_world pr) cfg c = ((res, c1), acts)"
    "main pr args c db = \<lparr>en_code = (if res = None then 0 else 1), en_stderr = res, en_catalog = c1,
       en_db = (if Listen (cfg_BindAddr cfg) \<in> set acts then run_program (App pr flag) (pr_events pr) db else db),
       en_actions = acts\<rparr>"
proof -
  obtain res c1 acts where run: "Run (pr_world pr) cfg c = ((res, c1), acts)" by (metis surj_pair)
  show ?thesis by (rule that [OF run]) (use run assms in \<open>simp add: main_def runServe_def Let_def\<close>)
qed

text \<open>
  C4. The life of a process.  Whatever its arguments and its environment: it exits with 0 or with 1 and the
  error it prints; the data is changed by calls of the store only, and if at all after the whole schema is in
  place; and a database that was opened is closed once before the process ends.
\<close>

theorem process_lifecycle:
  assumes "list_all (event_ok (admissible good)) (pr_events pr)"
  shows "en_code (main pr args c db) = (if en_stderr (main pr args c db) = None then 0 else 1) \<and>
    reaches good db (en_db (main pr args c db)) \<and>
    (en_db (main pr args c db) \<noteq> db \<longrightarrow> migrated (en_catalog (main pr args c db))) \<and>
    count_list (en_actions (main pr args c db)) CloseDB = (if \<exists>url. OpenDB url \<in> set (en_actions (main pr args c db)) \<and>
      wd_error (pr_world pr) (OpenDB url) = None then 1 else 0)"
proof (cases "\<exists>flag. pr_parse pr args = Inr (ServeCommand flag)")
  case True
  then obtain flag where flag: "pr_parse pr args = Inr (ServeCommand flag)" by blast
  let ?cfg = "serve_config flag (pr_getenv pr)"
  obtain res c1 acts where run: "Run (pr_world pr) ?cfg c = ((res, c1), acts)" and m: "main pr args c db =
      \<lparr>en_code = (if res = None then 0 else 1), en_stderr = res, en_catalog = c1,
       en_db = (if Listen (cfg_BindAddr ?cfg) \<in> set acts then run_program (App pr flag) (pr_events pr) db else db),
       en_actions = acts\<rparr>" using main_serve [OF flag refl] by blast
  have "OpenDB u \<in> set acts \<longleftrightarrow> u = cfg_DatabaseURL ?cfg" for u
    using run by (auto simp: Run_def store_New_def split: option.splits prod.splits)
  then show ?thesis
    using Run_closes(1) [OF run] Run_closes(2) [OF run, of "Listen (cfg_BindAddr ?cfg)" "cfg_BindAddr ?cfg"] calls.program_keeps [OF allowed_all(4) assms here]
    by (simp add: m here)
next
  case False
  then show ?thesis by (cases "pr_parse pr args") (auto simp: main_def here split: command.split)
qed

text \<open>Witness: a process without flags in an empty environment, on a fresh database, with one tick.\<close>

definition demo_process :: process where
  "demo_process = \<lparr>pr_parse = (\<lambda>args. if args = [''serve''] then Inr (ServeCommand (\<lambda>_. [])) else Inl (ErrText ''unknown command'')),
     pr_getenv = (\<lambda>_. []), pr_linked = \<lparr>ln_version = ''1.0'', ln_commit = ''abc'', ln_date = ''today''\<rparr>,
     pr_world = \<lparr>wd_error = (\<lambda>_. None), wd_tables = Committed, wd_indexes = Committed, wd_contents = no_rows\<rparr>,
     pr_router = pg_router (demo_program [] demo_router), pr_decode = (\<lambda>_. None),
     pr_events = [ExpiryTick (quiet_senv (demo_time (4000 * Second)) ''v'')]\<rparr>"

theorem process_lifecycle_witness:
  "reaches (\<lambda>_. True) demo_db (en_db (main demo_process [''serve''] empty_catalog demo_db)) \<and>
   count_list (en_actions (main demo_process [''serve''] empty_catalog demo_db)) CloseDB = 1 \<and>
   en_code (main demo_process [''serve''] empty_catalog demo_db) = 0"
proof -
  let ?m = "main demo_process [''serve''] empty_catalog demo_db"
  have ev: "list_all (event_ok (admissible (\<lambda>_. True))) (pr_events demo_process)"
    by (simp add: demo_process_def quiet_admissible)
  have parse: "pr_parse demo_process [''serve''] = Inr (ServeCommand (\<lambda>_. []))" by (simp add: demo_process_def)
  obtain res c1 acts where run: "Run (pr_world demo_process) (serve_config (\<lambda>_. []) (pr_getenv demo_process)) empty_catalog =
      ((res, c1), acts)" and m: "en_stderr ?m = res" "en_actions ?m = acts"
    by (rule main_serve [OF parse refl, where c = empty_catalog and db = demo_db]) simp
  obtain c0 where "migrate Committed Committed no_rows empty_catalog = (None, c0)"
    using fresh_start by (metis prod.collapse)
  then have "store_New (pr_world demo_process) url empty_catalog =
      ((None, c0), [OpenDB url, PingDB, Migrate])" for url
    by (simp add: store_New_def demo_process_def)
  then have "res = None" "OpenDB (cfg_DatabaseURL (serve_config (\<lambda>_. []) (pr_getenv demo_process))) \<in> set acts"
    using run by (auto simp: Run_def demo_process_def)
  moreover have "wd_error (pr_world demo_process) a = None" for a by (simp add: demo_process_def)
  ultimately show ?thesis
    using process_lifecycle [OF ev, of "[''serve'']" empty_catalog demo_db] unfolding m by auto
qed

end
