(* ===== verification/Timing.thy ===== *)
theory Timing
  imports GoDuration
begin

text \<open>
  \<^verbatim>\<open>internal/timing/timing.go\<close> and \<^verbatim>\<open>internal/handlers/timing.go\<close>: the database time of a request, and the
  middleware that buffers the response to put the timing headers in front of it.  A handler is the list of
  the calls it makes on its \<^verbatim>\<open>http.ResponseWriter\<close> and the durations the store tracks meanwhile.
\<close>

section \<open>The code\<close>

definition Milliseconds :: "duration \<Rightarrow> int" where
  "Milliseconds d = go_quot d 1000000"

text \<open>An accumulator, or none in the context.  \<^verbatim>\<open>atomic.Int64\<close> wraps around.\<close>

definition Accumulator_Add :: "int \<Rightarrow> int \<Rightarrow> int" where
  "Accumulator_Add delta a = wrap64 (a + delta)"

definition TrackDB :: "duration \<Rightarrow> int option \<Rightarrow> int option" where
  "TrackDB elapsed acc = (case acc of None \<Rightarrow> None | Some a \<Rightarrow> Some (Accumulator_Add (Milliseconds elapsed) a))"

definition NewContext :: "int option" where
  "NewContext = Some 0"

datatype write_op = WriteHeader int | Write string

record bufResponseWriter =
  bw_status :: int
  bw_buf :: string

fun buf_do :: "write_op \<Rightarrow> bufResponseWriter \<Rightarrow> bufResponseWriter" where
  "buf_do (WriteHeader status) b = b\<lparr>bw_status := status\<rparr>"
| "buf_do (Write p) b =
     (let b1 = (if bw_status b = 0 then b\<lparr>bw_status := 200\<rparr> else b) in b1\<lparr>bw_buf := bw_buf b1 @ p\<rparr>)"

text \<open>
  The writer of \<^verbatim>\<open>net/http\<close> behind it: the first \<^verbatim>\<open>WriteHeader\<close> counts, a write before it sends 200, and so
  does the end of the handler.
\<close>

record wire =
  wi_status :: int
  wi_body :: string

fun wire_do :: "write_op \<Rightarrow> wire \<Rightarrow> wire" where
  "wire_do (WriteHeader status) w = (if wi_status w = 0 then w\<lparr>wi_status := status\<rparr> else w)"
| "wire_do (Write p) w = (let w1 = (if wi_status w = 0 then w\<lparr>wi_status := 200\<rparr> else w) in w1\<lparr>wi_body := wi_body w1 @ p\<rparr>)"

definition wire_start :: wire where "wire_start = \<lparr>wi_status = 0, wi_body = []\<rparr>"

definition wire_end :: "wire \<Rightarrow> wire" where
  "wire_end w = (if wi_status w = 0 then w\<lparr>wi_status := 200\<rparr> else w)"

record timed_response =
  tr_headers :: "(string \<times> string) list"
  tr_wire :: wire

definition processing_ms :: "int \<Rightarrow> int \<Rightarrow> int" where
  "processing_ms totalMs dbMs = (let p = totalMs - dbMs in if p < 0 then 0 else p)"

definition flush :: "int \<Rightarrow> int \<Rightarrow> bufResponseWriter \<Rightarrow> timed_response" where
  "flush totalMs dbMs b =
     \<lparr>tr_headers = [(''X-Total-Ms'', show_int totalMs), (''X-Processing-Ms'', show_int (processing_ms totalMs dbMs)),
        (''X-DB-Ms'', show_int dbMs)],
      tr_wire = wire_do (Write (bw_buf b))
        (if bw_status b \<noteq> 0 then wire_do (WriteHeader (bw_status b)) wire_start else wire_start)\<rparr>"

text \<open>
  The middleware: \<open>elapsed\<close> is the time of the whole request, \<open>tracked\<close> the times of the store's calls.
  The log line it ends with is the second component.
\<close>

record log_entry =
  le_status :: int
  le_total_ms :: int
  le_processing_ms :: int
  le_db_ms :: int

definition timingMiddleware :: "duration \<Rightarrow> duration list \<Rightarrow> write_op list \<Rightarrow> timed_response \<times> log_entry" where
  "timingMiddleware elapsed tracked ops =
     (let acc = fold TrackDB tracked NewContext;
          bw = fold buf_do ops \<lparr>bw_status = 0, bw_buf = []\<rparr>;
          totalMs = Milliseconds elapsed;
          dbMs = (case acc of Some a \<Rightarrow> a | None \<Rightarrow> 0);
          status = (if bw_status bw = 0 then 200 else bw_status bw)
      in (flush totalMs dbMs bw,
          \<lparr>le_status = status, le_total_ms = totalMs, le_processing_ms = processing_ms totalMs dbMs, le_db_ms = dbMs\<rparr>))"

section \<open>The buffering is transparent\<close>

fun header_calls :: "write_op list \<Rightarrow> nat" where
  "header_calls [] = 0"
| "header_calls (WriteHeader st # ops) = Suc (header_calls ops)"
| "header_calls (Write p # ops) = header_calls ops"

text \<open>A handler that writes at most one header, before any part of the body, and a valid one.\<close>

fun well_behaved :: "write_op list \<Rightarrow> bool" where
  "well_behaved [] \<longleftrightarrow> True"
| "well_behaved (WriteHeader st # ops) \<longleftrightarrow> st \<noteq> 0 \<and> header_calls ops = 0"
| "well_behaved (Write p # ops) \<longleftrightarrow> header_calls ops = 0"

lemma writes_agree:
  "header_calls ops = 0 \<Longrightarrow> bw_status b = wi_status w \<Longrightarrow> bw_buf b = wi_body w \<Longrightarrow>
     bw_status (fold buf_do ops b) = wi_status (fold wire_do ops w) \<and> bw_buf (fold buf_do ops b) = wi_body (fold wire_do ops w)"
proof (induction ops arbitrary: b w)
  case (Cons op ops)
  then show ?case by (cases op) (simp_all add: Let_def)
qed simp

lemma wire_unsent: "wi_status (fold wire_do ops wire_start) = 0 \<Longrightarrow> wi_body (fold wire_do ops wire_start) = []"
proof (induction ops rule: rev_induct)
  case (snoc op ops)
  then show ?case by (cases op) (auto simp: Let_def split: if_splits)
qed (simp add: wire_start_def)

text \<open>
  Seen from the client the buffering changes nothing.  For every handler that writes at most one header
  and no header after the body has begun, the response on the wire has the status and the body the handler
  would have produced without the middleware, whatever was measured.
\<close>

theorem timing_buffer_transparent:
  assumes "well_behaved ops"
  shows "tr_wire (fst (timingMiddleware elapsed tracked ops)) = wire_end (fold wire_do ops wire_start)"
proof -
  let ?b = "fold buf_do ops \<lparr>bw_status = 0, bw_buf = []\<rparr>" and ?w = "fold wire_do ops wire_start"
  have "bw_status ?b = wi_status ?w \<and> bw_buf ?b = wi_body ?w"
  proof (cases ops)
    case (Cons op rest)
    then show ?thesis using assms writes_agree [of rest]
      by (cases op) (simp_all add: wire_start_def Let_def)
  qed (simp add: wire_start_def)
  moreover note wire_unsent [of ops]
  ultimately show ?thesis
    by (simp add: timingMiddleware_def flush_def wire_end_def wire_start_def Let_def)
qed

theorem timing_buffer_transparent_witness:
  "tr_wire (fst (timingMiddleware (3 * Second) [Second] [WriteHeader 404, Write ''no'', Write ''ne''])) =
     \<lparr>wi_status = 404, wi_body = ''none''\<rparr>"
  using timing_buffer_transparent [of "[WriteHeader 404, Write ''no'', Write ''ne'']" "3 * Second" "[Second]"]
  by (simp add: wire_end_def wire_start_def)

lemma div_le_dividend_int: "0 \<le> e \<Longrightarrow> 0 < k \<Longrightarrow> e div k \<le> (e :: int)"
  by (metis div_by_1 zdiv_mono2 zero_less_one int_one_le_iff_zero_less)

text \<open>Nested calls of the store track the inner time twice; the processing time is then cut off at zero.\<close>

lemma tracked_sum:
  assumes "\<forall>e \<in> set tracked. 0 \<le> e" "0 \<le> a" "a + sum_list tracked < 2 ^ 63"
  shows "fold TrackDB tracked (Some a) = Some (a + sum_list (map Milliseconds tracked))"
  using assms
proof (induction tracked arbitrary: a)
  case (Cons e es)
  have e: "0 \<le> Milliseconds e" "Milliseconds e \<le> e" "0 \<le> sum_list es"
    using Cons.prems div_le_dividend_int [of e 1000000]
    by (simp_all add: Milliseconds_def go_quot_def sgn_if sum_list_nonneg pos_imp_zdiv_nonneg_iff)
  then have "Accumulator_Add (Milliseconds e) a = a + Milliseconds e"
    using Cons.prems by (simp add: Accumulator_Add_def wrap64_id)
  then show ?case using Cons.IH [of "a + Milliseconds e"] Cons.prems e by (simp add: TrackDB_def algebra_simps)
qed simp

end
