(* ===== verification/Wire.thy ===== *)
theory Wire
  imports ReadOnly
begin

text \<open>
  What of an answer leaves the server: the JSON encoding of the model types and of the response structs by
  their tags (\<^verbatim>\<open>internal/model\<close>, \<^verbatim>\<open>internal/handlers\<close>), members in the order of the fields.  The member
  \<^verbatim>\<open>$schema\<close> that huma adds to objects is not part of it.  Then: what a token can do to a response.
\<close>

section \<open>Members of a struct\<close>

definition always :: "string \<Rightarrow> json \<Rightarrow> (string \<times> json) list option" where
  "always k j = Some [(k, j)]"

definition time_member :: "string \<Rightarrow> gotime \<Rightarrow> (string \<times> json) list option" where
  "time_member k t = map_option (\<lambda>j. [(k, j)]) (marshal_time t)"

definition omit_int :: "string \<Rightarrow> int \<Rightarrow> (string \<times> json) list" where
  "omit_int k n = omit_num k (of_int n)"

definition omit_bool :: "string \<Rightarrow> bool \<Rightarrow> (string \<times> json) list" where
  "omit_bool k b = (if b then [(k, JBool True)] else [])"

definition omit_strs :: "string \<Rightarrow> string slice \<Rightarrow> (string \<times> json) list" where
  "omit_strs k s = (if elems s = [] then [] else [(k, marshal_strs s)])"

definition omit_map :: "string \<Rightarrow> gomap \<Rightarrow> (string \<times> json) list" where
  "omit_map k m = (case m of None \<Rightarrow> [] | Some [] \<Rightarrow> [] | Some kvs \<Rightarrow> [(k, marshal_map m)])"

definition members :: "(string \<times> json) list option list \<Rightarrow> (string \<times> json) list option" where
  "members ms = map_option concat (all_some ms)"

definition struct :: "(string \<times> json) list option list \<Rightarrow> json option" where
  "struct ms = map_option JObj (members ms)"

definition encode_list :: "('a \<Rightarrow> json option) \<Rightarrow> 'a list \<Rightarrow> json option" where
  "encode_list f xs = map_option JArr (all_some (map f xs))"

section \<open>The model types\<close>

definition session_members :: "SessionContext \<Rightarrow> (string \<times> json) list" where
  "session_members sc = omit_str ''session_key'' (SessionKey sc) @ omit_str ''session_id'' (SessionID sc) @
     omit_str ''channel'' (Channel sc) @ omit_str ''sender_id'' (SenderID sc) @
     omit_bool ''sender_is_owner'' (SenderIsOwner sc) @ omit_bool ''sandboxed'' (Sandboxed sc)"

definition encode_memory :: "MemoryEntry \<Rightarrow> json option" where
  "encode_memory e = struct
     [always ''key'' (JStr (me_Key e)), always ''value'' (JStr (me_Value e)), always ''agent_id'' (JStr (me_AgentID e)),
      always ''tags'' (marshal_strs (me_Tags e)), always ''version'' (JNum (of_int (me_Version e))),
      Some (session_members (me_Session e)), time_member ''created_at'' (me_CreatedAt e),
      time_member ''updated_at'' (me_UpdatedAt e)]"

definition encode_task :: "Task \<Rightarrow> json option" where
  "encode_task t = struct
     [always ''id'' (JStr (ta_ID t)), always ''title'' (JStr (ta_Title t)), always ''description'' (JStr (ta_Description t)),
      always ''status'' (JStr (ta_Status t)), always ''creator'' (JStr (ta_Creator t)),
      always ''assignee'' (JStr (ta_Assignee t)), always ''priority'' (JNum (of_int (ta_Priority t))),
      always ''tags'' (marshal_strs (ta_Tags t)), always ''notes'' (marshal_strs (ta_Notes t)),
      Some (session_members (ta_Session t)), time_member ''created_at'' (ta_CreatedAt t),
      time_member ''updated_at'' (ta_UpdatedAt t)]"

definition encode_claim :: "Claim \<Rightarrow> json option" where
  "encode_claim c = struct
     [always ''id'' (JStr (cl_ID c)), always ''type'' (JStr (cl_Type c)), always ''resource'' (JStr (cl_Resource c)),
      always ''agent_id'' (JStr (cl_AgentID c)), always ''status'' (JStr (cl_Status c)),
      Some (omit_map ''metadata'' (cl_Metadata c)), Some (session_members (cl_Session c)),
      time_member ''claimed_at'' (cl_ClaimedAt c), time_member ''expires_at'' (cl_ExpiresAt c),
      time_member ''updated_at'' (cl_UpdatedAt c)]"

definition encode_waiter :: "ClaimWaiter \<Rightarrow> json option" where
  "encode_waiter w = struct
     [always ''id'' (JStr (cw_ID w)), always ''resource'' (JStr (cw_Resource w)), always ''agent_id'' (JStr (cw_AgentID w)),
      always ''type'' (JStr (cw_Type w)), Some (omit_map ''metadata'' (cw_Metadata w)),
      Some (session_members (cw_Session w)), always ''expires_in_sec'' (JNum (of_int (cw_ExpiresInSec w))),
      time_member ''queued_at'' (cw_QueuedAt w)]"

definition encode_or_null :: "('a \<Rightarrow> json option) \<Rightarrow> 'a option \<Rightarrow> json option" where
  "encode_or_null f x = (case x of None \<Rightarrow> Some JNull | Some y \<Rightarrow> f y)"

definition omit_nil :: "string \<Rightarrow> ('a \<Rightarrow> json option) \<Rightarrow> 'a option \<Rightarrow> (string \<times> json) list option" where
  "omit_nil k f x = (case x of None \<Rightarrow> Some [] | Some y \<Rightarrow> map_option (\<lambda>j. [(k, j)]) (f y))"

definition encode_release :: "ClaimReleaseResult \<Rightarrow> json option" where
  "encode_release r = struct
     [always ''released'' (JBool (cr_Released r)),
      map_option (\<lambda>j. [(''claim'', j)]) (encode_or_null encode_claim (cr_Claim r)),
      omit_nil ''next'' encode_waiter (cr_Next r)]"

text \<open>The tag \<^verbatim>\<open>json:"-"\<close> keeps the token out.\<close>

definition agent_members :: "Agent \<Rightarrow> (string \<times> json) list option list" where
  "agent_members a =
     [always ''id'' (JStr (ag_ID a)), always ''name'' (JStr (ag_Name a)), always ''status'' (JStr (ag_Status a)),
      Some (omit_str ''activity'' (ag_Activity a)), always ''capabilities'' (marshal_strs (ag_Capabilities a)),
      time_member ''last_heartbeat'' (ag_LastHeartbeat a), time_member ''registered_at'' (ag_RegisteredAt a),
      Some (omit_str ''hive_local_version'' (ag_HiveLocalVersion a)),
      Some (omit_str ''hive_plugin_version'' (ag_HivePluginVersion a))]"

definition encode_agent :: "Agent \<Rightarrow> json option" where
  "encode_agent a = struct (agent_members a)"

definition meta_members :: "DiscoveryAgentMeta \<Rightarrow> (string \<times> json) list option list" where
  "meta_members m = [Some (omit_str ''discord_user_id'' (dm_DiscordUserID m)), Some (omit_str ''home_channel'' (dm_HomeChannel m)),
     Some (omit_str ''mention_format'' (dm_MentionFormat m)), Some (omit_strs ''channels'' (dm_Channels m))]"

text \<open>Embedded pointers: their members, none for nil.\<close>

definition encode_discovery_agent :: "DiscoveryAgent \<Rightarrow> json option" where
  "encode_discovery_agent d = struct (agent_members (da_Agent d) @
     (case da_Meta d of None \<Rightarrow> [] | Some m \<Rightarrow> meta_members m))"

definition encode_channel :: "DiscoveryChannel \<Rightarrow> json option" where
  "encode_channel c = struct
     [always ''id'' (JStr (dc_ID c)), always ''name'' (JStr (dc_Name c)), Some (omit_str ''discord_id'' (dc_DiscordID c)),
      Some (omit_str ''purpose'' (dc_Purpose c)), Some (omit_str ''category'' (dc_Category c)),
      Some (omit_strs ''members'' (dc_Members c)), time_member ''created_at'' (dc_CreatedAt c),
      time_member ''updated_at'' (dc_UpdatedAt c)]"

definition encode_role :: "DiscoveryRole \<Rightarrow> json option" where
  "encode_role r = struct
     [always ''id'' (JStr (dr_ID r)), always ''name'' (JStr (dr_Name r)), Some (omit_str ''discord_id'' (dr_DiscordID r)),
      Some (omit_strs ''members'' (dr_Members r)), time_member ''created_at'' (dr_CreatedAt r),
      time_member ''updated_at'' (dr_UpdatedAt r)]"

definition encode_routing :: "DiscoveryRouting \<Rightarrow> json option" where
  "encode_routing r = struct
     [always ''agent_id'' (JStr (rt_AgentID r)), Some (omit_str ''mention_format'' (rt_MentionFormat r)),
      Some (omit_str ''home_channel'' (rt_HomeChannel r)), Some (omit_strs ''channels'' (rt_Channels r))]"

definition encode_todo :: "Todo \<Rightarrow> json option" where
  "encode_todo t = struct
     [always ''id'' (JStr (td_ID t)), always ''agent_id'' (JStr (td_AgentID t)), always ''title'' (JStr (td_Title t)),
      always ''status'' (JStr (td_Status t)), always ''sort_order'' (JNum (of_int (td_SortOrder t))),
      Some (omit_str ''parent_task'' (td_ParentTask t)), Some (omit_str ''context'' (td_Context t)),
      time_member ''created_at'' (td_CreatedAt t), time_member ''updated_at'' (td_UpdatedAt t)]"

definition omit_slice :: "string \<Rightarrow> ('a \<Rightarrow> json option) \<Rightarrow> 'a slice \<Rightarrow> (string \<times> json) list option" where
  "omit_slice k f xs = (if elems xs = [] then Some [] else map_option (\<lambda>j. [(k, j)]) (marshal_slice f xs))"

definition omit_any_map :: "string \<Rightarrow> (string \<times> json) list option \<Rightarrow> (string \<times> json) list" where
  "omit_any_map k m = (if elems m = [] then [] else [(k, marshal_any_map m)])"

text \<open>\<^verbatim>\<open>omitempty\<close> never leaves out a struct such as \<^verbatim>\<open>time.Time\<close>.\<close>

definition encode_session :: "CapturedSession \<Rightarrow> json option" where
  "encode_session s = struct
     [Some (omit_str ''id'' (cs_ID s)), always ''agent_id'' (JStr (cs_AgentID s)),
      Some (omit_str ''session_key'' (cs_SessionKey s)), Some (omit_str ''session_id'' (cs_SessionID s)),
      Some (omit_str ''channel'' (cs_Channel s)), Some (omit_str ''sender_id'' (cs_SenderID s)),
      Some (omit_str ''model'' (cs_Model s)), Some (omit_str ''provider'' (cs_Provider s)),
      omit_time ''started_at'' (cs_StartedAt s), omit_time ''finished_at'' (cs_FinishedAt s),
      omit_nil ''usage'' (\<lambda>u. Some (marshal_usage u)) (cs_Usage s), Some (omit_str ''repo'' (cs_Repo s)),
      Some (omit_strs ''paths'' (cs_Paths s)), Some (omit_str ''summary'' (cs_Summary s)),
      omit_slice ''turns'' marshal_turn (cs_Turns s), omit_slice ''tool_calls'' marshal_toolcall (cs_ToolCalls s),
      Some (omit_any_map ''metadata'' (cs_Metadata s)), Some (omit_str ''parent_session_id'' (cs_ParentSessionID s)),
      time_member ''created_at'' (cs_CreatedAt s)]"

section \<open>Responses\<close>

text \<open>The body of a claim request: the claim's members, or those of the place in the queue.\<close>

definition encode_claim_created :: "Claim option \<Rightarrow> bool option \<Rightarrow> int option \<Rightarrow> string \<Rightarrow> json option" where
  "encode_claim_created c queued position waiter = struct
     [(case c of None \<Rightarrow> Some [] | Some c \<Rightarrow> (case encode_claim c of Some (JObj ms) \<Rightarrow> Some ms | _ \<Rightarrow> None)),
      omit_nil ''queued'' (\<lambda>b. Some (JBool b)) queued,
      omit_nil ''position'' (\<lambda>n. Some (JNum (of_int n))) position,
      Some (omit_str ''waiter_id'' waiter)]"

definition encode_onboarded :: "Agent \<Rightarrow> string \<Rightarrow> json option" where
  "encode_onboarded a token = struct [map_option (\<lambda>j. [(''agent'', j)]) (encode_agent a), always ''token'' (JStr token)]"

definition encode_accepted :: "bool \<Rightarrow> json option" where
  "encode_accepted b = struct [always ''ok'' (JBool b)]"

definition encode_pruned :: "nat \<Rightarrow> json option" where
  "encode_pruned n = struct [always ''pruned'' (JNum (of_nat n))]"

text \<open>No body at all is \<open>Some None\<close>; \<open>None\<close> is an error of the encoder.\<close>

primrec encode_body :: "body \<Rightarrow> json option option" where
  "encode_body NoBody = Some None"
| "encode_body (BMemory x) = map_option Some (encode_memory x)"
| "encode_body (BMemories xs) = map_option Some (encode_list encode_memory xs)"
| "encode_body (BTask x) = map_option Some (encode_task x)"
| "encode_body (BTasks xs) = map_option Some (encode_list encode_task xs)"
| "encode_body (BAgent x) = map_option Some (encode_agent x)"
| "encode_body (BAgents xs) = map_option Some (encode_list encode_agent xs)"
| "encode_body (BAccepted b) = map_option Some (encode_accepted b)"
| "encode_body (BOnboarded a token) = map_option Some (encode_onboarded a token)"
| "encode_body (BDiscoveryAgent x) = map_option Some (encode_discovery_agent x)"
| "encode_body (BDiscoveryAgents xs) = map_option Some (encode_list encode_discovery_agent xs)"
| "encode_body (BChannel x) = map_option Some (encode_channel x)"
| "encode_body (BChannels xs) = map_option Some (encode_list encode_channel xs)"
| "encode_body (BRole x) = map_option Some (encode_role x)"
| "encode_body (BRoles xs) = map_option Some (encode_list encode_role xs)"
| "encode_body (BRouting x) = map_option Some (encode_routing x)"
| "encode_body (BClaim x) = map_option Some (encode_claim x)"
| "encode_body (BClaims xs) = map_option Some (encode_list encode_claim xs)"
| "encode_body (BClaimCreated c b n w) = map_option Some (encode_claim_created c b n w)"
| "encode_body (BReleased r) = map_option Some (encode_release r)"
| "encode_body (BSession x) = map_option Some (encode_session x)"
| "encode_body (BSessions xs) = map_option Some (encode_list encode_session xs)"
| "encode_body (BTodo x) = map_option Some (encode_todo x)"
| "encode_body (BTodos xs) = map_option Some (encode_list encode_todo xs)"
| "encode_body (BPruned n) = map_option Some (encode_pruned n)"

definition encode_answer :: "api_answer reply \<Rightarrow> http_error + int \<times> json option option" where
  "encode_answer = map_sum id (\<lambda>a. (an_Status a, encode_body (an_Body a)))"

section \<open>Tokens stay out of the answers\<close>

definition untoken :: "agent_row \<Rightarrow> agent_row" where
  "untoken r = r\<lparr>a_token := None\<rparr>"

definition strip_tokens :: "database \<Rightarrow> database" where
  "strip_tokens d = d\<lparr>db_agents := map untoken (db_agents d)\<rparr>"

lemma strip_tokens_simps [simp]:
  "db_memory (strip_tokens d) = db_memory d" "db_tasks (strip_tokens d) = db_tasks d"
  "db_task_notes (strip_tokens d) = db_task_notes d" "db_discovery_channels (strip_tokens d) = db_discovery_channels d"
  "db_discovery_roles (strip_tokens d) = db_discovery_roles d" "db_claims (strip_tokens d) = db_claims d"
  "db_claim_queue (strip_tokens d) = db_claim_queue d" "db_todos (strip_tokens d) = db_todos d"
  "db_captured_sessions (strip_tokens d) = db_captured_sessions d"
  "db_agents (strip_tokens d) = map untoken (db_agents d)"
  by (simp_all add: strip_tokens_def)

text \<open>Nobody else at work; the driver may still fail.\<close>

definition alone :: "senv \<Rightarrow> bool" where
  "alone E \<longleftrightarrow> (\<forall>k. ac_others (sv_access E k) = id)"

definition rows_result :: "string \<Rightarrow> 'db access \<Rightarrow> goerr + 'r list \<Rightarrow> goerr + 'r list" where
  "rows_result s ac res = (case ac_fate ac of
       Committed \<Rightarrow> (case res of Inl e \<Rightarrow> Inl (Wrapped s e)
         | Inr rs \<Rightarrow> (case ac_rows ac of Some e \<Rightarrow> Inl e | None \<Rightarrow> Inr rs))
     | NotCommitted e \<Rightarrow> Inl (Wrapped s e) | MaybeCommitted e \<Rightarrow> Inl (Wrapped s e))"

definition row_result :: "'db access \<Rightarrow> goerr + 'r list \<Rightarrow> goerr + 'r" where
  "row_result ac res = (case ac_fate ac of
       Committed \<Rightarrow> (case res of Inl e \<Rightarrow> Inl e | Inr rs \<Rightarrow> first_row rs)
     | NotCommitted e \<Rightarrow> Inl e | MaybeCommitted e \<Rightarrow> Inl e)"

lemma query_alone:
  assumes "alone E"
  shows "query_rows s (sv_access E k) st d = (rows_result s (sv_access E k) (fst (st d)), d)"
    "query_row (sv_access E k) st1 d = (row_result (sv_access E k) (fst (st1 d)), d)"
  using assms by (simp_all add: query_rows_def query_row_def alone_def rows_result_def row_result_def Let_def
      split: commit_fate.split)

lemma results_map:
  "rows_result s ac (Inr (map f rs)) = map_sum id (map f) (rows_result s ac (Inr rs))"
  "row_result ac (Inr (map f rs)) = map_sum id f (row_result ac (Inr rs))"
  by (auto simp: rows_result_def row_result_def first_row_def split: commit_fate.split option.split list.split)

lemma insort_map: "(\<And>x. key (f x) = key x) \<Longrightarrow> insort_key key (f x) (map f rs) = map f (insort_key key x rs)"
  by (induction rs) auto

lemma order_asc_map: "(\<And>x. key (f x) = key x) \<Longrightarrow> order_asc key (map f rs) = map f (order_asc key rs)"
  by (induction rs) (simp_all add: order_asc_def insort_map)

lemma enumerate_map: "enumerate k (map f xs) = map (map_prod id f) (enumerate k xs)"
  by (induction xs arbitrary: k) simp_all

text \<open>Reading a table other than the agents: the result is the same, and nothing is written.\<close>

lemma select_strip [simp]:
  "fst (sql_select memory_t P1 (strip_tokens d)) = fst (sql_select memory_t P1 d)"
  "fst (sql_select tasks_t P2 (strip_tokens d)) = fst (sql_select tasks_t P2 d)"
  "fst (sql_select claims_t P3 (strip_tokens d)) = fst (sql_select claims_t P3 d)"
  "fst (sql_select todos_t P4 (strip_tokens d)) = fst (sql_select todos_t P4 d)"
  "fst (sql_select discovery_channels_t P5 (strip_tokens d)) = fst (sql_select discovery_channels_t P5 d)"
  "fst (sql_select discovery_roles_t P6 (strip_tokens d)) = fst (sql_select discovery_roles_t P6 d)"
  "fst (sql_select captured_sessions_t P7 (strip_tokens d)) = fst (sql_select captured_sessions_t P7 d)"
  "fst (select_memory mf (strip_tokens d)) = fst (select_memory mf d)"
  "fst (select_tasks tf (strip_tokens d)) = fst (select_tasks tf d)"
  "fst (select_notes i (strip_tokens d)) = fst (select_notes i d)"
  "fst (select_claims cf (strip_tokens d)) = fst (select_claims cf d)"
  "fst (select_todos df (strip_tokens d)) = fst (select_todos df d)"
  "fst (select_sessions jt sf (strip_tokens d)) = fst (select_sessions jt sf d)"
  by (simp_all add: sql_select_def select_memory_def select_tasks_def select_notes_def notes_of_def select_claims_def
      select_todos_def select_sessions_def)

lemma notes_strip:
  assumes "alone E"
  shows "loadTaskNotes E k t (strip_tokens d) = (fst (loadTaskNotes E k t d), strip_tokens d)"
    "snd (loadTaskNotes E k t d) = d"
  by (simp_all add: loadTaskNotes_def query_alone [OF assms] split: sum.split)

lemma all_notes_strip:
  assumes "alone E"
  shows "load_all_notes E k ts (strip_tokens d) = (fst (load_all_notes E k ts d), strip_tokens d)"
proof (induction ts arbitrary: k)
  case (Cons t ts)
  obtain res where "loadTaskNotes E k t d = (res, d)" using notes_strip(2) [OF assms] by (metis prod.collapse)
  then show ?case using notes_strip(1) [OF assms, of k t d] Cons.IH by (auto split: sum.split prod.split)
qed simp

lemma reads_strip:
  assumes "alone E"
  shows "GetMemory E k (strip_tokens d) = (fst (GetMemory E k d), strip_tokens d)"
    "ListMemory E mf (strip_tokens d) = (fst (ListMemory E mf d), strip_tokens d)"
    "GetTask E i (strip_tokens d) = (fst (GetTask E i d), strip_tokens d)"
    "ListTasks E tf (strip_tokens d) = (fst (ListTasks E tf d), strip_tokens d)"
    "GetClaim E i (strip_tokens d) = (fst (GetClaim E i d), strip_tokens d)"
    "ListClaims E cf (strip_tokens d) = (fst (ListClaims E cf d), strip_tokens d)"
    "GetTodo E i (strip_tokens d) = (fst (GetTodo E i d), strip_tokens d)"
    "ListTodos E df (strip_tokens d) = (fst (ListTodos E df d), strip_tokens d)"
    "GetChannel E i (strip_tokens d) = (fst (GetChannel E i d), strip_tokens d)"
    "ListChannels E (strip_tokens d) = (fst (ListChannels E d), strip_tokens d)"
    "GetRole E i (strip_tokens d) = (fst (GetRole E i d), strip_tokens d)"
    "ListRoles E (strip_tokens d) = (fst (ListRoles E d), strip_tokens d)"
    "GetCapturedSession E i (strip_tokens d) = (fst (GetCapturedSession E i d), strip_tokens d)"
    "ListCapturedSessions jt E sf (strip_tokens d) = (fst (ListCapturedSessions jt E sf d), strip_tokens d)"
  by (simp_all add: GetMemory_def ListMemory_def GetTask_def ListTasks_def GetClaim_def ListClaims_def GetTodo_def
      ListTodos_def GetChannel_def ListChannels_def GetRole_def ListRoles_def GetCapturedSession_def ListCapturedSessions_def
      query_alone [OF assms] notes_strip [OF assms] all_notes_strip [OF assms] split: sum.split)

text \<open>Reading the agents: the same but for the token, which the encoder leaves out.\<close>

definition blind :: "Agent \<Rightarrow> Agent" where
  "blind a = a\<lparr>ag_Token := []\<rparr>"

lemma encode_blind [simp]: "encode_agent (blind a) = encode_agent a" "encode_agent \<circ> blind = encode_agent"
  by (simp_all add: encode_agent_def agent_members_def blind_def fun_eq_iff)

lemma untoken_simps [simp]:
  "a_id (untoken r) = a_id r" "agent_of_row now (untoken r) = blind (agent_of_row now r)"
  "discovery_agent_of_row now (untoken r) = discovery_agent_of_row now r"
  by (simp_all add: untoken_def blind_def agent_of_row_def discovery_agent_of_row_def finishAgentScan_def Let_def)

lemma select_agents_strip:
  "fst (sql_select agents_t (\<lambda>r. a_id r = i) (strip_tokens d)) = Inr (map untoken (filter (\<lambda>r. a_id r = i) (db_agents d)))"
  by (simp add: sql_select_def filter_map comp_def)

lemma scan_row_map: "scan_row s f (map_sum id g res) = scan_row s (f \<circ> g) res"
  by (cases res) (simp_all add: scan_row_def)

lemma scan_row_after: "scan_row s (\<lambda>x. g (f x)) res = map_sum id g (scan_row s f res)"
  by (cases res) (simp_all add: scan_row_def)

lemma agents_strip:
  assumes "alone E"
  shows "GetAgent E i (strip_tokens d) = (map_sum id blind (fst (GetAgent E i d)), strip_tokens d)"
    "ListAgents E (strip_tokens d) = (map_sum id (map blind) (fst (ListAgents E d)), strip_tokens d)"
    "GetDiscoveryAgent E i (strip_tokens d) = (fst (GetDiscoveryAgent E i d), strip_tokens d)"
    "ListDiscoveryAgents E (strip_tokens d) = (fst (ListDiscoveryAgents E d), strip_tokens d)"
proof -
  have row: "row_result ac (fst (sql_select agents_t (\<lambda>r. a_id r = i) (strip_tokens d))) =
      map_sum id untoken (row_result ac (fst (sql_select agents_t (\<lambda>r. a_id r = i) d)))" for ac :: "database access"
    unfolding select_agents_strip results_map by (simp add: sql_select_def)
  have rows: "rows_result s ac (Inr (order_asc a_id (map untoken (db_agents d)))) =
      map_sum id (map untoken) (rows_result s ac (Inr (order_asc a_id (db_agents d))))" for s and ac :: "database access"
    by (simp add: order_asc_map results_map)
  show "GetAgent E i (strip_tokens d) = (map_sum id blind (fst (GetAgent E i d)), strip_tokens d)"
    by (simp add: GetAgent_at_def query_alone [OF assms] row scanAgentRow_def scan_row_map comp_def scan_row_after)
  show "GetDiscoveryAgent E i (strip_tokens d) = (fst (GetDiscoveryAgent E i d), strip_tokens d)"
    by (simp add: GetDiscoveryAgent_def query_alone [OF assms] row scanDiscoveryAgentRow_def scan_row_map comp_def)
  show "ListAgents E (strip_tokens d) = (map_sum id (map blind) (fst (ListAgents E d)), strip_tokens d)"
    by (simp add: ListAgents_def query_alone [OF assms] rows split: sum.split)
      (simp add: enumerate_map comp_def case_prod_unfold)
  show "ListDiscoveryAgents E (strip_tokens d) = (fst (ListDiscoveryAgents E d), strip_tokens d)"
    by (simp add: ListDiscoveryAgents_def query_alone [OF assms] rows split: sum.split)
      (simp add: enumerate_map comp_def case_prod_unfold)
qed

lemma fst_reply [simp]:
  "fst (sent st b rd) = map_sum id (\<lambda>x. \<lparr>an_Status = st, an_Body = b x, an_Relay = []\<rparr>) (fst rd)"
  "fst (answers cs other ed) = answer cs other (fst ed)" "fst (map_reply f rd) = map_sum id f (fst rd)"
  by (cases rd; cases "fst rd"; simp add: sent_def map_reply_def answers_def)+

lemma answer_map: "answer cs other (map_sum id f res) = map_sum id f (answer cs other res)"
  by (induction cs other res rule: answer.induct) simp_all

lemma encode_sent:
  "encode_answer (map_sum (\<lambda>x. x) (\<lambda>x. \<lparr>an_Status = st, an_Body = b x, an_Relay = []\<rparr>) res) =
     map_sum id (\<lambda>x. (st, encode_body (b x))) res"
  "encode_answer (map_sum id (\<lambda>x. \<lparr>an_Status = st, an_Body = b x, an_Relay = []\<rparr>) res) =
     map_sum id (\<lambda>x. (st, encode_body (b x))) res"
  by (cases res; simp add: encode_answer_def)+

lemma encode_get_strip:
  assumes "op_Method (routes p) = ''GET''" "alone (hv_E1 v)"
  shows "encode_answer (fst (api_handle p v ctx (strip_tokens d))) = encode_answer (fst (api_handle p v ctx d))"
proof (cases p)
  case (MemoryOp q)
  then show ?thesis using assms(1)
    by (cases q) (simp_all add: operation_def memoryGet_def memoryList_def reads_strip [OF assms(2)])
next
  case (TaskOp q)
  then show ?thesis using assms(1)
    by (cases q) (simp_all add: operation_def taskGet_def taskList_def reads_strip [OF assms(2)])
next
  case (AgentOp q)
  then show ?thesis using assms(1)
    by (cases q) (simp_all add: operation_def agentGet_def agentList_def agents_strip [OF assms(2)] encode_sent answer_map
        sum.map_comp comp_def encode_list_def)
next
  case (DiscoveryOp q)
  then show ?thesis using assms(1)
    by (cases q) (simp_all add: operation_def discoveryListAgents_def discoveryGetAgent_def discoveryListChannels_def
        discoveryGetChannel_def discoveryListRoles_def discoveryGetRole_def discoveryGetRouting_def
        reads_strip [OF assms(2)] agents_strip [OF assms(2)])
next
  case (ClaimOp q)
  then show ?thesis using assms(1)
    by (cases q) (simp_all add: operation_def claimGet_def claimList_def reads_strip [OF assms(2)])
next
  case (SessionOp q)
  show ?thesis
  proof (cases q)
    case (OpGetSession i)
    then show ?thesis using SessionOp reads_strip(13) [OF assms(2), of i d]
      by (simp add: sessionGet_def case_prod_unfold split: sum.split)
  qed (use SessionOp assms(1) in \<open>simp_all add: operation_def sessionList_def reads_strip [OF assms(2)] split: option.split\<close>)
next
  case (TodoOp q)
  then show ?thesis using assms(1)
    by (cases q) (simp_all add: operation_def todoGet_def todoList_def guard_reply_def reads_strip [OF assms(2)])
qed

text \<open>What of an answer is sent.\<close>

primrec wire :: "served \<Rightarrow> (int \<times> json option option) option" where
  "wire (ApiAnswer a) = Some (an_Status a, encode_body (an_Body a))"
| "wire (UiPage p) = None"
| "wire (Redirect url) = None"

lemma wire_answer:
  "map_sum id wire (map_sum id ApiAnswer res) = map_sum id Some (encode_answer res)"
  by (cases res) (simp_all add: encode_answer_def)

lemma authed_strip:
  assumes "hq_Method r = ''GET''" "follows_routes ro" "\<not> HasPrefix (hq_Path r) ''/ui''" "alone (hv_E1 (rv_handler v))"
  shows "map_sum id wire (fst (authed ro v body r (strip_tokens d))) = map_sum id wire (fst (authed ro v body r d))"
  using assms(1,2) encode_get_strip [OF _ assms(4)] not_ui [OF assms(3)]
  by (auto simp: authed_def follows_routes_def wire_answer split: sum.split)

definition sent_out :: "program \<Rightarrow> request_env \<Rightarrow> http_req \<Rightarrow> goerr + string \<Rightarrow> database \<Rightarrow>
    (string \<times> string) list \<times> (int \<times> json option option) option response" where
  "sent_out pg v r body d = map_prod id (map_response wire) (fst (serve pg v r body d))"

lemma lookup_alone:
  assumes "alone (rv_lookup v)"
  shows "auth_valid token (GetAgent (rv_lookup v)) r d = (fst (auth_valid token (GetAgent (rv_lookup v)) r d), d)"
proof -
  have "snd (GetAgent (rv_lookup v) i d) = d" for i by (simp add: GetAgent_at_def query_alone [OF assms])
  then show ?thesis by (auto simp: auth_valid_def split: prod.split sum.split) (metis snd_conv)+
qed

text \<open>
  C6. Tokens stay secret.  Take two databases that differ in nothing but the tokens of the agents.  A GET
  request outside the pages that is let in by both, or by neither, gets the same response from both:
  status, headers and JSON body say nothing of any token.
\<close>

theorem tokens_stay_secret:
  assumes "hq_Method r = ''GET''" "\<not> HasPrefix (hq_Path r) ''/ui''" "follows_routes (pg_router pg)"
    and "alone (rv_lookup v)" "alone (hv_E1 (rv_handler v))"
    and "strip_tokens d1 = strip_tokens d2" "credential pg v r d1 = credential pg v r d2"
  shows "sent_out pg v r body d1 = sent_out pg v r body d2"
proof -
  let ?tok = "cfg_Token (pg_config pg)" and ?next = "authed (pg_router pg) v body"
  have "map_sum id wire (fst (?next (auth_context r) d)) = map_sum id wire (fst (?next (auth_context r) (strip_tokens d)))" for d
    by (rule authed_strip [symmetric]) (use assms(1-5) in simp_all)
  then have handled: "map_sum id wire (fst (?next (auth_context r) d1)) = map_sum id wire (fst (?next (auth_context r) d2))"
    using assms(6) by metis
  have through: "fst (AuthMiddleware ?tok (GetAgent (rv_lookup v)) ?next r d) =
      (if (?tok \<noteq> [] \<or> bearer_token r \<noteq> []) \<and> \<not> credential pg v r d then Inl unauthorized
       else fst (?next (auth_context r) d))" for d
    by (subst AuthMiddleware_def, subst lookup_alone [OF assms(4)]) (simp add: credential_def)
  have "map_sum id wire (fst (AuthMiddleware ?tok (GetAgent (rv_lookup v)) ?next r d1)) =
      map_sum id wire (fst (AuthMiddleware ?tok (GetAgent (rv_lookup v)) ?next r d2))"
    unfolding through using assms(7) handled by simp
  then show ?thesis using assms(1)
    by (simp add: sent_out_def serve_def versionHeaderMiddleware_def BuildMux_def handleHealth_def handleReady_def
        handleVersion_def healthzHandler_def case_prod_unfold split: option.split)
qed

definition demo_agent_router :: "http_req \<Rightarrow> goerr + string \<Rightarrow> http_error + api_op" where
  "demo_agent_router r body = (if hq_Method r = ''GET'' then Inr (AgentOp (OpGetAgent ''ann'')) else Inl (http_err 404 []))"

theorem tokens_stay_secret_witness:
  "demo_agents \<noteq> strip_tokens demo_agents \<and>
   sent_out (demo_program ''t'' demo_agent_router) (quiet_request 5) (demo_request ''Bearer t'' ''eve'') (Inr []) demo_agents =
   sent_out (demo_program ''t'' demo_agent_router) (quiet_request 5) (demo_request ''Bearer t'' ''eve'') (Inr [])
     (strip_tokens demo_agents)"
proof -
  let ?pg = "demo_program ''t'' demo_agent_router" and ?r = "demo_request ''Bearer t'' ''eve''" and ?v = "quiet_request 5"
  have r: "hq_Method ?r = ''GET''" "\<not> HasPrefix (hq_Path ?r) ''/ui''" "bearer_token ?r = ''t''"
    by (simp_all add: demo_request_def HasPrefix_def bearer_token_def)
  have ro: "follows_routes (pg_router ?pg)"
    by (simp add: follows_routes_def demo_program_def demo_agent_router_def operation_def)
  have alone: "alone (rv_lookup ?v)" "alone (hv_E1 (rv_handler ?v))"
    by (simp_all add: quiet_request_def Let_def alone_def quiet_senv_def)
  have strip: "strip_tokens demo_agents = strip_tokens (strip_tokens demo_agents)"
    by (simp add: strip_tokens_def untoken_def comp_def)
  have tok: "cfg_Token (pg_config ?pg) = ''t''" by (simp add: demo_program_def serve_config_def Let_def)
  have "credential ?pg ?v ?r d" for d by (simp add: credential_def auth_valid_def tok r(3))
  then have cred: "credential ?pg ?v ?r demo_agents = credential ?pg ?v ?r (strip_tokens demo_agents)" by simp
  have "demo_agents \<noteq> strip_tokens demo_agents"
    by (simp add: strip_tokens_def demo_agents_def demo_agent_def untoken_def token_row_def empty_db_def heartbeat_row_def)
  then show ?thesis using tokens_stay_secret [OF r(1,2) ro alone strip cred] by blast
qed

end
