(* ===== verification/Inputs.thy ===== *)
theory Inputs
  imports ReadOnly
begin

text \<open>
  The inputs of the operations as the tags of their structs say (\<^verbatim>\<open>internal/handlers\<close>): which path, query and header
  parameters and which members of the JSON body the framework reads into them, and the validation the tags ask
  for.  A body is decoded as \<^verbatim>\<open>encoding/json\<close> does; the text of JSON, the parameters of a URL and the choice of the
  operation are the router's, which \<open>huma_router\<close> states what is relied on.
\<close>

section \<open>The parts of a request\<close>

record request_parts =
  pt_path :: "string \<Rightarrow> string"
  pt_query :: "string \<Rightarrow> string"
  pt_header :: "string \<Rightarrow> string"
  pt_body :: "json option"

definition agent_header :: "request_parts \<Rightarrow> string" where
  "agent_header P = pt_header P ''X-Agent-ID''"

definition query_int :: "request_parts \<Rightarrow> string \<Rightarrow> int option" where
  "query_int P k = (if pt_query P k = [] then Some 0 else Atoi (pt_query P k))"

text \<open>The body into a struct; a member of it with the decoder of its type; a pointer to a string.\<close>

definition read_body :: "((string \<times> json) list \<Rightarrow> 'a option) \<Rightarrow> request_parts \<Rightarrow> 'a option" where
  "read_body f P = do { j \<leftarrow> pt_body P; unmarshal_struct f j }"

definition get_with :: "(json \<Rightarrow> 'a option) \<Rightarrow> string \<Rightarrow> (string \<times> json) list \<Rightarrow> 'a option" where
  "get_with f k kvs = (case map_of kvs k of None \<Rightarrow> f JNull | Some j \<Rightarrow> f j)"

definition get_pointer :: "string \<Rightarrow> (string \<times> json) list \<Rightarrow> string option option" where
  "get_pointer k kvs = (case map_of kvs k of None \<Rightarrow> Some None | Some JNull \<Rightarrow> Some None
     | Some j \<Rightarrow> map_option Some (json_string j))"

text \<open>Members without \<^verbatim>\<open>omitempty\<close> are required.\<close>

definition required :: "string list \<Rightarrow> request_parts \<Rightarrow> bool" where
  "required ks P \<longleftrightarrow> (case pt_body P of Some (JObj kvs) \<Rightarrow> list_all (\<lambda>k. k \<in> fst ` set kvs) ks | _ \<Rightarrow> False)"

section \<open>Inputs by their tags\<close>

definition read_memoryUpsert :: "request_parts \<Rightarrow> memoryUpsertInput option" where
  "read_memoryUpsert P = read_body (\<lambda>b. do {
     key \<leftarrow> get_str ''key'' b; value \<leftarrow> get_str ''value'' b; tags \<leftarrow> get_with unmarshal_strs ''tags'' b;
     version \<leftarrow> get_int ''version'' b;
     Some \<lparr>mui_XAgentID = agent_header P, mui_Key = key, mui_Value = value, mui_Tags = tags, mui_Version = version\<rparr> }) P"

definition read_memoryList :: "request_parts \<Rightarrow> MemoryFilter option" where
  "read_memoryList P = do { limit \<leftarrow> query_int P ''limit''; offset \<leftarrow> query_int P ''offset'';
     Some \<lparr>mf_Tag = pt_query P ''tag'', mf_Agent = pt_query P ''agent'', mf_Prefix = pt_query P ''prefix'',
       mf_SessionKey = pt_query P ''session_key'', mf_Limit = limit, mf_Offset = offset\<rparr> }"

definition read_taskCreate :: "request_parts \<Rightarrow> taskCreateInput option" where
  "read_taskCreate P = read_body (\<lambda>b. do {
     title \<leftarrow> get_str ''title'' b; description \<leftarrow> get_str ''description'' b; priority \<leftarrow> get_int ''priority'' b;
     tags \<leftarrow> get_with unmarshal_strs ''tags'' b;
     Some \<lparr>tkc_XAgentID = agent_header P, tkc_Title = title, tkc_Description = description, tkc_Priority = priority,
       tkc_Tags = tags\<rparr> }) P"

definition read_taskList :: "request_parts \<Rightarrow> TaskFilter option" where
  "read_taskList P = do { limit \<leftarrow> query_int P ''limit''; offset \<leftarrow> query_int P ''offset'';
     Some \<lparr>tf_Status = pt_query P ''status'', tf_Assignee = pt_query P ''assignee'', tf_Creator = pt_query P ''creator'',
       tf_SessionKey = pt_query P ''session_key'', tf_Limit = limit, tf_Offset = offset\<rparr> }"

definition read_taskUpdate :: "request_parts \<Rightarrow> taskUpdateInput option" where
  "read_taskUpdate P = read_body (\<lambda>b. do {
     status \<leftarrow> get_pointer ''status'' b; assignee \<leftarrow> get_pointer ''assignee'' b; note \<leftarrow> get_pointer ''note'' b;
     Some \<lparr>tku_ID = pt_path P ''id'', tku_XAgentID = agent_header P, tku_Status = status, tku_Assignee = assignee,
       tku_Note = note\<rparr> }) P"

definition read_heartbeat :: "request_parts \<Rightarrow> agentHeartbeatInput option" where
  "read_heartbeat P = read_body (\<lambda>b. do {
     caps \<leftarrow> get_with unmarshal_strs ''capabilities'' b; status \<leftarrow> get_str ''status'' b; activity \<leftarrow> get_str ''activity'' b;
     lv \<leftarrow> get_str ''hive_local_version'' b; pv \<leftarrow> get_str ''hive_plugin_version'' b;
     Some \<lparr>hbi_ID = pt_path P ''id'', hbi_Capabilities = caps, hbi_Status = status, hbi_Activity = activity,
       hbi_HiveLocalVersion = lv, hbi_HivePluginVersion = pv\<rparr> }) P"

definition read_usage :: "request_parts \<Rightarrow> UsageReport option" where
  "read_usage P = read_body (\<lambda>b. do {
     m \<leftarrow> get_str ''model'' b; i \<leftarrow> get_int ''inputTokens'' b; out \<leftarrow> get_int ''outputTokens'' b;
     cr \<leftarrow> get_int ''cacheReadTokens'' b; cw \<leftarrow> get_int ''cacheWriteTokens'' b; tot \<leftarrow> get_int ''totalTokens'' b;
     cost \<leftarrow> get_num ''estimatedCostUsd'' b; sess \<leftarrow> get_str ''sessionId'' b; ts \<leftarrow> get_str ''timestamp'' b;
     Some \<lparr>ur_Model = m, ur_InputTokens = i, ur_OutputTokens = out, ur_CacheReadTokens = cr, ur_CacheWriteTokens = cw,
       ur_TotalTokens = tot, ur_EstimatedCostUsd = cost, ur_SessionID = sess, ur_Timestamp = ts\<rparr> }) P"

definition read_agentMeta :: "request_parts \<Rightarrow> DiscoveryAgentMeta option" where
  "read_agentMeta P = read_body (\<lambda>b. do {
     user \<leftarrow> get_str ''discord_user_id'' b; home \<leftarrow> get_str ''home_channel'' b; mention \<leftarrow> get_str ''mention_format'' b;
     chans \<leftarrow> get_with unmarshal_strs ''channels'' b;
     Some \<lparr>dm_DiscordUserID = user, dm_HomeChannel = home, dm_MentionFormat = mention, dm_Channels = chans\<rparr> }) P"

definition read_channelBody :: "request_parts \<Rightarrow> discoveryChannelBody option" where
  "read_channelBody P = read_body (\<lambda>b. do {
     n \<leftarrow> get_str ''name'' b; discord \<leftarrow> get_str ''discord_id'' b; purpose \<leftarrow> get_str ''purpose'' b;
     cat \<leftarrow> get_str ''category'' b; mem \<leftarrow> get_with unmarshal_strs ''members'' b;
     Some \<lparr>dcb_Name = n, dcb_DiscordID = discord, dcb_Purpose = purpose, dcb_Category = cat, dcb_Members = mem\<rparr> }) P"

definition read_roleBody :: "request_parts \<Rightarrow> discoveryRoleBody option" where
  "read_roleBody P = read_body (\<lambda>b. do {
     n \<leftarrow> get_str ''name'' b; discord \<leftarrow> get_str ''discord_id'' b; mem \<leftarrow> get_with unmarshal_strs ''members'' b;
     Some \<lparr>drb_Name = n, drb_DiscordID = discord, drb_Members = mem\<rparr> }) P"

definition read_claimCreate :: "request_parts \<Rightarrow> claimCreateInput option" where
  "read_claimCreate P = read_body (\<lambda>b. do {
     t \<leftarrow> get_str ''type'' b; resource \<leftarrow> get_str ''resource'' b; expires \<leftarrow> get_str ''expires_in'' b;
     meta \<leftarrow> get_with unmarshal_map ''metadata'' b;
     Some \<lparr>cci_XAgentID = agent_header P, cci_Type = t, cci_Resource = resource, cci_ExpiresIn = expires,
       cci_Metadata = meta\<rparr> }) P"

definition read_claimList :: "request_parts \<Rightarrow> ClaimFilter option" where
  "read_claimList P = do { limit \<leftarrow> query_int P ''limit''; offset \<leftarrow> query_int P ''offset'';
     Some \<lparr>cf_Type = pt_query P ''type'', cf_AgentID = pt_query P ''agent_id'', cf_Resource = pt_query P ''resource'',
       cf_Status = pt_query P ''status'', cf_SessionKey = pt_query P ''session_key'', cf_Limit = limit,
       cf_Offset = offset\<rparr> }"

definition read_claimRelease :: "request_parts \<Rightarrow> claimReleaseInput" where
  "read_claimRelease P = \<lparr>cri_XAgentID = agent_header P, cri_ID = pt_path P ''id''\<rparr>"

definition read_claimRenew :: "request_parts \<Rightarrow> claimRenewInput option" where
  "read_claimRenew P = read_body (\<lambda>b. do {
     expires \<leftarrow> get_str ''expires_in'' b;
     Some \<lparr>cni_XAgentID = agent_header P, cni_ID = pt_path P ''id'', cni_ExpiresIn = expires\<rparr> }) P"

definition read_todoCreate :: "request_parts \<Rightarrow> todoCreateInput option" where
  "read_todoCreate P = read_body (\<lambda>b. do {
     title \<leftarrow> get_str ''title'' b; parent \<leftarrow> get_str ''parent_task'' b; cont \<leftarrow> get_str ''context'' b;
     order \<leftarrow> get_int ''sort_order'' b;
     Some \<lparr>tdc_XAgentID = agent_header P, tdc_Title = title, tdc_ParentTask = parent, tdc_Context = cont,
       tdc_SortOrder = order\<rparr> }) P"

definition read_todoList :: "request_parts \<Rightarrow> todoListInput option" where
  "read_todoList P = do { limit \<leftarrow> query_int P ''limit''; offset \<leftarrow> query_int P ''offset'';
     Some \<lparr>tdl_XAgentID = agent_header P, tdl_Status = pt_query P ''status'', tdl_Limit = limit, tdl_Offset = offset\<rparr> }"

definition read_todoUpdate :: "request_parts \<Rightarrow> todoUpdateInput option" where
  "read_todoUpdate P = read_body (\<lambda>b. do {
     title \<leftarrow> get_pointer ''title'' b; status \<leftarrow> get_pointer ''status'' b; cont \<leftarrow> get_pointer ''context'' b;
     Some \<lparr>tdu_ID = pt_path P ''id'', tdu_XAgentID = agent_header P, tdu_Title = title, tdu_Status = status,
       tdu_Context = cont\<rparr> }) P"

definition read_todoDelete :: "request_parts \<Rightarrow> todoDeleteInput" where
  "read_todoDelete P = \<lparr>tdd_ID = pt_path P ''id'', tdd_XAgentID = agent_header P\<rparr>"

definition read_todoReorder :: "request_parts \<Rightarrow> todoReorderInput option" where
  "read_todoReorder P = read_body (\<lambda>b. do {
     ids \<leftarrow> get_with unmarshal_strs ''ids'' b;
     Some \<lparr>tdr_XAgentID = agent_header P, tdr_IDs = elems ids\<rparr> }) P"

definition read_sessionList :: "request_parts \<Rightarrow> sessionListInput option" where
  "read_sessionList P = do { limit \<leftarrow> query_int P ''limit'';
     Some \<lparr>sli_AgentID = pt_query P ''agent_id'', sli_Repo = pt_query P ''repo'', sli_Path = pt_query P ''path'',
       sli_Since = pt_query P ''since'', sli_Limit = limit\<rparr> }"

definition get_moment :: "string \<Rightarrow> (string \<times> json) list \<Rightarrow> gotime option" where
  "get_moment k kvs = map_option (\<lambda>t. case t of None \<Rightarrow> zero_time | Some t \<Rightarrow> t) (get_time k kvs)"

definition decode_session :: "(string \<times> json) list \<Rightarrow> CapturedSession option" where
  "decode_session b = do {
     i \<leftarrow> get_str ''id'' b; agent \<leftarrow> get_str ''agent_id'' b; key \<leftarrow> get_str ''session_key'' b;
     sid \<leftarrow> get_str ''session_id'' b; chan \<leftarrow> get_str ''channel'' b; sender \<leftarrow> get_str ''sender_id'' b;
     m \<leftarrow> get_str ''model'' b; prov \<leftarrow> get_str ''provider'' b; started \<leftarrow> get_time ''started_at'' b;
     finished \<leftarrow> get_time ''finished_at'' b; usage \<leftarrow> get_usage b; repo \<leftarrow> get_str ''repo'' b;
     paths \<leftarrow> get_with unmarshal_strs ''paths'' b; summary \<leftarrow> get_str ''summary'' b;
     turns \<leftarrow> get_with (unmarshal_slice unmarshal_turn) ''turns'' b;
     calls \<leftarrow> get_with (unmarshal_slice unmarshal_toolcall) ''tool_calls'' b;
     meta \<leftarrow> get_with unmarshal_any_map ''metadata'' b; parent \<leftarrow> get_str ''parent_session_id'' b;
     created \<leftarrow> get_moment ''created_at'' b;
     Some \<lparr>cs_ID = i, cs_AgentID = agent, cs_SessionKey = key, cs_SessionID = sid, cs_Channel = chan, cs_SenderID = sender,
       cs_Model = m, cs_Provider = prov, cs_StartedAt = started, cs_FinishedAt = finished, cs_Usage = usage, cs_Repo = repo,
       cs_Paths = paths, cs_Summary = summary, cs_Turns = turns, cs_ToolCalls = calls, cs_Metadata = meta,
       cs_ParentSessionID = parent, cs_CreatedAt = created\<rparr> }"

text \<open>The body of a session is a pointer: it may be missing.\<close>

definition read_session :: "request_parts \<Rightarrow> CapturedSession option option" where
  "read_session P = (case pt_body P of None \<Rightarrow> Some None | Some JNull \<Rightarrow> Some None
     | Some j \<Rightarrow> map_option Some (unmarshal_struct decode_session j))"

section \<open>What an operation has read\<close>

primrec reads_memory :: "request_parts \<Rightarrow> memory_op \<Rightarrow> bool" where
  "reads_memory P (OpUpsertMemory inp) \<longleftrightarrow> read_memoryUpsert P = Some inp"
| "reads_memory P (OpListMemory f) \<longleftrightarrow> read_memoryList P = Some f"
| "reads_memory P (OpGetMemory k) \<longleftrightarrow> k = pt_path P ''key''"
| "reads_memory P (OpDeleteMemory k) \<longleftrightarrow> k = pt_path P ''key''"

primrec reads_task :: "request_parts \<Rightarrow> task_op \<Rightarrow> bool" where
  "reads_task P (OpCreateTask inp) \<longleftrightarrow> read_taskCreate P = Some inp"
| "reads_task P (OpListTasks f) \<longleftrightarrow> read_taskList P = Some f"
| "reads_task P (OpGetTask i) \<longleftrightarrow> i = pt_path P ''id''"
| "reads_task P (OpUpdateTask inp) \<longleftrightarrow> read_taskUpdate P = Some inp"
| "reads_task P (OpDeleteTask i) \<longleftrightarrow> i = pt_path P ''id''"

primrec reads_agent :: "request_parts \<Rightarrow> agent_op \<Rightarrow> bool" where
  "reads_agent P (OpHeartbeat inp) \<longleftrightarrow> read_heartbeat P = Some inp"
| "reads_agent P OpListAgents \<longleftrightarrow> True"
| "reads_agent P (OpGetAgent i) \<longleftrightarrow> i = pt_path P ''id''"
| "reads_agent P (OpUsage i u) \<longleftrightarrow> i = pt_path P ''id'' \<and> read_usage P = Some u"
| "reads_agent P (OpOnboard i) \<longleftrightarrow> i = pt_path P ''id''"

primrec reads_discovery :: "request_parts \<Rightarrow> discovery_op \<Rightarrow> bool" where
  "reads_discovery P OpDiscoveryAgents \<longleftrightarrow> True"
| "reads_discovery P (OpDiscoveryAgent i) \<longleftrightarrow> i = pt_path P ''id''"
| "reads_discovery P (OpPutAgentMeta i m) \<longleftrightarrow> i = pt_path P ''id'' \<and> read_agentMeta P = Some m"
| "reads_discovery P OpChannels \<longleftrightarrow> True"
| "reads_discovery P (OpChannel i) \<longleftrightarrow> i = pt_path P ''id''"
| "reads_discovery P (OpPutChannel i b) \<longleftrightarrow> i = pt_path P ''id'' \<and> read_channelBody P = Some b"
| "reads_discovery P OpRoles \<longleftrightarrow> True"
| "reads_discovery P (OpRole i) \<longleftrightarrow> i = pt_path P ''id''"
| "reads_discovery P (OpPutRole i b) \<longleftrightarrow> i = pt_path P ''id'' \<and> read_roleBody P = Some b"
| "reads_discovery P (OpRouting i) \<longleftrightarrow> i = pt_path P ''agent_id''"

primrec reads_claim :: "request_parts \<Rightarrow> claim_op \<Rightarrow> bool" where
  "reads_claim P (OpCreateClaim inp) \<longleftrightarrow> read_claimCreate P = Some inp"
| "reads_claim P (OpListClaims f) \<longleftrightarrow> read_claimList P = Some f"
| "reads_claim P (OpGetClaim i) \<longleftrightarrow> i = pt_path P ''id''"
| "reads_claim P (OpReleaseClaim inp) \<longleftrightarrow> inp = read_claimRelease P"
| "reads_claim P (OpRenewClaim inp) \<longleftrightarrow> read_claimRenew P = Some inp"

primrec reads_session :: "request_parts \<Rightarrow> session_op \<Rightarrow> bool" where
  "reads_session P (OpCreateSession agent b) \<longleftrightarrow> agent = agent_header P \<and> read_session P = Some b"
| "reads_session P (OpGetSession i) \<longleftrightarrow> i = pt_path P ''id''"
| "reads_session P (OpListSessions inp) \<longleftrightarrow> read_sessionList P = Some inp"

primrec reads_todo :: "request_parts \<Rightarrow> todo_op \<Rightarrow> bool" where
  "reads_todo P (OpCreateTodo inp) \<longleftrightarrow> read_todoCreate P = Some inp"
| "reads_todo P (OpListTodos inp) \<longleftrightarrow> read_todoList P = Some inp"
| "reads_todo P (OpGetTodo i) \<longleftrightarrow> i = pt_path P ''id''"
| "reads_todo P (OpUpdateTodo inp) \<longleftrightarrow> read_todoUpdate P = Some inp"
| "reads_todo P (OpDeleteTodo inp) \<longleftrightarrow> inp = read_todoDelete P"
| "reads_todo P (OpPruneDone agent) \<longleftrightarrow> agent = agent_header P"
| "reads_todo P (OpReorder inp) \<longleftrightarrow> read_todoReorder P = Some inp"

primrec reads :: "request_parts \<Rightarrow> api_op \<Rightarrow> bool" where
  "reads P (MemoryOp p) \<longleftrightarrow> reads_memory P p"
| "reads P (TaskOp p) \<longleftrightarrow> reads_task P p"
| "reads P (AgentOp p) \<longleftrightarrow> reads_agent P p"
| "reads P (DiscoveryOp p) \<longleftrightarrow> reads_discovery P p"
| "reads P (ClaimOp p) \<longleftrightarrow> reads_claim P p"
| "reads P (SessionOp p) \<longleftrightarrow> reads_session P p"
| "reads P (TodoOp p) \<longleftrightarrow> reads_todo P p"

section \<open>Validation\<close>

text \<open>The tags \<^verbatim>\<open>minLength\<close>, \<^verbatim>\<open>minItems\<close>, \<^verbatim>\<open>minimum\<close> and \<^verbatim>\<open>enum\<close>, and the required members.\<close>

definition claim_types :: "ClaimType list" where
  "claim_types = [ClaimTypeIssue, ClaimTypeReview, ClaimTypeConch]"

primrec valid_memory :: "request_parts \<Rightarrow> memory_op \<Rightarrow> bool" where
  "valid_memory P (OpUpsertMemory inp) \<longleftrightarrow> required [''key'', ''value''] P \<and> mui_Key inp \<noteq> [] \<and> mui_Value inp \<noteq> []"
| "valid_memory P (OpListMemory f) \<longleftrightarrow> 0 \<le> mf_Limit f \<and> 0 \<le> mf_Offset f"
| "valid_memory P (OpGetMemory k) \<longleftrightarrow> True"
| "valid_memory P (OpDeleteMemory k) \<longleftrightarrow> True"

primrec valid_task :: "request_parts \<Rightarrow> task_op \<Rightarrow> bool" where
  "valid_task P (OpCreateTask inp) \<longleftrightarrow> required [''title''] P \<and> tkc_Title inp \<noteq> []"
| "valid_task P (OpListTasks f) \<longleftrightarrow> 0 \<le> tf_Limit f \<and> 0 \<le> tf_Offset f"
| "valid_task P (OpGetTask i) \<longleftrightarrow> True"
| "valid_task P (OpUpdateTask inp) \<longleftrightarrow> True"
| "valid_task P (OpDeleteTask i) \<longleftrightarrow> True"

primrec valid_agent :: "request_parts \<Rightarrow> agent_op \<Rightarrow> bool" where
  "valid_agent P (OpHeartbeat inp) \<longleftrightarrow> True"
| "valid_agent P OpListAgents \<longleftrightarrow> True"
| "valid_agent P (OpGetAgent i) \<longleftrightarrow> True"
| "valid_agent P (OpUsage i u) \<longleftrightarrow> required [''model'', ''inputTokens'', ''outputTokens'', ''cacheReadTokens'',
     ''cacheWriteTokens'', ''totalTokens'', ''estimatedCostUsd'', ''sessionId'', ''timestamp''] P"
| "valid_agent P (OpOnboard i) \<longleftrightarrow> True"

primrec valid_discovery :: "request_parts \<Rightarrow> discovery_op \<Rightarrow> bool" where
  "valid_discovery P OpDiscoveryAgents \<longleftrightarrow> True"
| "valid_discovery P (OpDiscoveryAgent i) \<longleftrightarrow> True"
| "valid_discovery P (OpPutAgentMeta i m) \<longleftrightarrow> True"
| "valid_discovery P OpChannels \<longleftrightarrow> True"
| "valid_discovery P (OpChannel i) \<longleftrightarrow> True"
| "valid_discovery P (OpPutChannel i b) \<longleftrightarrow> required [''name''] P"
| "valid_discovery P OpRoles \<longleftrightarrow> True"
| "valid_discovery P (OpRole i) \<longleftrightarrow> True"
| "valid_discovery P (OpPutRole i b) \<longleftrightarrow> required [''name''] P"
| "valid_discovery P (OpRouting i) \<longleftrightarrow> True"

primrec valid_claim :: "request_parts \<Rightarrow> claim_op \<Rightarrow> bool" where
  "valid_claim P (OpCreateClaim inp) \<longleftrightarrow>
     required [''type'', ''resource''] P \<and> cci_Type inp \<in> set claim_types \<and> cci_Resource inp \<noteq> []"
| "valid_claim P (OpListClaims f) \<longleftrightarrow> 0 \<le> cf_Limit f \<and> 0 \<le> cf_Offset f"
| "valid_claim P (OpGetClaim i) \<longleftrightarrow> True"
| "valid_claim P (OpReleaseClaim inp) \<longleftrightarrow> True"
| "valid_claim P (OpRenewClaim inp) \<longleftrightarrow> True"

primrec valid_session :: "request_parts \<Rightarrow> session_op \<Rightarrow> bool" where
  "valid_session P (OpCreateSession agent b) \<longleftrightarrow> b \<noteq> None \<longrightarrow> required [''agent_id''] P"
| "valid_session P (OpGetSession i) \<longleftrightarrow> True"
| "valid_session P (OpListSessions inp) \<longleftrightarrow> True"

primrec valid_todo :: "request_parts \<Rightarrow> todo_op \<Rightarrow> bool" where
  "valid_todo P (OpCreateTodo inp) \<longleftrightarrow> required [''title''] P \<and> tdc_Title inp \<noteq> []"
| "valid_todo P (OpListTodos inp) \<longleftrightarrow> 0 \<le> tdl_Limit inp \<and> 0 \<le> tdl_Offset inp"
| "valid_todo P (OpGetTodo i) \<longleftrightarrow> True"
| "valid_todo P (OpUpdateTodo inp) \<longleftrightarrow> True"
| "valid_todo P (OpDeleteTodo inp) \<longleftrightarrow> True"
| "valid_todo P (OpPruneDone agent) \<longleftrightarrow> True"
| "valid_todo P (OpReorder inp) \<longleftrightarrow> required [''ids''] P \<and> tdr_IDs inp \<noteq> []"

primrec valid :: "request_parts \<Rightarrow> api_op \<Rightarrow> bool" where
  "valid P (MemoryOp p) \<longleftrightarrow> valid_memory P p"
| "valid P (TaskOp p) \<longleftrightarrow> valid_task P p"
| "valid P (AgentOp p) \<longleftrightarrow> valid_agent P p"
| "valid P (DiscoveryOp p) \<longleftrightarrow> valid_discovery P p"
| "valid P (ClaimOp p) \<longleftrightarrow> valid_claim P p"
| "valid P (SessionOp p) \<longleftrightarrow> valid_session P p"
| "valid P (TodoOp p) \<longleftrightarrow> valid_todo P p"

text \<open>
  What the server relies on the framework for: an operation is chosen for requests with its method only, its
  input is read from the headers and the body of the request as the tags say (path and query parameters are
  whatever the router finds in the URL), and it is valid.
\<close>

definition huma_router :: "(string \<Rightarrow> json option) \<Rightarrow> router \<Rightarrow> bool" where
  "huma_router decode ro \<longleftrightarrow> (\<forall>r body p. ro_api ro r body = Inr p \<longrightarrow> op_Method (routes p) = hq_Method r \<and>
     (\<exists>P. pt_header P = hq_Header r \<and> pt_body P = (case body of Inl e \<Rightarrow> None | Inr s \<Rightarrow> decode s) \<and>
       reads P p \<and> valid P p))"

lemma huma_router_follows: "huma_router decode ro \<Longrightarrow> follows_routes ro"
  by (simp add: huma_router_def follows_routes_def)

text \<open>The agent an input names is the agent of the header.\<close>

lemma reads_agent_header:
  "reads_claim P (OpReleaseClaim ri) \<Longrightarrow> cri_XAgentID ri = agent_header P"
  "reads_claim P (OpRenewClaim ni) \<Longrightarrow> cni_XAgentID ni = agent_header P"
  "reads_todo P (OpUpdateTodo ui) \<Longrightarrow> tdu_XAgentID ui = agent_header P"
  "reads_todo P (OpDeleteTodo di) \<Longrightarrow> tdd_XAgentID di = agent_header P"
  "reads_todo P (OpReorder oi) \<Longrightarrow> tdr_XAgentID oi = agent_header P"
  by (auto simp: read_claimRelease_def read_claimRenew_def read_todoUpdate_def read_todoDelete_def read_todoReorder_def
      read_body_def elim!: unmarshal_struct.elims split: bind_splits)

text \<open>A new todo needs a title, but an update may blank it and set any status: the members of the PATCH carry no tags.\<close>

lemma todo_update_unchecked:
  "\<exists>P inp. reads P (TodoOp (OpUpdateTodo inp)) \<and> valid P (TodoOp (OpUpdateTodo inp)) \<and> tdu_Title inp = Some [] \<and>
     tdu_Status inp = Some ''whatever''"
proof -
  let ?P = "\<lparr>pt_path = (\<lambda>_. ''1''), pt_query = (\<lambda>_. []), pt_header = (\<lambda>_. ''ann''),
      pt_body = Some (JObj [(''title'', JStr []), (''status'', JStr ''whatever'')])\<rparr>"
  show ?thesis
    by (intro exI [of _ ?P] exI [of _ "\<lparr>tdu_ID = ''1'', tdu_XAgentID = ''ann'', tdu_Title = Some [], tdu_Status = Some ''whatever'',
        tdu_Context = None\<rparr>"])
      (simp add: read_todoUpdate_def read_body_def get_pointer_def agent_header_def)
qed

section \<open>The pages and the API\<close>






end
