(* ===== verification/Confinement.thy ===== *)
theory Confinement
  imports Inputs
begin

text \<open>
  What a request can do to the claims and todos of another agent: the locales of the store and of the layers
  above it, with the calls limited to those that spare a row, and from them the whole server.
\<close>

section \<open>A row stays as it is\<close>

text \<open>The one row with its key.\<close>

definition sole :: "('db, 'r) table_ref \<Rightarrow> 'r \<Rightarrow> 'db \<Rightarrow> bool" where
  "sole T r d \<longleftrightarrow> filter (\<lambda>x. t_key T x = t_key T r) (t_rows T d) = [r]"

context sql_table
begin

lemma sole_mem: "sole T r d \<Longrightarrow> r \<in> set (t_rows T d)"
  unfolding sole_def by (drule arg_cong [of _ _ set]) auto

lemma sole_insert: "sole T r d \<Longrightarrow> sole T r (snd (sql_insert T x d))"
proof -
  assume r: "sole T r d"
  have "may_insert T x d \<Longrightarrow> t_key T x \<noteq> t_key T r" using sole_mem [OF r] by (auto simp: may_insert_def)
  then show ?thesis using r by (auto simp: sole_def sql_insert_def rows_put)
qed

lemma sole_update:
  assumes "sole T r d" "\<not> P r" "\<And>x. t_key T (f x) = t_key T x"
  shows "sole T r (snd (sql_update T P f d))"
proof -
  let ?g = "\<lambda>x. if P x then f x else x"
  have "filter (\<lambda>x. t_key T x = t_key T r) (map ?g (t_rows T d)) =
      map ?g (filter (\<lambda>x. t_key T x = t_key T r) (t_rows T d))"
    using assms(3) by (simp add: filter_map comp_def if_distrib [of "t_key T"])
  also have "... = [r]" using assms(1,2) by (simp add: sole_def)
  finally show ?thesis by (simp add: sole_def sql_update_def rows_put)
qed

lemma sole_delete:
  assumes "sole T r d" "\<not> P r"
  shows "sole T r (snd (sql_delete T P d))"
proof -
  let ?K = "\<lambda>x. t_key T x = t_key T r"
  have "filter ?K (filter (\<lambda>x. \<not> P x) (t_rows T d)) = filter (\<lambda>x. \<not> P x) (filter ?K (t_rows T d))"
    by (simp add: conj_commute)
  also have "... = [r]" using assms by (simp add: sole_def del: filter_filter)
  finally show ?thesis by (simp add: sole_def sql_delete_def rows_put del: filter_filter)
qed

lemma sole_deleted: "sole T r (snd (sql_delete T (\<lambda>x. t_key T x = k) d)) \<Longrightarrow> sole T r d"
proof -
  assume r: "sole T r (snd (sql_delete T (\<lambda>x. t_key T x = k) d))"
  then have eq: "filter (\<lambda>x. t_key T x \<noteq> k \<and> t_key T x = t_key T r) (t_rows T d) = [r]"
    by (simp add: sole_def sql_delete_def rows_put)
  then have "t_key T r \<noteq> k" using arg_cong [OF eq, of set] by auto
  then have "filter (\<lambda>x. t_key T x \<noteq> k \<and> t_key T x = t_key T r) (t_rows T d) = filter (\<lambda>x. t_key T x = t_key T r) (t_rows T d)"
    by (intro filter_cong) auto
  then show "sole T r d" using eq by (simp add: sole_def)
qed
lemma sole_row_at: "sole T r d \<Longrightarrow> row_at T (t_key T r) d = Some r"
proof -
  have "filter Q xs = [r] \<Longrightarrow> List.find Q xs = Some r" for Q xs by (induction xs) (auto split: if_splits)
  then show "sole T r d \<Longrightarrow> ?thesis" by (simp add: sole_def row_at_def)
qed

end

section \<open>Claims and todos an agent holds\<close>

datatype holding = HeldClaim claim_row | HeldTodo todo_row

primrec held :: "holding \<Rightarrow> database \<Rightarrow> bool" where
  "held (HeldClaim c) = sole claims_t c"
| "held (HeldTodo t) = sole todos_t t"

primrec held_by :: "holding \<Rightarrow> string" where
  "held_by (HeldClaim c) = c_agent_id c"
| "held_by (HeldTodo t) = d_agent_id t"

text \<open>The calls that leave a claim, or a todo, alone.\<close>

primrec claim_call_spares :: "string \<Rightarrow> claim_call \<Rightarrow> bool" where
  "claim_call_spares i (CallCreateClaim c) = True"
| "claim_call_spares i (CallEnqueueClaim w) = True"
| "claim_call_spares i (CallGetClaim j) = True"
| "claim_call_spares i (CallListClaims f) = True"
| "claim_call_spares i (CallReleaseClaim j) = (j \<noteq> i)"
| "claim_call_spares i (CallRenewClaim j t) = (j \<noteq> i)"
| "claim_call_spares i CallExpireOldClaims = False"
| "claim_call_spares i (CallQueueDepth r) = True"

primrec todo_call_spares :: "todo_row \<Rightarrow> todo_call \<Rightarrow> bool" where
  "todo_call_spares t (CallCreateTodo x) = True"
| "todo_call_spares t (CallGetTodo j) = True"
| "todo_call_spares t (CallListTodos f) = True"
| "todo_call_spares t (CallUpdateTodo j u) = (j \<noteq> d_id t)"
| "todo_call_spares t (CallDeleteTodo j) = (j \<noteq> d_id t)"
| "todo_call_spares t (CallPruneDoneTodos a age) = (a \<noteq> [] \<and> a \<noteq> d_agent_id t)"
| "todo_call_spares t (CallReorderTodos a ids) = (a \<noteq> d_agent_id t)"

definition spares :: "holding \<Rightarrow> store_call \<Rightarrow> bool" where
  "spares h call = (case call of
       OnClaims c \<Rightarrow> (case h of HeldClaim x \<Rightarrow> claim_call_spares (c_id x) c | HeldTodo t \<Rightarrow> True)
     | OnTodos c \<Rightarrow> (case h of HeldClaim x \<Rightarrow> True | HeldTodo t \<Rightarrow> todo_call_spares t c)
     | _ \<Rightarrow> True)"

lemma claim_kept_bodies:
  "tx_body (CreateClaim_tx c now) (sole claims_t x)" "j \<noteq> c_id x \<Longrightarrow> tx_body (ReleaseClaim_tx j) (sole claims_t x)"
  "j \<noteq> c_id x \<Longrightarrow> tx_body (RenewClaim_tx j e) (sole claims_t x)"
proof -
  have q: "sole claims_t x (t_put claim_queue_t t d) = sole claims_t x d" for t d by (simp add: sole_def)
  note pop = queue_frame(2,3) [of "sole claims_t x", OF q]
  show "tx_body (CreateClaim_tx c now) (sole claims_t x)"
    by (rule tx_bodyI, unfold CreateClaim_tx_def, intro tx_pres) (rule claims.sole_insert)
  show "tx_body (ReleaseClaim_tx j) (sole claims_t x)" if "j \<noteq> c_id x"
    by (rule tx_bodyI, unfold ReleaseClaim_tx_def Let_def, intro tx_pres pop)
      (use that in \<open>simp_all add: claims.sole_insert claims.sole_update sql_select_def\<close>)
  show "tx_body (RenewClaim_tx j e) (sole claims_t x)" if "j \<noteq> c_id x"
    by (rule tx_bodyI, unfold RenewClaim_tx_def Let_def, intro tx_pres) (use that in \<open>simp_all add: claims.sole_update\<close>)
qed

lemma todo_kept_bodies:
  "tx_body (CreateTodo_tx r) (sole todos_t x)" "j \<noteq> d_id x \<Longrightarrow> tx_body (UpdateTodo_tx j upd) (sole todos_t x)"
  "j \<noteq> d_id x \<Longrightarrow> tx_body (DeleteTodo_tx j) (sole todos_t x)"
  "a \<noteq> [] \<Longrightarrow> a \<noteq> d_agent_id x \<Longrightarrow> tx_body (PruneDoneTodos_tx a cutoff) (sole todos_t x)"
  "a \<noteq> d_agent_id x \<Longrightarrow> tx_body (ReorderTodos_tx a ids) (sole todos_t x)"
proof -
  show "tx_body (CreateTodo_tx r) (sole todos_t x)"
    by (rule tx_bodyI, unfold CreateTodo_tx_def, intro tx_pres) (rule todos.sole_insert)
  show "tx_body (UpdateTodo_tx j upd) (sole todos_t x)" "tx_body (DeleteTodo_tx j) (sole todos_t x)" if "j \<noteq> d_id x"
    by ((rule tx_bodyI, unfold UpdateTodo_tx_def DeleteTodo_tx_def todo_set_field_def, intro tx_pres);
      use that in \<open>simp add: todos.sole_update todos.sole_delete sql_select_def\<close>)+
  show "tx_body (PruneDoneTodos_tx a cutoff) (sole todos_t x)" if "a \<noteq> []" "a \<noteq> d_agent_id x"
    by (rule tx_bodyI, unfold PruneDoneTodos_tx_def, intro tx_pres)
      (use that in \<open>auto simp: prunable_def intro!: todos.sole_delete\<close>)
  have "preserves (sole todos_t x) (reorder_each a now A k ids)" if "a \<noteq> d_agent_id x" for now A k
    using that by (induction ids arbitrary: k) (auto intro!: tx_pres todos.sole_update)
  then show "tx_body (ReorderTodos_tx a ids) (sole todos_t x)" if "a \<noteq> d_agent_id x"
    by (intro tx_bodyI) (use that in \<open>simp add: ReorderTodos_tx_def\<close>)
qed

lemma sole_frame:
  "sole claims_t x (d\<lparr>db_memory := m\<rparr>) = sole claims_t x d" "sole claims_t x (d\<lparr>db_tasks := ts\<rparr>) = sole claims_t x d"
  "sole claims_t x (d\<lparr>db_task_notes := ns\<rparr>) = sole claims_t x d"
  "sole claims_t x (d\<lparr>db_task_notes := ns, db_note_seq := k\<rparr>) = sole claims_t x d"
  "sole claims_t x (d\<lparr>db_agents := as\<rparr>) = sole claims_t x d"
  "sole claims_t x (d\<lparr>db_discovery_channels := cs\<rparr>) = sole claims_t x d"
  "sole claims_t x (d\<lparr>db_discovery_roles := rs\<rparr>) = sole claims_t x d"
  "sole claims_t x (d\<lparr>db_claim_queue := qs\<rparr>) = sole claims_t x d" "sole claims_t x (d\<lparr>db_todos := td\<rparr>) = sole claims_t x d"
  "sole claims_t x (d\<lparr>db_captured_sessions := ss\<rparr>) = sole claims_t x d"
  "sole todos_t y (d\<lparr>db_memory := m\<rparr>) = sole todos_t y d" "sole todos_t y (d\<lparr>db_tasks := ts\<rparr>) = sole todos_t y d"
  "sole todos_t y (d\<lparr>db_task_notes := ns\<rparr>) = sole todos_t y d"
  "sole todos_t y (d\<lparr>db_task_notes := ns, db_note_seq := k\<rparr>) = sole todos_t y d"
  "sole todos_t y (d\<lparr>db_agents := as\<rparr>) = sole todos_t y d"
  "sole todos_t y (d\<lparr>db_discovery_channels := cs\<rparr>) = sole todos_t y d"
  "sole todos_t y (d\<lparr>db_discovery_roles := rs\<rparr>) = sole todos_t y d"
  "sole todos_t y (d\<lparr>db_claim_queue := qs\<rparr>) = sole todos_t y d" "sole todos_t y (d\<lparr>db_claims := cl\<rparr>) = sole todos_t y d"
  "sole todos_t y (d\<lparr>db_captured_sessions := ss\<rparr>) = sole todos_t y d"
  by (simp_all add: sole_def)

interpretation kept: guarded_invariant "held h" "\<lambda>_. True" "spares h" for h
  by (rule guarded_invariant.intro; cases h)
    (simp_all add: spares_def claim_kept_bodies todo_kept_bodies sole_frame memory_frame task_frame agent_frame directory_frame
      todo_frame claims_frame session_frame queue_frame)

lemma unrestricted_spares: "unrestricted c \<Longrightarrow> spares h c"
  by (cases c rule: unrestricted.cases) (simp_all add: spares_def split: holding.split)

interpretation stranger: guarded_user "held h" "others_keep (held h)" "spares h" for h
  by unfold_locales (simp_all add: kept.call_keeps unrestricted_spares)

lemma held_owned:
  "held (HeldClaim c) d \<Longrightarrow> claim_owned (c_id c) (c_agent_id c) d"
  "held (HeldTodo t) d \<Longrightarrow> todo_owned (d_id t) (d_agent_id t) d"
proof -
  show "held (HeldClaim c) d \<Longrightarrow> claim_owned (c_id c) (c_agent_id c) d"
    using claims.sole_row_at [of c d] by (auto simp: claim_owned_def)
  assume "held (HeldTodo t) d"
  then have "set (filter (\<lambda>x. d_id x = d_id t) (db_todos d)) = {t}" by (simp add: sole_def)
  then show "todo_owned (d_id t) (d_agent_id t) d" by (auto simp: todo_owned_def)
qed

lemma spared_operations:
  "task_allowed (spares h) q1" "todo_allowed (spares (HeldClaim c)) q2" "claim_allowed (spares (HeldTodo t)) q3"
proof -
  show "task_allowed (spares h) q1" by (cases q1) (simp_all add: spares_def)
  show "todo_allowed (spares (HeldClaim c)) q2" by (cases q2) (simp_all add: spares_def)
  show "claim_allowed (spares (HeldTodo t)) q3" by (cases q3) (simp_all add: spares_def)
qed

lemma unspared_claim_operation:
  assumes "\<not> claim_allowed (spares (HeldClaim c)) q"
  shows "(\<exists>a. q = OpReleaseClaim \<lparr>cri_XAgentID = a, cri_ID = c_id c\<rparr>) \<or>
    (\<exists>a s. q = OpRenewClaim \<lparr>cni_XAgentID = a, cni_ID = c_id c, cni_ExpiresIn = s\<rparr>)"
proof (cases q)
  case (OpReleaseClaim inp)
  then show ?thesis using assms by (cases inp) (simp add: spares_def)
next
  case (OpRenewClaim inp)
  then show ?thesis using assms by (cases inp) (simp add: spares_def)
qed (use assms in \<open>simp_all add: spares_def\<close>)

text \<open>An operation for another agent leaves it alone: the handler refuses, or its calls do not reach the row.\<close>

lemma claim_handled_for_stranger:
  assumes "reads P p" "agent_header P \<noteq> []" "agent_header P \<noteq> c_agent_id c" "\<not> allowed (spares (HeldClaim c)) p"
    and "claim_owned (c_id c) (c_agent_id c) (ac_others (sv_access (hv_E1 v) 0) d)"
  shows "snd (api_handle p v ctx d) = ac_others (sv_access (hv_E1 v) 0) d"
proof -
  obtain q where q: "p = ClaimOp q" using assms(4) by (cases p) (simp_all add: spared_operations)
  then have "\<not> claim_allowed (spares (HeldClaim c)) q" using assms(4) by simp
  from unspared_claim_operation [OF this] show ?thesis
  proof (elim disjE exE)
    fix a assume a: "q = OpReleaseClaim \<lparr>cri_XAgentID = a, cri_ID = c_id c\<rparr>"
    then have "a = agent_header P" using assms(1) q by (simp add: read_claimRelease_def)
    then obtain e where "claimRelease (hv_E1 v) (hv_E2 v) \<lparr>cri_XAgentID = a, cri_ID = c_id c\<rparr> d =
        (Inl e, ac_others (sv_access (hv_E1 v) 0) d)"
      using claim_stranger_refused(1) [OF assms(5), of a] assms(2,3) by simp blast
    then show ?thesis using q a by simp
  next
    fix a s assume a: "q = OpRenewClaim \<lparr>cni_XAgentID = a, cni_ID = c_id c, cni_ExpiresIn = s\<rparr>"
    then have "a = agent_header P" using assms(1) q reads_agent_header(2) [of P] by fastforce
    then obtain e where "claimRenew (hv_rnd v) (hv_E1 v) (hv_E2 v) (hv_now v)
        \<lparr>cni_XAgentID = a, cni_ID = c_id c, cni_ExpiresIn = s\<rparr> d = (Inl e, ac_others (sv_access (hv_E1 v) 0) d)"
      using claim_stranger_refused(2) [OF assms(5), of a] assms(2,3) by simp blast
    then show ?thesis using q a by simp
  qed
qed

lemma todo_handled_for_stranger:
  assumes "reads P p" "agent_header P \<noteq> []" "agent_header P \<noteq> d_agent_id t" "\<not> allowed (spares (HeldTodo t)) p"
    and "todo_owned (d_id t) (d_agent_id t) (ac_others (sv_access (hv_E1 v) 0) d)"
  shows "snd (api_handle p v ctx d) = ac_others (sv_access (hv_E1 v) 0) d"
proof -
  obtain q where q: "p = TodoOp q" using assms(4) by (cases p) (simp_all add: spared_operations)
  then have n: "\<not> todo_allowed (spares (HeldTodo t)) q" using assms(4) by simp
  show ?thesis
  proof (cases q)
    case (OpUpdateTodo inp)
    then have "tdu_ID inp = d_id t" "tdu_XAgentID inp = agent_header P"
      using n assms(1) q reads_agent_header(3) by (simp_all add: spares_def)
    then obtain e where "todoUpdate (hv_E1 v) (hv_E2 v) inp d = (Inl e, ac_others (sv_access (hv_E1 v) 0) d)"
      using todo_stranger_refused(1) [OF assms(5), of "agent_header P" inp] assms(2,3) by auto
    then show ?thesis using q OpUpdateTodo by simp
  next
    case (OpDeleteTodo inp)
    then have "inp = \<lparr>tdd_ID = d_id t, tdd_XAgentID = agent_header P\<rparr>"
      using n assms(1) q by (cases inp) (simp add: spares_def read_todoDelete_def)
    then obtain e where "todoDelete (hv_E1 v) (hv_E2 v) inp d = (Inl e, ac_others (sv_access (hv_E1 v) 0) d)"
      using todo_stranger_refused(2) [OF assms(5), of "agent_header P"] assms(2,3) by auto
    then show ?thesis using q OpDeleteTodo by simp
  next
    case (OpReorder inp)
    then have "tdr_XAgentID inp = agent_header P" using assms(1) q reads_agent_header(5) by simp
    then show ?thesis using n assms(3) OpReorder by (simp add: spares_def)
  qed (use n assms(1-3) q in \<open>simp_all add: spares_def\<close>)
qed

lemma handled_for_stranger:
  assumes "reads P p" "agent_header P \<noteq> []" "agent_header P \<noteq> held_by h" "held h d"
    and "others_keep (held h) (hv_E1 v)" "others_keep (held h) (hv_E2 v)"
  shows "held h (snd (api_handle p v ctx d))"
proof (cases "allowed (spares h) p")
  case False
  have d: "held h (ac_others (sv_access (hv_E1 v) 0) d)" using assms(4,5) by (simp add: others_keepD)
  have "snd (api_handle p v ctx d) = ac_others (sv_access (hv_E1 v) 0) d"
  proof (cases h)
    case (HeldClaim c)
    then show ?thesis
      using claim_handled_for_stranger [OF assms(1,2) _ _ held_owned(1), of c v d ctx] assms(3) False d by simp
  next
    case (HeldTodo t)
    then show ?thesis
      using todo_handled_for_stranger [OF assms(1,2) _ _ held_owned(2), of t v d ctx] assms(3) False d by simp
  qed
  with d show ?thesis by simp
qed (use assms in \<open>simp add: stranger.api_handle_keeps\<close>)

text \<open>
  C5. What an agent holds is out of reach of the others.  A request to the API or the pages that carries a bearer
  token, neither the global one nor, naming the holder, the holder's own, leaves a claim and a todo exactly as they
  are, whatever it asks for and whatever fails on the way, as long as the other sessions leave them alone.  Where a
  global token is configured the same holds of a request without any bearer token.  Where none is configured (the
  default) nothing is promised of a request without a bearer token: the middleware lets it through, and it acts for
  whatever agent it names.
\<close>

theorem holdings_out_of_reach:
  assumes "huma_router (pg_decode pg) (pg_router pg)" "hq_Path r \<noteq> ''/api/v1/webhooks/github''"
    and "bearer_token r \<noteq> cfg_Token (pg_config pg)"
    and "header_agent r = held_by h \<longrightarrow> \<not> credential pg v r d"
    and "event_ok (others_keep (held h)) (Request v r body)" "held h d"
  shows "held h (snd (serve pg v r body d))"
proof (rule stranger.serve_keeps_if)
  fix p ctx x
  assume through: "cfg_Token (pg_config pg) \<noteq> [] \<or> bearer_token r \<noteq> [] \<longrightarrow> credential pg v r d"
    and p: "ro_api (pg_router pg) (auth_context r) body = Inr p" and x: "held h x"
  have "credential pg v r d" using through assms(3) by auto
  then have "header_agent r \<noteq> []" "header_agent r \<noteq> held_by h"
    using assms(3,4) by (auto simp: credential_def auth_valid_def split: if_splits)
  moreover obtain P where "reads P p" "agent_header P = header_agent r"
    using assms(1) p by (force simp: huma_router_def agent_header_def header_agent_def)
  ultimately show "held h (snd (api_handle p (rv_handler v) ctx x))"
    using handled_for_stranger x assms(5) by simp
qed (use assms(2,5,6) in simp_all)

definition demo_release_router :: "http_req \<Rightarrow> goerr + string \<Rightarrow> http_error + api_op" where
  "demo_release_router r body = (if hq_Method r = ''DELETE''
     then Inr (ClaimOp (OpReleaseClaim \<lparr>cri_XAgentID = header_agent r, cri_ID = ''c1''\<rparr>)) else Inl (http_err 404 []))"

lemma demo_release_router: "huma_router dec (pg_router (demo_program t demo_release_router))"
proof -
  have "\<exists>P. pt_header P = hq_Header r \<and> pt_body P = b \<and> reads P (ClaimOp (OpReleaseClaim \<lparr>cri_XAgentID = header_agent r, cri_ID = ''c1''\<rparr>)) \<and>
      valid P (ClaimOp (OpReleaseClaim \<lparr>cri_XAgentID = header_agent r, cri_ID = ''c1''\<rparr>))" for r b
    by (rule exI [of _ "\<lparr>pt_path = (\<lambda>_. ''c1''), pt_query = (\<lambda>_. []), pt_header = hq_Header r, pt_body = b\<rparr>"])
      (simp add: read_claimRelease_def agent_header_def header_agent_def)
  then show ?thesis
    by (auto simp: huma_router_def demo_program_def demo_release_router_def operation_def split: if_splits)
qed

theorem holdings_out_of_reach_witness:
  "held (HeldClaim (demo_claim_row ''c1'' ''ann'' ClaimStatusActive))
     (snd (serve (demo_program ''t'' demo_release_router) (quiet_request 5)
        ((demo_request ''Bearer x'' ''eve'')\<lparr>hq_Method := ''DELETE''\<rparr>) (Inr [])
        (demo_db\<lparr>db_agents := [token_row ''eve'' ''x'' (demo_time 0)]\<rparr>))) \<and>
   held (HeldClaim (demo_claim_row ''c1'' ''ann'' ClaimStatusActive))
     (snd (serve (demo_program [] demo_release_router) (quiet_request 5)
        ((demo_request ''Bearer x'' ''eve'')\<lparr>hq_Method := ''DELETE''\<rparr>) (Inr [])
        (demo_db\<lparr>db_agents := [token_row ''eve'' ''x'' (demo_time 0)]\<rparr>)))"
proof -
  let ?r = "(demo_request ''Bearer x'' ''eve'')\<lparr>hq_Method := ''DELETE''\<rparr>"
    and ?h = "HeldClaim (demo_claim_row ''c1'' ''ann'' ClaimStatusActive)"
    and ?d = "demo_db\<lparr>db_agents := [token_row ''eve'' ''x'' (demo_time 0)]\<rparr>"
  have r: "hq_Path ?r \<noteq> ''/api/v1/webhooks/github''" "bearer_token ?r = ''x''" "header_agent ?r = ''eve''"
    by (simp_all add: demo_request_def header_agent_def bearer_token_def)
  have keep: "others_keep I (quiet_senv (demo_time 5) ''u'')" for I
    by (rule quiet_others_keep) simp
  have env: "event_ok (others_keep (held ?h)) (Request (quiet_request 5) ?r (Inr []))"
    by (simp add: quiet_request_def Let_def keep)
  have "held ?h ?d"
    by (simp add: sole_def demo_db_def demo_claim_row_def)
  moreover have "cfg_Token (pg_config (demo_program t demo_release_router)) = t" for t
    by (simp add: demo_program_def serve_config_def Let_def)
  ultimately have "held ?h (snd (serve (demo_program t demo_release_router) (quiet_request 5) ?r (Inr []) ?d))"
    if "t \<noteq> ''x''" for t
    using that
    by (intro holdings_out_of_reach demo_release_router) (use r env in \<open>simp_all add: demo_claim_row_def\<close>)
  then show ?thesis by simp
qed

end
