(* ===== verification/Waiters.thy ===== *)
theory Waiters
  imports Confinement
begin

text \<open>
  What becomes of an entry of the waiting queue (\<^verbatim>\<open>claim_queue.go\<close>, \<^verbatim>\<open>claims.go\<close>): through every run it is queued or
  has become a claim.  Between the pop and the INSERT of a promotion it is in hand only.
\<close>

section \<open>Where a waiter can be\<close>

definition promoted_from :: "string set \<Rightarrow> queue_row \<Rightarrow> claim_row \<Rightarrow> bool" where
  "promoted_from old q c \<longleftrightarrow> c_id c \<notin> old \<and> c_resource c = q_resource q \<and> c_agent_id c = q_agent_id q \<and>
     c_type c = q_type q \<and> c_session c = q_session q"

definition accounted :: "string set \<Rightarrow> queue_row \<Rightarrow> database \<Rightarrow> bool" where
  "accounted old q d \<longleftrightarrow> old \<subseteq> c_id ` set (db_claims d) \<and>
     (sole claim_queue_t q d \<or> (\<exists>c \<in> set (db_claims d). promoted_from old q c))"

definition in_hand :: "string set \<Rightarrow> queue_row \<Rightarrow> ClaimWaiter option \<Rightarrow> database \<Rightarrow> bool" where
  "in_hand old q w d \<longleftrightarrow> accounted old q d \<or> old \<subseteq> c_id ` set (db_claims d) \<and> w = Some (scanWaiterRow q)"

lemma sole_other: "sole claim_queue_t q d \<Longrightarrow> x \<in> set (db_claim_queue d) \<Longrightarrow> q_id x = q_id q \<Longrightarrow> x = q"
proof -
  assume q: "sole claim_queue_t q d" and "x \<in> set (db_claim_queue d)" "q_id x = q_id q"
  then have "x \<in> set (filter (\<lambda>y. q_id y = q_id q) (db_claim_queue d))" by simp
  also have "filter (\<lambda>y. q_id y = q_id q) (db_claim_queue d) = [q]" using q by (simp add: sole_def)
  finally show "x = q" by simp
qed

lemma accounted_frame:
  "accounted old q (d\<lparr>db_memory := m\<rparr>) = accounted old q d" "accounted old q (d\<lparr>db_tasks := ts\<rparr>) = accounted old q d"
  "accounted old q (d\<lparr>db_task_notes := ns\<rparr>) = accounted old q d"
  "accounted old q (d\<lparr>db_task_notes := ns, db_note_seq := k\<rparr>) = accounted old q d"
  "accounted old q (d\<lparr>db_agents := as\<rparr>) = accounted old q d"
  "accounted old q (d\<lparr>db_discovery_channels := cs\<rparr>) = accounted old q d"
  "accounted old q (d\<lparr>db_discovery_roles := rs\<rparr>) = accounted old q d"
  "accounted old q (d\<lparr>db_todos := td\<rparr>) = accounted old q d"
  "accounted old q (d\<lparr>db_captured_sessions := ss\<rparr>) = accounted old q d"
  by (simp_all add: accounted_def sole_def)

lemma accounted_insert: "accounted old q d \<Longrightarrow> accounted old q (d\<lparr>db_claims := db_claims d @ [c]\<rparr>)"
  by (auto simp: accounted_def sole_def)

lemma accounted_update:
  assumes "\<And>c. promoted_from old q (f c) = promoted_from old q c" "\<And>c. c_id (f c) = c_id c" "accounted old q d"
  shows "accounted old q (snd (sql_update claims_t P f d))"
proof -
  let ?g = "\<lambda>c. if P c then f c else c"
  have "c_id (?g c) = c_id c" "promoted_from old q (?g c) = promoted_from old q c" for c using assms(1,2) by simp_all
  then have "c_id ` ?g ` set (db_claims d) = c_id ` set (db_claims d)"
    "(\<exists>c \<in> ?g ` set (db_claims d). promoted_from old q c) = (\<exists>c \<in> set (db_claims d). promoted_from old q c)"
    by (simp_all only: image_image bex_simps)
  then show ?thesis using assms(3) by (simp add: accounted_def sql_update_def sole_def)
qed

lemma accounted_delete:
  assumes "accounted old q d" "sole claim_queue_t q d \<Longrightarrow> \<not> P q"
  shows "accounted old q (snd (sql_delete claim_queue_t P d))"
  using assms claim_queue.sole_delete [of q d P] by (auto simp: accounted_def sql_delete_def)

lemma pop_in_hand: "leads (accounted old q) (PopNextWaiter A r) (in_hand old q) (accounted old q)"
proof (rule pop_leads)
  fix d x assume d: "accounted old q d" and x: "x \<in> set (db_claim_queue d)"
  show "in_hand old q (Some (scanWaiterRow x)) (snd (sql_delete claim_queue_t (\<lambda>y. q_id y = q_id x) d))"
  proof (cases "x = q")
    case True
    then show ?thesis using d by (auto simp: in_hand_def accounted_def sql_delete_def)
  next
    case False
    then have "q_id q \<noteq> q_id x" if "sole claim_queue_t q d" using sole_other [OF that x] by auto
    then show ?thesis
      using accounted_delete [OF d, of "\<lambda>y. q_id y = q_id x"] by (simp add: in_hand_def)
  qed
qed (simp add: in_hand_def)

lemma promoted_accounted:
  assumes "in_hand old q (Some w) d" "may_insert claims_t (promoted_row i now w) d"
  shows "accounted old q (d\<lparr>db_claims := db_claims d @ [promoted_row i now w]\<rparr>)"
proof (cases "accounted old q d")
  case False
  then have "old \<subseteq> c_id ` set (db_claims d)" "w = scanWaiterRow q" using assms(1) by (simp_all add: in_hand_def)
  then have "promoted_from old q (promoted_row i now w)"
    using assms(2) by (auto simp: promoted_from_def promoted_row_def scanWaiterRow_def may_insert_def)
  then show ?thesis using \<open>old \<subseteq> _\<close> by (auto simp: accounted_def)
qed (rule accounted_insert)

lemma sweep_accounted:
  assumes "\<not> stale_waiter now q"
  shows "preserves (accounted old q) (sweepExpiredWaiters A now)"
proof -
  define P where "P = (\<lambda>is d. accounted old q d \<and> (sole claim_queue_t q d \<longrightarrow> q_id q \<notin> set is))"
  have each: "leads (P is) (delete_stale A is) (\<lambda>_. accounted old q) (accounted old q)" for "is"
  proof (induction "is")
    case (Cons i "is")
    have "P is (snd (sql_delete claim_queue_t (\<lambda>r. q_id r = i) d))" if "P (i # is) d" for d
    proof -
      have "accounted old q (snd (sql_delete claim_queue_t (\<lambda>r. q_id r = i) d))"
        using that by (intro accounted_delete) (auto simp: P_def)
      then show ?thesis using that claim_queue.sole_deleted [of q i d] by (auto simp: P_def)
    qed
    then show ?case unfolding delete_stale.simps
      by (intro leads_then [OF leads_simple(4) [where J = "\<lambda>_. False"] Cons.IH] leads_exec) (auto, metis snd_conv)
  qed (auto intro: leads_simple(1) simp: P_def)
  have "q_id q \<noteq> q_id x" if "sole claim_queue_t q d" "x \<in> set (db_claim_queue d)" "stale_waiter now x" for d x
    using sole_other [OF that(1,2)] that(3) assms by auto
  then show ?thesis unfolding sweepExpiredWaiters_def preserves_leads
    by (intro leads_then [OF leads_exec each]) (auto simp: P_def sql_select_def)
qed

lemma accounted_bodies:
  "tx_body (CreateClaim_tx c now) (accounted old q)" "tx_body (EnqueueClaim_tx w now) (accounted old q)"
  "tx_body (ReleaseClaim_tx j) (accounted old q)" "tx_body (RenewClaim_tx j e) (accounted old q)"
  "\<not> stale_waiter (in_UTC (at_now A)) q \<Longrightarrow> preserves (accounted old q) (ExpireOldClaims_tx A n)"
proof -
  have upd: "accounted old q (snd (sql_update claims_t P f d))"
    if "accounted old q d" "\<And>c. promoted_from old q (f c) = promoted_from old q c \<and> c_id (f c) = c_id c" for P f d
    using that by (simp add: accounted_update)
  have ins: "accounted old q (snd (sql_insert claims_t c d))" if "accounted old q d" for c d
    using that by (simp add: sql_insert_def accounted_insert)
  have queue: "accounted old q (snd (sql_insert claim_queue_t x d))" if "accounted old q d" for x d
    using that claim_queue.sole_insert [of q d x] by (auto simp: accounted_def sql_insert_def)
  show "tx_body (CreateClaim_tx c now) (accounted old q)" "tx_body (EnqueueClaim_tx w now) (accounted old q)"
    "tx_body (RenewClaim_tx j e) (accounted old q)"
    by (rule tx_bodyI, unfold CreateClaim_tx_def EnqueueClaim_tx_def RenewClaim_tx_def Let_def, intro tx_pres;
        simp add: ins queue upd sql_select_def promoted_from_def)+
  show "tx_body (ReleaseClaim_tx j) (accounted old q)"
    by (rule release_promotes [OF pop_in_hand _ promoted_accounted]) (simp_all add: in_hand_def upd promoted_from_def)
  show "preserves (accounted old q) (ExpireOldClaims_tx A n)" if "\<not> stale_waiter (in_UTC (at_now A)) q"
    by (rule expire_promotes [OF pop_in_hand _ promoted_accounted])
      (simp_all add: in_hand_def upd promoted_from_def sweep_accounted that)
qed

section \<open>No waiter is lost\<close>

text \<open>The clock readings of a call under which a waiter is not yet stale.\<close>

definition in_time :: "queue_row \<Rightarrow> senv \<Rightarrow> bool" where
  "in_time q E \<longleftrightarrow> (\<forall>k. \<not> stale_waiter (in_UTC (at_now (sv_tx E k))) q)"

lemma expire_attempts: "in_time q E \<Longrightarrow> attempts_keep (sv_tx E) ExpireOldClaims_tx (accounted old q)"
  by (rule attempts_keepI, rule accounted_bodies(5)) (simp add: in_time_def)

interpretation waiting: store_invariant "accounted old q" "in_time q" for old q
  by (rule store_invariant.intro, rule guarded_invariant.intro)
    (simp_all add: accounted_bodies(1-4) expire_attempts accounted_frame memory_frame task_frame agent_frame directory_frame
      todo_frame session_frame)

text \<open>
  C10. No waiter is lost.  Follow an entry of the waiting queue through any run of the server (requests, webhook
  deliveries and ticks interleaved with other sessions, failing and retried) in which no transaction begins after its time has run
  out: it is still queued, or a claim made since has its resource, agent, type and session.  No failure in between loses it, although
  the promotion loop of \<^verbatim>\<open>ExpireOldClaims\<close> passes over the errors of its INSERT.
\<close>

theorem waiters_never_lost:
  assumes "list_all (event_ok (admissible (in_time q))) evs" "db_ok d" "q \<in> set (db_claim_queue d)"
  shows "let d' = run_program pg evs d in q \<in> set (db_claim_queue d') \<or>
    (\<exists>c \<in> set (db_claims d'). c_id c \<notin> c_id ` set (db_claims d) \<and> c_resource c = q_resource q \<and>
       c_agent_id c = q_agent_id q \<and> c_type c = q_type q \<and> c_session c = q_session q)"
proof -
  let ?d = "run_program pg evs d"
  have "sole claim_queue_t q d"
    using assms(2,3) filter_key_unique [of q_id "db_claim_queue d" q] by (simp add: sole_def db_ok_def table_ok_def)
  then have "accounted (c_id ` set (db_claims d)) q d" by (simp add: accounted_def)
  moreover have "reaches (in_time q) d ?d"
    by (rule calls.program_keeps) (simp_all add: assms(1) here)
  ultimately have "accounted (c_id ` set (db_claims d)) q ?d" by (rule waiting.reaches_keeps [rotated])
  moreover have "q \<in> set (db_claim_queue ?d)" if "sole claim_queue_t q ?d"
    using claim_queue.sole_mem [OF that] by simp
  ultimately show ?thesis by (auto simp: accounted_def promoted_from_def Let_def)
qed

theorem waiters_never_lost_witness:
  "let d' = run_program (demo_program ''t'' (\<lambda>_ _. Inl (http_err 404 [])))
       [ExpiryTick (quiet_senv (demo_time (70 * Second)) ''c2'')] demo_db
   in waiter_row (demo_waiter ''bob'') (demo_time (50 * Second)) \<in> set (db_claim_queue d') \<or>
      (\<exists>c \<in> set (db_claims d'). c_id c \<notin> {''c0'', ''c1''} \<and> c_agent_id c = ''bob'')"
proof -
  let ?q = "waiter_row (demo_waiter ''bob'') (demo_time (50 * Second))"
  have "\<not> stale_waiter (in_UTC (demo_time (70 * Second))) ?q" by code_simp
  then have "list_all (event_ok (admissible (in_time ?q))) [ExpiryTick (quiet_senv (demo_time (70 * Second)) ''c2'')]"
    by (simp add: in_time_def quiet_admissible)
  moreover have "db_ok demo_db"
    by (simp add: demo_db_def db_ok_def table_ok_def notes_ok_def uniq_keys_def List.map_filter_simps demo_claim_row_def empty_db_def)
  moreover have "?q \<in> set (db_claim_queue demo_db)" by (simp add: demo_db_def)
  ultimately show ?thesis
    using waiters_never_lost [of ?q "[ExpiryTick (quiet_senv (demo_time (70 * Second)) ''c2'')]" demo_db
      "demo_program ''t'' (\<lambda>_ _. Inl (http_err 404 []))"]
    unfolding demo_db_facts(4) Let_def by (auto simp: waiter_row_def demo_waiter_def)
qed

end
