(* ===== verification/WellTyped.thy ===== *)
theory WellTyped
  imports Inputs
begin

text \<open>
  What the validation of inputs guarantees about stored data: types of claims, resources, titles.
\<close>

section \<open>Types of what is stored\<close>

definition typed_waiter :: "ClaimWaiter \<Rightarrow> bool" where
  "typed_waiter w \<longleftrightarrow> cw_Type w \<in> set claim_types \<and> cw_Resource w \<noteq> []"

text \<open>Claims and waiters have one of the three types and a resource, tasks have a title.\<close>

definition well_typed :: "database \<Rightarrow> bool" where
  "well_typed d \<longleftrightarrow>
     list_all (\<lambda>c. c_type c \<in> set claim_types \<and> c_resource c \<noteq> []) (db_claims d) \<and>
     list_all (\<lambda>q. q_type q \<in> set claim_types \<and> q_resource q \<noteq> []) (db_claim_queue d) \<and>
     list_all (\<lambda>t. t_title t \<noteq> []) (db_tasks d)"

definition typed_call :: "store_call \<Rightarrow> bool" where
  "typed_call call \<longleftrightarrow> (case call of
       OnTasks (CallCreateTask t) \<Rightarrow> ta_Title t \<noteq> []
     | OnClaims (CallCreateClaim c) \<Rightarrow> cl_Type c \<in> set claim_types \<and> cl_Resource c \<noteq> []
     | OnClaims (CallEnqueueClaim w) \<Rightarrow> typed_waiter w
     | _ \<Rightarrow> True)"

lemma well_typed_frame:
  "well_typed (d\<lparr>db_memory := m\<rparr>) = well_typed d" "well_typed (d\<lparr>db_task_notes := ns\<rparr>) = well_typed d"
  "well_typed (d\<lparr>db_task_notes := ns, db_note_seq := k\<rparr>) = well_typed d" "well_typed (d\<lparr>db_agents := as\<rparr>) = well_typed d"
  "well_typed (d\<lparr>db_discovery_channels := cs\<rparr>) = well_typed d" "well_typed (d\<lparr>db_discovery_roles := rs\<rparr>) = well_typed d"
  "well_typed (d\<lparr>db_todos := td\<rparr>) = well_typed d" "well_typed (d\<lparr>db_captured_sessions := ss\<rparr>) = well_typed d"
  by (simp_all add: well_typed_def)

lemma list_all_stmts:
  "list_all P xs \<Longrightarrow> P x \<Longrightarrow> list_all P (xs @ [x])"
  "list_all P xs \<Longrightarrow> (\<And>x. P x \<Longrightarrow> P (f x)) \<Longrightarrow> list_all P (map (\<lambda>x. if Q x then f x else x) xs)"
  "list_all P xs \<Longrightarrow> list_all P (filter Q xs)"
  by (auto simp: list_all_iff)

lemma well_typed_stmts:
  "well_typed d \<Longrightarrow> c_type c \<in> set claim_types \<Longrightarrow> c_resource c \<noteq> [] \<Longrightarrow> well_typed (snd (sql_insert claims_t c d))"
  "well_typed d \<Longrightarrow> q_type q \<in> set claim_types \<Longrightarrow> q_resource q \<noteq> [] \<Longrightarrow> well_typed (snd (sql_insert claim_queue_t q d))"
  "well_typed d \<Longrightarrow> t_title t \<noteq> [] \<Longrightarrow> well_typed (snd (sql_insert tasks_t t d))"
  "well_typed d \<Longrightarrow> (\<And>c. c_type (f c) = c_type c \<and> c_resource (f c) = c_resource c) \<Longrightarrow>
     well_typed (snd (sql_update claims_t P f d))"
  "well_typed d \<Longrightarrow> (\<And>t. t_title (g t) = t_title t) \<Longrightarrow> well_typed (snd (sql_update tasks_t P2 g d))"
  "well_typed d \<Longrightarrow> well_typed (snd (sql_delete claim_queue_t P3 d))" "well_typed d \<Longrightarrow> well_typed (snd (sql_delete tasks_t P4 d))"
  by (auto simp: well_typed_def sql_insert_def sql_update_def sql_delete_def list_all_stmts)

text \<open>A popped waiter carries its type into the claim it becomes.\<close>

definition typed_pop :: "ClaimWaiter option \<Rightarrow> database \<Rightarrow> bool" where
  "typed_pop res d \<longleftrightarrow> well_typed d \<and> (case res of None \<Rightarrow> True | Some w \<Rightarrow> typed_waiter w)"

lemma pop_typed: "leads well_typed (PopNextWaiter A r) typed_pop well_typed"
  by (rule pop_leads)
    (auto simp: typed_pop_def well_typed_stmts, auto simp: well_typed_def typed_waiter_def scanWaiterRow_def list_all_iff)

lemma promoted_typed:
  "typed_pop (Some w) d \<Longrightarrow> well_typed (d\<lparr>db_claims := db_claims d @ [promoted_row i now w]\<rparr>)"
  by (simp add: typed_pop_def well_typed_def typed_waiter_def promoted_row_def)

lemma sweep_typed: "preserves well_typed (sweepExpiredWaiters A now)"
proof -
  have st: "preserves well_typed (delete_stale A is)" for A "is"
    by (induction A "is" rule: delete_stale.induct) (auto intro!: tx_pres simp: well_typed_stmts)
  show ?thesis unfolding sweepExpiredWaiters_def Let_def
    by (intro tx_pres st) (simp_all add: sql_select_def)
qed

lemma well_typed_claim_bodies:
  "cl_Type c \<in> set claim_types \<Longrightarrow> cl_Resource c \<noteq> [] \<Longrightarrow> tx_body (CreateClaim_tx c now) well_typed"
  "typed_waiter w \<Longrightarrow> tx_body (EnqueueClaim_tx w now) well_typed" "tx_body (ReleaseClaim_tx j) well_typed"
  "tx_body (RenewClaim_tx j e) well_typed" "tx_body ExpireOldClaims_tx well_typed"
proof -
  show "tx_body (CreateClaim_tx c now) well_typed" if "cl_Type c \<in> set claim_types" "cl_Resource c \<noteq> []"
    by (rule tx_bodyI, unfold CreateClaim_tx_def, intro tx_pres)
      (use that in \<open>simp add: well_typed_stmts claim_insert_row_def\<close>)
  show "tx_body (EnqueueClaim_tx w now) well_typed" if "typed_waiter w"
    by (rule tx_bodyI, unfold EnqueueClaim_tx_def, intro tx_pres)
      (use that in \<open>simp_all add: well_typed_stmts waiter_row_def typed_waiter_def sql_select_def\<close>)
  show "tx_body (RenewClaim_tx j e) well_typed"
    by (rule tx_bodyI, unfold RenewClaim_tx_def Let_def, intro tx_pres) (simp_all add: well_typed_stmts)
  show "tx_body (ReleaseClaim_tx j) well_typed"
    by (rule release_promotes [OF pop_typed _ promoted_typed]) (simp_all add: typed_pop_def well_typed_stmts)
  show "tx_body ExpireOldClaims_tx well_typed"
    by (rule tx_bodyI, rule expire_promotes [OF pop_typed _ promoted_typed])
      (simp_all add: typed_pop_def well_typed_stmts sweep_typed)
qed

lemma well_typed_task_bodies:
  "ta_Title t \<noteq> [] \<Longrightarrow> tx_body (CreateTask_tx t now) well_typed" "tx_body (UpdateTask_tx i upd) well_typed"
  "tx_body (DeleteTask_tx i) well_typed"
proof -
  have ins: "well_typed (snd (sql_insert_note a b c e d))" if "well_typed d" for a b c e d
    using that by (simp add: sql_insert_note_def well_typed_frame)
  have del: "well_typed (snd (sql_delete_task a d))" if "well_typed d" for a d
    using that well_typed_stmts(7) [of d] by (auto simp: sql_delete_task_def well_typed_frame split: prod.split) (metis snd_conv)
  show "tx_body (CreateTask_tx t now) well_typed" if "ta_Title t \<noteq> []"
    by (rule tx_bodyI, unfold CreateTask_tx_def, intro tx_pres) (use that in \<open>simp_all add: well_typed_stmts task_insert_row_def\<close>)
  show "tx_body (UpdateTask_tx i upd) well_typed" "tx_body (DeleteTask_tx i) well_typed"
    by ((rule tx_bodyI, unfold UpdateTask_tx_def DeleteTask_tx_def Let_def, intro tx_pres;
        simp add: well_typed_stmts ins del sql_select_def task_set_def))+
qed

interpretation typing: guarded_invariant well_typed "\<lambda>_. True" typed_call
  by (rule guarded_invariant.intro)
    (simp_all add: typed_call_def typed_waiter_def enqueued_def Let_def new_claim_def new_task_def well_typed_frame
      well_typed_claim_bodies well_typed_task_bodies memory_frame agent_frame directory_frame todo_frame session_frame)

lemma unrestricted_typed: "unrestricted c \<Longrightarrow> typed_call c"
  by (cases c rule: unrestricted.cases) (simp_all add: typed_call_def)

interpretation typed_server: hooked_user well_typed "others_keep well_typed" typed_call
  by unfold_locales (simp_all add: typing.call_keeps unrestricted_typed, simp_all add: typed_call_def)

text \<open>Validation is what makes the calls typed.\<close>

lemma valid_operation_typed:
  assumes "valid P p"
  shows "allowed typed_call p"
proof (cases p)
  case (TaskOp q)
  then show ?thesis using assms by (cases q) (simp_all add: typed_call_def)
next
  case (ClaimOp q)
  then show ?thesis using assms by (cases q) (simp_all add: typed_call_def typed_waiter_def)
next
  case (TodoOp q)
  then show ?thesis by (cases q) (simp_all add: typed_call_def)
qed simp_all

text \<open>
  C7. Neither schema nor store checks the type and the resource of a claim or the title of a task: the tags of the
  inputs do.  Whatever requests, webhook deliveries and background ticks the server handles, every claim and every waiter it
  stores has one of the three types and a resource, and every task has a title, promoted claims and tasks of the
  webhook included; the other sessions are taken to keep this, as instances of the same server do.
\<close>

theorem stored_data_typed:
  assumes "huma_router (pg_decode pg) (pg_router pg)" "list_all (event_ok (others_keep well_typed)) evs" "well_typed d"
  shows "well_typed (run_program pg evs d)"
proof (rule typed_server.program_keeps [OF _ assms(2,3)])
  show "allowed typed_call p" if "ro_api (pg_router pg) r body = Inr p" for r body p
    using assms(1) that valid_operation_typed unfolding huma_router_def by blast
qed

definition demo_claim_router :: "http_req \<Rightarrow> goerr + string \<Rightarrow> http_error + api_op" where
  "demo_claim_router r body = (if hq_Method r = ''POST'' \<and> body = Inr ''claim''
     then Inr (ClaimOp (OpCreateClaim \<lparr>cci_XAgentID = header_agent r, cci_Type = ''conch'', cci_Resource = ''room'',
       cci_ExpiresIn = [], cci_Metadata = None\<rparr>)) else Inl (http_err 404 []))"

definition demo_decode :: "string \<Rightarrow> json option" where
  "demo_decode s = (if s = ''claim'' then Some (JObj [(''type'', JStr ''conch''), (''resource'', JStr ''room'')]) else None)"

lemma demo_claim_router:
  "huma_router demo_decode \<lparr>ro_api = demo_claim_router, ro_static = st, ro_query = q\<rparr>"
proof -
  let ?inp = "\<lambda>r. \<lparr>cci_XAgentID = header_agent r, cci_Type = ''conch'', cci_Resource = ''room'', cci_ExpiresIn = [],
      cci_Metadata = None\<rparr>"
  have "\<exists>P. pt_header P = hq_Header r \<and> pt_body P = demo_decode ''claim'' \<and> reads P (ClaimOp (OpCreateClaim (?inp r))) \<and>
      valid P (ClaimOp (OpCreateClaim (?inp r)))" for r
    by (rule exI [of _ "\<lparr>pt_path = (\<lambda>_. []), pt_query = (\<lambda>_. []), pt_header = hq_Header r, pt_body = demo_decode ''claim''\<rparr>"])
      (simp add: read_claimCreate_def read_body_def demo_decode_def get_str_def get_with_def agent_header_def header_agent_def
        required_def claim_types_def ClaimTypeConch_def)
  then show ?thesis by (auto simp: huma_router_def demo_claim_router_def operation_def split: if_splits)
qed

theorem stored_data_typed_witness:
  "well_typed (run_program ((demo_program ''t'' demo_claim_router)\<lparr>pg_decode := demo_decode\<rparr>)
     [Request (quiet_request 5) ((demo_request ''Bearer t'' ''ann'')\<lparr>hq_Method := ''POST''\<rparr>) (Inr ''claim''),
      ExpiryTick (quiet_senv (demo_time 9) ''v'')] empty_db)"
proof (rule stored_data_typed)
  show "huma_router (pg_decode ((demo_program ''t'' demo_claim_router)\<lparr>pg_decode := demo_decode\<rparr>))
      (pg_router ((demo_program ''t'' demo_claim_router)\<lparr>pg_decode := demo_decode\<rparr>))"
    using demo_claim_router by (simp add: demo_program_def)
  have keep: "others_keep I (quiet_senv t u)" for I t u by (rule quiet_others_keep) simp
  show "list_all (event_ok (others_keep well_typed))
      [Request (quiet_request 5) ((demo_request ''Bearer t'' ''ann'')\<lparr>hq_Method := ''POST''\<rparr>) (Inr ''claim''),
       ExpiryTick (quiet_senv (demo_time 9) ''v'')]"
    by (simp add: keep quiet_request_def Let_def)
  show "well_typed empty_db" by (simp add: well_typed_def empty_db_def)
qed

end
