(* ===== verification/Harness.thy ===== *)
theory Harness
  imports Startup
begin

text \<open>
  The test harness (\<^verbatim>\<open>pkg/testharness\<close>, \<^verbatim>\<open>internal/testutil\<close>): the containers, the store and the server of a test, and
  the order in which all of it is closed.  The containers themselves are testcontainers-go's, a parameter.
\<close>

section \<open>A test and its cleanups\<close>

text \<open>
  \<^verbatim>\<open>testing.T\<close>: \<^verbatim>\<open>Fatalf\<close> ends the test function (\<open>None\<close>); the functions given to \<^verbatim>\<open>Cleanup\<close> run afterwards, the last
  one first, whether the test ended well or not.
\<close>

datatype resource = Container string | StoreConn | HttpServer

datatype step =
    Start string | StartFailed string | Stop string | OnDB action | NewServer | CloseServer | Logf string "goerr option" | TestBody string

record test_state =
  tt_cleanups :: "resource list"
  tt_steps :: "step list"

type_synonym 'a test = "test_state \<Rightarrow> 'a option \<times> test_state"

definition test_return :: "'a \<Rightarrow> 'a test" where
  "test_return x s = (Some x, s)"

definition test_then :: "'a test \<Rightarrow> ('a \<Rightarrow> 'b test) \<Rightarrow> 'b test" where
  "test_then m k s = (case m s of (None, s1) \<Rightarrow> (None, s1) | (Some x, s1) \<Rightarrow> k x s1)"

definition steps :: "step list \<Rightarrow> unit test" where
  "steps xs s = (Some (), s\<lparr>tt_steps := tt_steps s @ xs\<rparr>)"

definition Fatalf :: "string \<Rightarrow> goerr option \<Rightarrow> 'a test" where
  "Fatalf msg e s = (None, s\<lparr>tt_steps := tt_steps s @ [Logf msg e]\<rparr>)"

definition Cleanup :: "resource \<Rightarrow> unit test" where
  "Cleanup r s = (Some (), s\<lparr>tt_cleanups := r # tt_cleanups s\<rparr>)"

text \<open>
  What the services do: whether running an image leaves a container, and the error it reports; the error of
  terminating it; the properties asked of it (its connection string, its host, a port).
\<close>

record services =
  svc_run :: "string \<Rightarrow> bool \<times> goerr option"
  svc_terminate :: "string \<Rightarrow> goerr option"
  svc_ask :: "string \<Rightarrow> string \<Rightarrow> goerr + string"

definition ask :: "services \<Rightarrow> string \<Rightarrow> string \<Rightarrow> string \<Rightarrow> string test" where
  "ask V img what msg = (case svc_ask V img what of Inl e \<Rightarrow> Fatalf msg (Some e) | Inr x \<Rightarrow> test_return x)"

definition start_container :: "services \<Rightarrow> string \<Rightarrow> string \<Rightarrow> unit test" where
  "start_container V img msg =
     (case svc_run V img of
        (there, Some e) \<Rightarrow> test_then (steps (if there then [StartFailed img] else [])) (\<lambda>_. Fatalf msg (Some e))
      | (there, None) \<Rightarrow> test_then (steps [Start img]) (\<lambda>_. Cleanup (Container img)))"

section \<open>The services\<close>

definition crdb_image :: string where "crdb_image = ''cockroachdb/cockroach:latest-v24.3''"
definition meilisearch_image :: string where "meilisearch_image = ''getmeili/meilisearch:latest''"
definition gel_image :: string where "gel_image = ''geldata/gel:latest''"

definition startCRDB :: "services \<Rightarrow> string test" where
  "startCRDB V = test_then (start_container V crdb_image ''start cockroachdb container'')
     (\<lambda>_. ask V crdb_image ''ConnectionString'' ''cockroachdb connection string'')"

definition startMeilisearch :: "services \<Rightarrow> string test" where
  "startMeilisearch V = test_then (start_container V meilisearch_image ''start meilisearch container'')
     (\<lambda>_. test_then (ask V meilisearch_image ''Host'' ''meilisearch host'')
     (\<lambda>host. test_then (ask V meilisearch_image ''7700/tcp'' ''meilisearch port'')
     (\<lambda>port. test_return (''http://'' @ host @ '':'' @ port))))"

definition startGel :: "services \<Rightarrow> string test" where
  "startGel V = test_then (start_container V gel_image ''start gel container'')
     (\<lambda>_. test_then (ask V gel_image ''Host'' ''gel host'')
     (\<lambda>host. test_then (ask V gel_image ''5656/tcp'' ''gel port'')
     (\<lambda>port. test_return (''gel://'' @ host @ '':'' @ port))))"

section \<open>The test server\<close>

record options =
  op_token :: string
  op_meilisearch :: bool
  op_gel :: bool

datatype Option = WithToken string | WithMeilisearch | WithGel | WithCRDBOnly

primrec apply_option :: "Option \<Rightarrow> options \<Rightarrow> options" where
  "apply_option (WithToken token) o1 = o1\<lparr>op_token := token\<rparr>"
| "apply_option WithMeilisearch o1 = o1\<lparr>op_meilisearch := True\<rparr>"
| "apply_option WithGel o1 = o1\<lparr>op_gel := True\<rparr>"
| "apply_option WithCRDBOnly o1 = o1"

definition options_of :: "Option list \<Rightarrow> options" where
  "options_of opts = fold apply_option opts \<lparr>op_token = ''test-token'', op_meilisearch = False, op_gel = False\<rparr>"

text \<open>\<open>store.New\<close> in a test: what it does to the database is among the steps.\<close>

definition new_store :: "world \<Rightarrow> string \<Rightarrow> catalog \<Rightarrow> string \<Rightarrow> catalog test" where
  "new_store wd url c msg = (case store_New wd url c of
       ((Some e, c1), acts) \<Rightarrow> test_then (steps (map OnDB acts)) (\<lambda>_. Fatalf msg (Some e))
     | ((None, c1), acts) \<Rightarrow> test_then (steps (map OnDB acts)) (\<lambda>_. test_then (Cleanup StoreConn) (\<lambda>_. test_return c1)))"

text \<open>The handler under test has the token of the options, no webhook secret, and a relay that does nothing.\<close>

definition test_config :: "string \<Rightarrow> string \<Rightarrow> Config" where
  "test_config token url = \<lparr>cfg_BindAddr = [], cfg_DatabaseURL = url, cfg_Token = token, cfg_OnlyClawsURL = [],
     cfg_OnlyClawsToken = [], cfg_GitHubWebhookSecret = []\<rparr>"

definition NewTestServer :: "services \<Rightarrow> world \<Rightarrow> catalog \<Rightarrow> string \<Rightarrow> Option list \<Rightarrow> (string \<times> Config \<times> catalog) test" where
  "NewTestServer V wd c server_url opts =
     (let o1 = options_of opts in
      test_then (startCRDB V) (\<lambda>crdbURL.
      test_then (if op_meilisearch o1
          then test_then (startMeilisearch V) (\<lambda>msURL. steps [Logf (''meilisearch URL: '' @ msURL) None])
          else test_return ()) (\<lambda>_.
      test_then (if op_gel o1
          then test_then (startGel V) (\<lambda>gelURL. steps [Logf (''gel URL: '' @ gelURL) None])
          else test_return ()) (\<lambda>_.
      test_then (new_store wd crdbURL c ''store.New'') (\<lambda>c1.
      test_then (steps [NewServer]) (\<lambda>_.
      test_then (Cleanup HttpServer) (\<lambda>_.
      test_return (server_url, test_config (op_token o1) crdbURL, c1))))))))"

text \<open>The older helper of \<^verbatim>\<open>internal/testutil\<close>.\<close>

definition testserver :: string where "testserver = ''cockroach testserver''"

definition NewCockroachStore :: "services \<Rightarrow> world \<Rightarrow> catalog \<Rightarrow> catalog test" where
  "NewCockroachStore V wd c =
     test_then (start_container V testserver ''testserver.NewTestServer'') (\<lambda>_.
     test_then (case svc_ask V testserver ''PGURL'' of
         Inl e \<Rightarrow> Fatalf ''testserver returned nil PGURL'' None | Inr url \<Rightarrow> test_return url) (\<lambda>pgURL.
     new_store wd pgURL c ''store.New with testserver URL''))"

text \<open>A whole test: the body runs when the helper returned; then the cleanups.\<close>

primrec clean :: "services \<Rightarrow> resource \<Rightarrow> step list" where
  "clean V (Container img) = Stop img # (case svc_terminate V img of None \<Rightarrow> [] | Some e \<Rightarrow> [Logf (''terminate '' @ img) (Some e)])"
| "clean V StoreConn = [OnDB CloseDB]"
| "clean V HttpServer = [CloseServer]"

definition run_test :: "services \<Rightarrow> 'a test \<Rightarrow> ('a \<Rightarrow> string) \<Rightarrow> step list" where
  "run_test V m name = (case m \<lparr>tt_cleanups = [], tt_steps = []\<rparr> of
       (res, s) \<Rightarrow> tt_steps s @ (case res of None \<Rightarrow> [] | Some x \<Rightarrow> [TestBody (name x)]) @ concat (map (clean V) (tt_cleanups s)))"

section \<open>Everything is closed again\<close>

text \<open>
  The resources open along the steps, the latest first: closing is only right for the latest.  The
  database is open after \<^verbatim>\<open>sql.Open\<close> without an error.  Apart from them, the containers left by a start that
  reported an error, which the test never gets to know.
\<close>

type_synonym opens = "resource list \<times> resource list"

fun step_open :: "world \<Rightarrow> step \<Rightarrow> opens \<Rightarrow> opens option" where
  "step_open wd (Start img) (rs, ls) = Some (Container img # rs, ls)"
| "step_open wd (StartFailed img) (rs, ls) = Some (rs, Container img # ls)"
| "step_open wd (Stop img) (rs, ls) = (if rs \<noteq> [] \<and> hd rs = Container img then Some (tl rs, ls) else None)"
| "step_open wd (OnDB (OpenDB url)) (rs, ls) = Some (if wd_error wd (OpenDB url) = None then StoreConn # rs else rs, ls)"
| "step_open wd (OnDB CloseDB) (rs, ls) = (if rs \<noteq> [] \<and> hd rs = StoreConn then Some (tl rs, ls) else None)"
| "step_open wd NewServer (rs, ls) = Some (HttpServer # rs, ls)"
| "step_open wd CloseServer (rs, ls) = (if rs \<noteq> [] \<and> hd rs = HttpServer then Some (tl rs, ls) else None)"
| "step_open wd _ os = Some os"

fun opened :: "world \<Rightarrow> step list \<Rightarrow> opens \<Rightarrow> opens option" where
  "opened wd [] os = Some os"
| "opened wd (x # xs) os = (case step_open wd x os of None \<Rightarrow> None | Some os1 \<Rightarrow> opened wd xs os1)"

lemma opened_append: "opened wd (xs @ ys) os = Option.bind (opened wd xs os) (opened wd ys)"
  by (induction xs arbitrary: os) (auto split: option.split)

text \<open>What a failing start may leave: one container, of an image whose start reports an error and leaves it.\<close>

definition half_started :: "services \<Rightarrow> resource list \<Rightarrow> bool" where
  "half_started V ls \<longleftrightarrow> ls = [] \<or> (\<exists>img e. ls = [Container img] \<and> svc_run V img = (True, Some e))"

text \<open>
  A helper that keeps the cleanups in step with what is open, leaves something only when it gives up, and
  does not run the body of the test.
\<close>

definition tidy_test :: "services \<Rightarrow> world \<Rightarrow> 'a test \<Rightarrow> bool" where
  "tidy_test V wd m \<longleftrightarrow> (\<forall>s. opened wd (tt_steps s) ([], []) = Some (tt_cleanups s, []) \<longrightarrow>
     (\<exists>ls. opened wd (tt_steps (snd (m s))) ([], []) = Some (tt_cleanups (snd (m s)), ls) \<and>
        half_started V ls \<and> (fst (m s) \<noteq> None \<longrightarrow> ls = []) \<and>
        (\<forall>name. TestBody name \<in> set (tt_steps (snd (m s))) \<longrightarrow> TestBody name \<in> set (tt_steps s))))"

lemma tidy_testD:
  "tidy_test V wd m \<Longrightarrow> opened wd (tt_steps s) ([], []) = Some (tt_cleanups s, []) \<Longrightarrow> m s = (r, s1) \<Longrightarrow>
     \<exists>ls. opened wd (tt_steps s1) ([], []) = Some (tt_cleanups s1, ls) \<and> half_started V ls \<and> (r \<noteq> None \<longrightarrow> ls = []) \<and>
       (\<forall>name. TestBody name \<in> set (tt_steps s1) \<longrightarrow> TestBody name \<in> set (tt_steps s))"
  unfolding tidy_test_def by fastforce

lemma tidy_basic:
  "tidy_test V wd (test_return x)" "tidy_test V wd (Fatalf msg e)" "tidy_test V wd (steps [Logf msg e])"
  "tidy_test V wd (ask V img what msg)"
  by (auto simp: tidy_test_def test_return_def Fatalf_def steps_def ask_def opened_append half_started_def split: sum.split)

lemma tidy_then:
  assumes "tidy_test V wd m" "\<And>x. tidy_test V wd (k x)"
  shows "tidy_test V wd (test_then m k)"
  unfolding tidy_test_def
proof (intro allI impI)
  fix s :: test_state
  assume s: "opened wd (tt_steps s) ([], []) = Some (tt_cleanups s, [])"
  obtain r s1 where m: "m s = (r, s1)" by fastforce
  show "\<exists>ls. opened wd (tt_steps (snd (test_then m k s))) ([], []) = Some (tt_cleanups (snd (test_then m k s)), ls) \<and>
      half_started V ls \<and> (fst (test_then m k s) \<noteq> None \<longrightarrow> ls = []) \<and>
      (\<forall>name. TestBody name \<in> set (tt_steps (snd (test_then m k s))) \<longrightarrow> TestBody name \<in> set (tt_steps s))"
  proof (cases r)
    case None
    then show ?thesis using tidy_testD [OF assms(1) s m] m by (simp add: test_then_def)
  next
    case (Some x)
    then have s1: "opened wd (tt_steps s1) ([], []) = Some (tt_cleanups s1, [])"
      "\<forall>name. TestBody name \<in> set (tt_steps s1) \<longrightarrow> TestBody name \<in> set (tt_steps s)"
      using tidy_testD [OF assms(1) s m] by auto
    obtain r2 s2 where k: "k x s1 = (r2, s2)" by fastforce
    show ?thesis
      using tidy_testD [OF assms(2) s1(1) k] s1(2) m Some k by (auto simp: test_then_def)
  qed
qed

lemma tidy_if: "(b \<Longrightarrow> tidy_test V wd m) \<Longrightarrow> (\<not> b \<Longrightarrow> tidy_test V wd n) \<Longrightarrow> tidy_test V wd (if b then m else n)"
  by simp

lemma tidy_start: "tidy_test V wd (start_container V img msg)"
  by (auto simp: half_started_def tidy_test_def start_container_def test_then_def steps_def Fatalf_def Cleanup_def opened_append
      split: prod.split option.split)

lemma tidy_store: "tidy_test V wd (new_store wd url c msg)"
  by (auto simp: tidy_test_def new_store_def store_New_def test_then_def steps_def Fatalf_def Cleanup_def test_return_def
      opened_append half_started_def split: prod.split option.split)

lemma tidy_server: "tidy_test V wd (test_then (steps [NewServer]) (\<lambda>_. test_then (Cleanup HttpServer) (\<lambda>_. test_return x)))"
  by (simp add: tidy_test_def test_then_def steps_def Cleanup_def test_return_def opened_append half_started_def)

lemma tidy_helpers:
  "tidy_test V wd (NewTestServer V wd c url opts)" "tidy_test V wd (NewCockroachStore V wd c)"
proof -
  note parts = tidy_basic tidy_start tidy_store tidy_server
  have services: "tidy_test V wd (startCRDB V)" "tidy_test V wd (startMeilisearch V)" "tidy_test V wd (startGel V)"
    by (simp_all add: startCRDB_def startMeilisearch_def startGel_def tidy_then parts)
  show "tidy_test V wd (NewTestServer V wd c url opts)" unfolding NewTestServer_def Let_def
    by (intro tidy_server services parts tidy_if tidy_then)
  have "tidy_test V wd (case svc_ask V testserver ''PGURL'' of
      Inl e \<Rightarrow> Fatalf ''testserver returned nil PGURL'' None | Inr url \<Rightarrow> test_return url)"
    by (cases "svc_ask V testserver ''PGURL''") (simp_all add: parts)
  then show "tidy_test V wd (NewCockroachStore V wd c)"
    by (simp add: NewCockroachStore_def tidy_then parts)
qed

lemma opened_clean: "opened wd (clean V r) (r # rs, ls) = Some (rs, ls)"
  by (cases r) (simp_all split: option.split)

lemma no_body: "TestBody name \<notin> set (clean V r)"
  by (cases r) (simp_all split: option.split)

lemma opened_cleanups: "opened wd (concat (map (clean V) rs)) (rs, ls) = Some ([], ls)"
  by (induction rs) (simp_all add: opened_append opened_clean)

lemma tidy_run:
  assumes "tidy_test V wd m" "m \<lparr>tt_cleanups = [], tt_steps = []\<rparr> = (r, s)"
  shows "\<exists>ls. opened wd (tt_steps s) ([], []) = Some (tt_cleanups s, ls) \<and>
    opened wd (run_test V m name) ([], []) = Some ([], ls) \<and> half_started V ls \<and> (r \<noteq> None \<longrightarrow> ls = []) \<and>
    (\<forall>name. TestBody name \<notin> set (tt_steps s))"
proof -
  obtain ls where "opened wd (tt_steps s) ([], []) = Some (tt_cleanups s, ls)" "half_started V ls" "r \<noteq> None \<longrightarrow> ls = []"
    "\<forall>name. TestBody name \<notin> set (tt_steps s)"
    using tidy_testD [OF assms(1) _ assms(2)] by auto
  then show ?thesis by (simp add: run_test_def assms(2) opened_append opened_cleanups split: option.split)
qed

text \<open>The cleanups a helper has registered when it returns.\<close>

lemma test_then_Some: "test_then m k s = (Some y, s2) \<longleftrightarrow> (\<exists>x s1. m s = (Some x, s1) \<and> k x s1 = (Some y, s2))"
  by (auto simp: test_then_def split: prod.splits option.splits)

lemma ask_Some: "ask V img what msg s = (Some y, s1) \<Longrightarrow> s1 = s"
  by (simp add: ask_def Fatalf_def test_return_def split: sum.splits)

lemma start_Some: "start_container V img msg s = (Some y, s1) \<Longrightarrow> tt_cleanups s1 = Container img # tt_cleanups s"
  by (auto simp: start_container_def Fatalf_def steps_def Cleanup_def test_then_def split: prod.splits option.splits)

lemma services_Some:
  "startCRDB V s = (Some y, s1) \<Longrightarrow> tt_cleanups s1 = Container crdb_image # tt_cleanups s"
  "startMeilisearch V s = (Some y, s1) \<Longrightarrow> tt_cleanups s1 = Container meilisearch_image # tt_cleanups s"
  "startGel V s = (Some y, s1) \<Longrightarrow> tt_cleanups s1 = Container gel_image # tt_cleanups s"
  by (auto simp: startCRDB_def startMeilisearch_def startGel_def test_then_Some test_return_def dest!: ask_Some start_Some)

lemma store_Some: "new_store wd url c msg s = (Some c1, s1) \<Longrightarrow> tt_cleanups s1 = StoreConn # tt_cleanups s \<and> migrated c1"
  by (auto simp: new_store_def test_then_Some steps_def Cleanup_def Fatalf_def test_return_def dest!: store_New_closes(2)
      split: prod.splits option.splits)

text \<open>The server, the store, and the containers the options ask for.\<close>

definition server_resources :: "options \<Rightarrow> resource list" where
  "server_resources o1 = [HttpServer, StoreConn] @ (if op_gel o1 then [Container gel_image] else []) @
     (if op_meilisearch o1 then [Container meilisearch_image] else []) @ [Container crdb_image]"

lemma server_Some:
  assumes "NewTestServer V wd c url opts s = (Some (u, cfg, c1), s1)"
  shows "tt_cleanups s1 = server_resources (options_of opts) @ tt_cleanups s \<and>
    u = url \<and> cfg_Token cfg = op_token (options_of opts) \<and> cfg_GitHubWebhookSecret cfg = [] \<and> migrated c1"
  using assms
  by (auto simp: NewTestServer_def Let_def test_then_Some test_return_def steps_def Cleanup_def test_config_def
      server_resources_def dest!: services_Some store_Some split: if_splits)

text \<open>
  C18. The test server cleans up after itself.  Whatever fails on the way (a container, one of its properties, the store), all that
  the helper has opened is closed again exactly once, the latest first.  All that can stay is one container, of an image whose start
  reported an error and left it, and then the test body does not run.  It runs only with the server, the store and the containers of
  the options all open and nothing left over, against a migrated database, with the token of the last \<^verbatim>\<open>WithToken\<close>.
\<close>

theorem harness_cleans_up:
  shows "\<exists>left. opened wd (run_test V (NewTestServer V wd c url opts) fst) ([], []) = Some ([], left) \<and>
    (left = [] \<or> (\<exists>img e. left = [Container img] \<and> svc_run V img = (True, Some e))) \<and>
    (case NewTestServer V wd c url opts \<lparr>tt_cleanups = [], tt_steps = []\<rparr> of
       (None, s) \<Rightarrow> \<forall>name. TestBody name \<notin> set (run_test V (NewTestServer V wd c url opts) fst)
     | (Some (u, cfg, c1), s) \<Rightarrow> left = [] \<and> opened wd (tt_steps s) ([], []) = Some (server_resources (options_of opts), []) \<and>
         u = url \<and> cfg_Token cfg = op_token (options_of opts) \<and> cfg_GitHubWebhookSecret cfg = [] \<and> migrated c1)"
proof -
  obtain r s where run: "NewTestServer V wd c url opts \<lparr>tt_cleanups = [], tt_steps = []\<rparr> = (r, s)" by fastforce
  obtain ls where ls: "opened wd (tt_steps s) ([], []) = Some (tt_cleanups s, ls)" "half_started V ls" "r \<noteq> None \<longrightarrow> ls = []"
    "\<forall>name. TestBody name \<notin> set (tt_steps s)"
    "opened wd (run_test V (NewTestServer V wd c url opts) fst) ([], []) = Some ([], ls)"
    using tidy_run [OF tidy_helpers(1) run] by blast
  show ?thesis
  proof (cases r)
    case None
    have "TestBody name \<notin> set (run_test V (NewTestServer V wd c url opts) fst)" for name
      using ls(4) no_body by (auto simp: run_test_def run None)
    then show ?thesis using ls None run by (simp add: half_started_def)
  next
    case (Some x)
    then show ?thesis using ls run by (cases x) (auto simp: half_started_def dest!: server_Some)
  qed
qed

definition demo_services :: services where
  "demo_services = \<lparr>svc_run = (\<lambda>img. (True, None)), svc_terminate = (\<lambda>_. None), svc_ask = (\<lambda>img what. Inr what)\<rparr>"

definition demo_world :: world where
  "demo_world = \<lparr>wd_error = (\<lambda>_. None), wd_tables = Committed, wd_indexes = Committed, wd_contents = no_rows\<rparr>"

text \<open>No hypothesis is needed; an undisturbed test server runs its body with everything open.\<close>

lemma undisturbed_test_runs:
  "TestBody ''u'' \<in> set (run_test demo_services (NewTestServer demo_services demo_world empty_catalog ''u'' [WithGel, WithToken ''x'']) fst)"
proof -
  obtain c0 where "migrate Committed Committed no_rows empty_catalog = (None, c0)"
    using fresh_start by (metis prod.collapse)
  then have "store_New demo_world url empty_catalog = ((None, c0), [OpenDB url, PingDB, Migrate])" for url
    by (simp add: store_New_def demo_world_def)
  then show ?thesis
    by (simp add: run_test_def NewTestServer_def Let_def options_of_def test_then_def test_return_def startCRDB_def startGel_def
        start_container_def ask_def demo_services_def steps_def Cleanup_def new_store_def)
qed

text \<open>A container that a failing start leaves does leak: nothing is registered before the error is looked at.\<close>

lemma half_started_container_leaks:
  assumes "svc_run V crdb_image = (True, Some e)"
  shows "opened wd (run_test V (NewTestServer V wd c url opts) name) ([], []) = Some ([], [Container crdb_image])"
  using assms by (simp add: run_test_def NewTestServer_def Let_def startCRDB_def start_container_def test_then_def steps_def Fatalf_def)

end
