(* ===== verification/Shutdown.thy ===== *)
theory Shutdown
  imports Startup
begin

text \<open>
  The goroutines of \<^verbatim>\<open>Run\<close> (\<^verbatim>\<open>internal/server/server.go\<close>) as a step relation: the server, its shutdown, the loops and the
  handlers, in any interleaving, from the moment the server listens.
\<close>

section \<open>The goroutines\<close>

text \<open>
  \<^verbatim>\<open>Run\<close> itself: blocked in \<^verbatim>\<open>ListenAndServe\<close>, past it with the deferred \<^verbatim>\<open>Close\<close> ahead, or returned.  The goroutine
  that shuts the server down: waiting for the context, in \<^verbatim>\<open>Shutdown\<close>, or done.  A loop: in its \<^verbatim>\<open>select\<close>, in a
  call of the store, or returned.
\<close>

datatype main_pc = Serving | Returning | Returned
datatype shut_pc = AwaitingCtx | InShutdown | ShutDone
datatype loop_pc = Selecting | InCall | LoopDone

text \<open>
  With them: the context, the listener, the number of connections on which no handler runs, the number of
  requests whose handlers run, whether the store is open, and for each call of the store, the latest first,
  whether it found it open.
\<close>

record run_state =
  rs_main :: main_pc
  rs_shut :: shut_pc
  rs_expiry :: loop_pc
  rs_prune :: loop_pc
  rs_cancelled :: bool
  rs_listening :: bool
  rs_conns :: nat
  rs_requests :: nat
  rs_open :: bool
  rs_calls :: "bool list"

definition serving :: run_state where
  "serving = \<lparr>rs_main = Serving, rs_shut = AwaitingCtx, rs_expiry = Selecting, rs_prune = Selecting, rs_cancelled = False,
     rs_listening = True, rs_conns = 0, rs_requests = 0, rs_open = True, rs_calls = []\<rparr>"

text \<open>
  A step of one of them.  A connection is accepted while the listener is open; the handler of its request begins
  when the request has been read, which may be after the shutdown began.  A connection is kept for further
  requests only before that.  \<^verbatim>\<open>Shutdown\<close> first closes the listener, at which \<^verbatim>\<open>ListenAndServe\<close> returns, then closes
  idle connections and waits for the others and their handlers, ten seconds at most.
\<close>

inductive go_step :: "run_state \<Rightarrow> run_state \<Rightarrow> bool" where
  cancel: "go_step s (s\<lparr>rs_cancelled := True\<rparr>)"
| accept: "rs_listening s \<Longrightarrow> go_step s (s\<lparr>rs_conns := Suc (rs_conns s)\<rparr>)"
| hang_up: "rs_conns s > 0 \<Longrightarrow> go_step s (s\<lparr>rs_conns := rs_conns s - 1\<rparr>)"
| begin_request: "rs_conns s > 0 \<Longrightarrow>
    go_step s (s\<lparr>rs_conns := rs_conns s - 1, rs_requests := Suc (rs_requests s)\<rparr>)"
| request_call: "rs_requests s > 0 \<Longrightarrow> go_step s (s\<lparr>rs_calls := rs_open s # rs_calls s\<rparr>)"
| respond: "rs_requests s > 0 \<Longrightarrow> go_step s (s\<lparr>rs_requests := rs_requests s - 1\<rparr>)"
| keep_alive: "rs_requests s > 0 \<Longrightarrow> rs_shut s = AwaitingCtx \<Longrightarrow>
    go_step s (s\<lparr>rs_requests := rs_requests s - 1, rs_conns := Suc (rs_conns s)\<rparr>)"
| shutdown: "rs_shut s = AwaitingCtx \<Longrightarrow> rs_cancelled s \<Longrightarrow> go_step s (s\<lparr>rs_shut := InShutdown, rs_listening := False\<rparr>)"
| drained: "rs_shut s = InShutdown \<Longrightarrow> rs_requests s = 0 \<Longrightarrow> rs_conns s = 0 \<Longrightarrow> go_step s (s\<lparr>rs_shut := ShutDone\<rparr>)"
| timed_out: "rs_shut s = InShutdown \<Longrightarrow> go_step s (s\<lparr>rs_shut := ShutDone\<rparr>)"
| listen_failed: "rs_main s = Serving \<Longrightarrow> go_step s (s\<lparr>rs_main := Returning, rs_listening := False\<rparr>)"
| server_closed: "rs_main s = Serving \<Longrightarrow> \<not> rs_listening s \<Longrightarrow> go_step s (s\<lparr>rs_main := Returning\<rparr>)"
| close_store: "rs_main s = Returning \<Longrightarrow> go_step s (s\<lparr>rs_main := Returned, rs_open := False\<rparr>)"
| expiry_tick: "rs_expiry s = Selecting \<Longrightarrow> go_step s (s\<lparr>rs_expiry := InCall, rs_calls := rs_open s # rs_calls s\<rparr>)"
| expiry_return: "rs_expiry s = InCall \<Longrightarrow> go_step s (s\<lparr>rs_expiry := Selecting\<rparr>)"
| expiry_done: "rs_expiry s = Selecting \<Longrightarrow> rs_cancelled s \<Longrightarrow> go_step s (s\<lparr>rs_expiry := LoopDone\<rparr>)"
| prune_tick: "rs_prune s = Selecting \<Longrightarrow> go_step s (s\<lparr>rs_prune := InCall, rs_calls := rs_open s # rs_calls s\<rparr>)"
| prune_return: "rs_prune s = InCall \<Longrightarrow> go_step s (s\<lparr>rs_prune := Selecting\<rparr>)"
| prune_done: "rs_prune s = Selecting \<Longrightarrow> rs_cancelled s \<Longrightarrow> go_step s (s\<lparr>rs_prune := LoopDone\<rparr>)"

definition runs_to :: "run_state \<Rightarrow> bool" where
  "runs_to s \<longleftrightarrow> go_step\<^sup>*\<^sup>* serving s"

lemma runs_to_step: "runs_to s \<Longrightarrow> go_step s s' \<Longrightarrow> runs_to s'"
  unfolding runs_to_def by (rule rtranclp.rtrancl_into_rtrancl)

section \<open>What holds in every run\<close>

definition run_ok :: "run_state \<Rightarrow> bool" where
  "run_ok s \<longleftrightarrow> (rs_open s \<longleftrightarrow> rs_main s \<noteq> Returned) \<and> (rs_main s \<noteq> Serving \<longrightarrow> \<not> rs_listening s) \<and>
     (rs_shut s \<noteq> AwaitingCtx \<longrightarrow> rs_cancelled s \<and> \<not> rs_listening s) \<and>
     (rs_expiry s = LoopDone \<or> rs_prune s = LoopDone \<longrightarrow> rs_cancelled s)"

lemma run_ok_step: "go_step s s' \<Longrightarrow> run_ok s \<Longrightarrow> run_ok s'"
  by (erule go_step.cases; clarsimp simp: run_ok_def)

lemma run_ok: "runs_to s \<Longrightarrow> run_ok s"
proof -
  assume "runs_to s"
  then have "go_step\<^sup>*\<^sup>* serving s" by (simp add: runs_to_def)
  then show "run_ok s"
  proof (induction rule: rtranclp_induct)
    case base
    show ?case by (simp add: serving_def run_ok_def)
  qed (rule run_ok_step)
qed

lemma accept_n: "go_step\<^sup>*\<^sup>* serving (serving\<lparr>rs_requests := n\<rparr>)"
proof (induction n)
  case 0
  then show ?case by (simp add: serving_def)
next
  case (Suc n)
  let ?s0 = "serving\<lparr>rs_requests := n\<rparr>"
  let ?s1 = "?s0\<lparr>rs_conns := Suc (rs_conns ?s0)\<rparr>"
  have "go_step ?s0 ?s1" by (rule go_step.accept) (simp add: serving_def)
  moreover have "go_step ?s1 (?s1\<lparr>rs_conns := rs_conns ?s1 - 1, rs_requests := Suc (rs_requests ?s1)\<rparr>)"
    by (rule go_step.begin_request) simp
  then have "go_step ?s1 (serving\<lparr>rs_requests := Suc n\<rparr>)" by (simp add: serving_def)
  ultimately show ?case using Suc by (meson rtranclp.rtrancl_into_rtrancl)
qed

text \<open>The state in which \<^verbatim>\<open>Run\<close> has returned with \<open>n\<close> handlers at work, one of which has just called the store.\<close>

definition abandoned :: "nat \<Rightarrow> run_state" where
  "abandoned n = serving\<lparr>rs_requests := n, rs_cancelled := True, rs_shut := InShutdown, rs_listening := False, rs_main := Returned,
     rs_open := False, rs_calls := [False]\<rparr>"

lemma runs_to_abandoned: "runs_to (abandoned (Suc n))"
proof -
  let ?s0 = "serving\<lparr>rs_requests := Suc n\<rparr>"
  let ?s1 = "?s0\<lparr>rs_cancelled := True\<rparr>"
  let ?s2 = "?s1\<lparr>rs_shut := InShutdown, rs_listening := False\<rparr>"
  let ?s3 = "?s2\<lparr>rs_main := Returning\<rparr>"
  let ?s4 = "?s3\<lparr>rs_main := Returned, rs_open := False\<rparr>"
  let ?s5 = "?s4\<lparr>rs_calls := rs_open ?s4 # rs_calls ?s4\<rparr>"
  have "runs_to ?s0" unfolding runs_to_def by (rule accept_n)
  then have "runs_to ?s1" by (rule runs_to_step) (rule go_step.cancel)
  then have "runs_to ?s2" by (rule runs_to_step) (rule go_step.shutdown; simp add: serving_def)
  then have "runs_to ?s3" by (rule runs_to_step) (rule go_step.server_closed; simp add: serving_def)
  then have "runs_to ?s4" by (rule runs_to_step) (rule go_step.close_store; simp)
  then have "runs_to ?s5" by (rule runs_to_step) (rule go_step.request_call; simp)
  then show ?thesis by (simp add: abandoned_def serving_def)
qed

text \<open>
  C17. The order of a shutdown.  In every run of the goroutines of \<^verbatim>\<open>Run\<close>, in any interleaving, the store stays open until
  \<^verbatim>\<open>Run\<close> returns, and the listener is closed before: every connection is accepted by a server whose store is open.
  \<^verbatim>\<open>Shutdown\<close> is called, and a loop ends, only after the context was cancelled.
\<close>

theorem shutdown_order:
  assumes "runs_to s"
  shows "(rs_open s \<longleftrightarrow> rs_main s \<noteq> Returned) \<and> (rs_listening s \<longrightarrow> rs_main s = Serving \<and> rs_open s) \<and>
    (rs_shut s \<noteq> AwaitingCtx \<longrightarrow> rs_cancelled s \<and> \<not> rs_listening s) \<and>
    (rs_expiry s = LoopDone \<or> rs_prune s = LoopDone \<longrightarrow> rs_cancelled s)"
  using run_ok [OF assms] by (cases "rs_main s") (simp_all add: run_ok_def)

theorem shutdown_order_witness:
  "\<not> rs_listening (abandoned 3) \<and> rs_cancelled (abandoned 3)"
  using shutdown_order [of "abandoned (Suc 2)"] runs_to_abandoned [of 2] by (simp add: abandoned_def serving_def)

text \<open>
  C39. The shutdown is not graceful.  \<^verbatim>\<open>ListenAndServe\<close> returns as soon as \<^verbatim>\<open>Shutdown\<close> has closed the listener, and nothing waits
  for \<^verbatim>\<open>Shutdown\<close> itself: after a signal \<^verbatim>\<open>Run\<close> may close the store and return while any number of handlers is still at work within the
  ten seconds they are granted, and a call of theirs finds the database closed.
\<close>

theorem shutdown_abandons_handlers:
  "\<exists>s. runs_to s \<and> rs_cancelled s \<and> rs_shut s = InShutdown \<and> rs_main s = Returned \<and> rs_requests s = Suc n \<and> rs_calls s = [False]"
  using runs_to_abandoned [of n] by (intro exI [of _ "abandoned (Suc n)"]) (simp add: abandoned_def)

text \<open>A handler may even begin after \<^verbatim>\<open>Run\<close> has returned, on a connection accepted before the shutdown.\<close>

lemma late_handler:
  "\<exists>s s'. runs_to s \<and> rs_main s = Returned \<and> rs_requests s = 0 \<and> go_step s s' \<and> rs_requests s' = 1 \<and> \<not> rs_open s'"
proof -
  let ?s0 = "serving\<lparr>rs_conns := Suc (rs_conns serving)\<rparr>"
  let ?s1 = "?s0\<lparr>rs_cancelled := True\<rparr>"
  let ?s2 = "?s1\<lparr>rs_shut := InShutdown, rs_listening := False\<rparr>"
  let ?s3 = "?s2\<lparr>rs_main := Returning\<rparr>"
  let ?s4 = "?s3\<lparr>rs_main := Returned, rs_open := False\<rparr>"
  have "runs_to serving" by (simp add: runs_to_def)
  then have "runs_to ?s0" by (rule runs_to_step) (rule go_step.accept; simp add: serving_def)
  then have "runs_to ?s1" by (rule runs_to_step) (rule go_step.cancel)
  then have "runs_to ?s2" by (rule runs_to_step) (rule go_step.shutdown; simp add: serving_def)
  then have "runs_to ?s3" by (rule runs_to_step) (rule go_step.server_closed; simp add: serving_def)
  then have "runs_to ?s4" by (rule runs_to_step) (rule go_step.close_store; simp)
  moreover have "go_step ?s4 (?s4\<lparr>rs_conns := rs_conns ?s4 - 1, rs_requests := Suc (rs_requests ?s4)\<rparr>)"
    by (rule go_step.begin_request) simp
  ultimately show ?thesis by (intro exI conjI) (assumption | simp add: serving_def)+
qed

end
