(* ===== verification/Spec2Isabelle.thy ===== *)
theory Spec2Isabelle
  imports CommandLine Timing Wire Waiters WellTyped Harness Shutdown
begin

text \<open>
  A verification development for \<^verbatim>\<open>hive-server\<close>, the coordination server of a group of agents: it keeps their
  shared memory, tasks, todos, exclusive claims with waiting queues, presence, a directory and recorded
  sessions in one PostgreSQL/CockroachDB database and offers them over HTTP.

  \<^bold>\<open>The program and the theories.\<close>  Paths are below \<^verbatim>\<open>src/\<close>.

  \<^item> Foundations.  \<open>Prelude\<close>: generic lemmas on lists, digits and texts and the collections the proofs share.
    \<open>GoTime\<close>: \<^verbatim>\<open>time.Time\<close> as an instant with a zone, its RFC 3339 layouts and their parser, and what
    comparing such texts says about the times.  \<open>GoDuration\<close>: \<^verbatim>\<open>time.ParseDuration\<close> and \<^verbatim>\<open>Duration.Seconds\<close>.
    \<open>GoJson\<close>: JSON values and their decoding into Go types.  \<open>Sha256\<close>: SHA-256, HMAC and hexadecimal text.
    \<open>SqlLike\<close>: the LIKE operator.  \<open>Fifo\<close>: the locale of a queue per key that the waiting queue implements.
  \<^item> The database.  \<open>Sql\<close>: statements on tables with a primary key and a partial unique index, in the locale
    \<open>sql_table\<close>.  \<open>Schema\<close>: the ten tables of \<^verbatim>\<open>internal/store/store.go\<close>, one record of rows per table, with
    the invariant \<open>db_ok\<close> and an interpretation of \<open>sql_table\<close> for each.  \<open>Migration\<close>: the statements of the
    schema as data, each with or without IF NOT EXISTS, run on the catalogue of a database of any age.  \<open>Access\<close>: statements outside a
    transaction and the environment \<open>senv\<close> a method runs in.  \<open>Retry\<close>: \<^verbatim>\<open>internal/store/retry.go\<close>, a closure
    run in up to six transactions, in the locale \<open>tx_body\<close> for the invariants of closures, and \<open>leads\<close> for bodies that
    break one in between.  \<open>Model\<close>:
    \<^verbatim>\<open>internal/model\<close>, one record per struct, and the status machine of tasks.
  \<^item> The store (\<^verbatim>\<open>internal/store\<close>), one theory per file: \<open>ClaimStore\<close> and \<open>ClaimQueue\<close>, \<open>TaskStore\<close>, \<open>MemoryStore\<close>,
    \<open>TodoStore\<close>, \<open>AgentStore\<close>, \<open>DiscoveryStore\<close>, \<open>SessionStore\<close>.  \<open>X_tx\<close> is the closure that the method \<open>X\<close> hands
    to \<^verbatim>\<open>RetryTx\<close>, statement by statement.
  \<^item> The handlers (\<^verbatim>\<open>internal/handlers\<close>): \<open>Http\<close> has the shapes they share, \<open>ClaimApi\<close>, \<open>TodoApi\<close>, \<open>TaskApi\<close> (tasks
    and memory) and \<open>AgentApi\<close> (agents, discovery, sessions and the relay client) one definition per handler,
    \<open>Api\<close> the registered operations with method, path, status and handler.  \<open>Inputs\<close>: what the tags of the input
    structs say is read from a request and checked, and what a page of \<^verbatim>\<open>internal/ui\<close> shares with the operation of the API
    that reads the same filters.  \<open>Wire\<close>: the JSON of the answers by the tags of the model and
    response structs.  \<open>Timing\<close>: the buffering middleware.  \<open>Webhook\<close>: \<^verbatim>\<open>internal/webhook/webhook.go\<close>.  \<open>Ui\<close>: the pages of \<^verbatim>\<open>internal/ui/ui.go\<close>.
  \<^item> The server.  \<open>Server\<close>: authentication, the mux and the probes (\<^verbatim>\<open>internal/server\<close>).  \<open>Startup\<close>:
    configuration, opening the store, \<^verbatim>\<open>Server.Run\<close> and the background loops.  \<open>Shutdown\<close>: the goroutines of
    \<^verbatim>\<open>Run\<close> as a step relation, with connections, handlers and the two closings, from listening to the end.  \<open>Log\<close>: \<^verbatim>\<open>internal/log/log.go\<close>.
    \<open>CommandLine\<close>: \<^verbatim>\<open>cmd/hive-server\<close>, the process from its arguments to its exit code.  \<open>Harness\<close>: the test server
    of \<^verbatim>\<open>pkg/testharness\<close> and \<^verbatim>\<open>internal/testutil\<close> with its containers, its cleanups and what failed starts leave behind.
  \<^item> The composition.  \<open>System\<close>: the methods of the \<^verbatim>\<open>Store\<close> interface as calls, and \<open>reaches\<close>, the databases
    that interleaved calls reach.  \<open>Guarantees\<close>: what holds of all of them.  \<open>Program\<close>: requests, deliveries,
    pages and ticks as events of one machine, and the reduction of its runs to calls of the store.
    \<open>ReadOnly\<close>: what a GET request may do.  \<open>Confinement\<close>: what a request may do to the claims and todos of another
    agent.  \<open>WellTyped\<close>: what the validation of inputs guarantees about stored data.  \<open>Waiters\<close>: what becomes of an
    entry of the waiting queue.

  \<^bold>\<open>How state, errors and concurrency are modelled.\<close>  The state is the record \<open>database\<close>; an operation takes an
  environment, its arguments and the database and gives a result and the database after it.  Errors are
  values \<open>goerr\<close> (the sentinels, PostgreSQL errors, wrapped errors) on the left of a sum, and handlers map
  them to \<open>http_error\<close>.  An environment \<open>senv\<close> fixes, for every attempt of a transaction and every access
  outside one, the clock, the identifiers drawn, which statements and commits fail and how, whether the
  context is cancelled while waiting, and what other sessions did to the database before.  Transactions are
  serialisable, as in CockroachDB: other sessions act between attempts, not inside one.  After an error every
  later statement of a transaction fails: after one the server reported with SQLSTATE 25P02, after an error of
  the driver or the context with that error or another.  \<open>quiet E\<close> says
  that nothing fails and nobody else acts; \<open>calm\<close> says it of one attempt.  Theorems without it hold for
  every failure, retry and interleaving the environment describes.  In \<open>reaches\<close> and \<open>Program\<close> what other
  sessions do is itself a run of such calls.  The invariants are interpretations of the locales
  \<open>guarded_invariant\<close> and \<open>store_invariant\<close> (one obligation per closure; a guard may limit the calls), the layers
  above the store of \<open>guarded_user\<close>, \<open>hooked_user\<close>, \<open>store_user\<close> and \<open>webhook_keeps\<close>.

  \<^bold>\<open>What the lemmas show.\<close>  Per component: its tables stay well-formed; how each operation runs undisturbed, on
  every branch; what reads return after writes.  Claims: a claim returned is the only active one of its
  resource, releasing and expiry hand over to the first waiter, the queue is a FIFO as far as the order of
  time stamps as texts allows.  Tasks: the status machine.  Memory: optimistic locking, and how a retry
  after a refused commit breaks it.  Handlers: who may touch claims and todos, the race between refusal and
  queueing.  Retry: attempts after the first failures, as long as six, and what ends them.  Pages: the same filters and
  the same rows as the API.  Server: which requests pass authentication.  Webhook: signatures, releasing, completing.
  Composition: consistency, types of statuses, histories of tasks, ownership, GET requests that write
  nothing, and the reduction above.  End to end: no request with a bearer token reaches another agent's claims and todos unless the token is
  that agent's or the global one, and where a global token is configured none without a token does; tokens never show in the answers to GET requests; what is stored has passed validation; no waiter is lost.  Shutdown: the order of
  closing, and handlers that outlive the store.  Harness: all that a test opens and keeps is closed, in reverse;
  containers of starts that failed stay.  Log: nested redirections that are balanced and new to the stack return
  and leave it as it was; redirecting back to a writer already below blocks for ever.  Start: the migration of any older schema succeeds, can be repeated
  after interruptions, which rests on every statement being guarded, and leaves every column the store names; no
  data is touched before.

  \<^bold>\<open>Recursion and bounds.\<close>  Loops are structural recursion over the data the code ranges over (rows,
  identifiers, events); \<open>retry_from\<close> counts down the attempts, at most \<open>maxRetries + 1 = 6\<close>; \<open>ParseDuration\<close> and the
  blocks of SHA-256 recurse with a measure, the length of the rest.  There is no fuel.  Integers of the
  program stay far below their width except durations, which wrap as \<^verbatim>\<open>int64\<close> (\<open>wrap64\<close>), and the words of
  SHA-256, which are 32-bit words.

  \<^bold>\<open>Parameters and assumptions.\<close>  Strings are their UTF-8 bytes, taken to be valid and without NUL; \<^verbatim>\<open>ORDER BY\<close>
  is stable; JSONB keeps a value as it is; object members are looked up by exact name.  A \<^verbatim>\<open>float64\<close> is an
  exact number or goes through a rounding \<open>rnd\<close>.  Scanning NOT NULL columns does not fail.  Identifiers drawn
  at random are distinct where a theorem says so.  Serial numbers of notes and queue entries grow by one; CockroachDB
  draws others that grow with time, and only their order is used, to break ties of time stamps.  The JSON syntax of bodies (\<open>decode\<close>), the choice of the
  operation and the parameters of a URL (\<open>router\<close>: huma on chi), the network behind the relay
  (\<open>send\<close>), flags and arguments (cobra), environment, driver and listener (\<open>world\<close>), containers
  (\<open>services\<close>) and the embedded files are parameters.  What is relied on of huma is stated by \<open>huma_router\<close>: it picks
  operations by method, reads inputs and validates them as the tags say.  Clean paths are assumed of
  \<^verbatim>\<open>http.ServeMux\<close>.  The goroutine that calls the relay is the call, returned beside the response.

  \<^bold>\<open>Not modelled.\<close>  The member \<^verbatim>\<open>$schema\<close> and the bodies of errors huma adds to answers, and its generated API
  documents; the execution of HTML templates; what secondary indexes do to queries; server time-outs; log
  lines, apart from \<open>Log\<close>, the harness and the background loops.  They are I/O or code of other packages.
\<close>

end
